theory Spec2Isabelle
  imports Main "HOL-Library.Word"
begin

unbundle bit_operations_syntax

section \<open>The native Win32 menu bridge (views/controls/menu/native_menu_win.cc)\<close>

text \<open>
  The embedding follows \<^verbatim>\<open>native_menu_win.cc\<close>. C++ pointers and Win32 handles are
  \<open>nat option\<close> (\<open>None\<close> is \<open>NULL\<close>); \<open>UINT\<close> values are 32-bit words; \<open>int\<close> values that
  only count or index menu items are HOL integers (no arithmetic in the file can leave
  the 32-bit range for a menu that fits in memory). Dereferencing \<open>NULL\<close> and indexing a
  vector out of range are results of type \<open>error\<close>.
\<close>

subsection \<open>Win32: menu objects, as the calls of the file use them\<close>

type_synonym UINT = "32 word"
type_synonym HMENU = "nat option"
type_synonym HWND = "nat option"
type_synonym wstring = string

text \<open>Constants of \<^verbatim>\<open>winuser.h\<close>.\<close>

definition MIIM_STATE :: UINT where "MIIM_STATE = 0x1"
definition MIIM_ID :: UINT where "MIIM_ID = 0x2"
definition MIIM_SUBMENU :: UINT where "MIIM_SUBMENU = 0x4"
definition MIIM_DATA :: UINT where "MIIM_DATA = 0x20"
definition MIIM_STRING :: UINT where "MIIM_STRING = 0x40"
definition MIIM_FTYPE :: UINT where "MIIM_FTYPE = 0x100"

definition MFT_STRING :: UINT where "MFT_STRING = 0x0"
definition MFT_OWNERDRAW :: UINT where "MFT_OWNERDRAW = 0x100"
definition MFT_RADIOCHECK :: UINT where "MFT_RADIOCHECK = 0x200"
definition MFT_SEPARATOR :: UINT where "MFT_SEPARATOR = 0x800"
definition MF_SEPARATOR :: UINT where "MF_SEPARATOR = 0x800"
definition MF_POPUP :: UINT where "MF_POPUP = 0x10"
definition MF_HILITE :: UINT where "MF_HILITE = 0x80"

definition MFS_ENABLED :: UINT where "MFS_ENABLED = 0x0"
definition MFS_DISABLED :: UINT where "MFS_DISABLED = 0x3"
definition MFS_CHECKED :: UINT where "MFS_CHECKED = 0x8"
definition MFS_DEFAULT :: UINT where "MFS_DEFAULT = 0x1000"

definition MNS_NOTIFYBYPOS :: UINT where "MNS_NOTIFYBYPOS = 0x08000000"

definition TPM_LEFTBUTTON :: UINT where "TPM_LEFTBUTTON = 0x0"
definition TPM_RECURSE :: UINT where "TPM_RECURSE = 0x1"
definition TPM_TOPALIGN :: UINT where "TPM_TOPALIGN = 0x0"
definition TPM_LEFTALIGN :: UINT where "TPM_LEFTALIGN = 0x0"
definition TPM_RIGHTALIGN :: UINT where "TPM_RIGHTALIGN = 0x8"

definition WM_KEYDOWN :: UINT where "WM_KEYDOWN = 0x100"
definition VK_LEFT :: UINT where "VK_LEFT = 0x25"
definition VK_RIGHT :: UINT where "VK_RIGHT = 0x27"

text \<open>
  \<^verbatim>\<open>MENUITEMINFO\<close>. \<open>dwItemData\<close> is a pointer to a registry entry (\<^verbatim>\<open>ItemData*\<close>); it is
  represented by the slot it designates: the address of the owning \<^verbatim>\<open>NativeMenuWin\<close>
  and the index of the entry in its \<^verbatim>\<open>items_\<close>. \<open>dwTypeData\<close> is the label text the
  pointer given to Windows designates at the time of the call.
\<close>

record MENUITEMINFO =
  fMask :: UINT
  fType :: UINT
  fState :: UINT
  wID :: UINT
  hSubMenu :: HMENU
  dwItemData :: "(nat \<times> int) option"
  dwTypeData :: wstring

text \<open>\<^verbatim>\<open>MENUITEMINFO mii = {0};\<close>\<close>

definition mii_zero :: MENUITEMINFO where
  "mii_zero = \<lparr>fMask = 0, fType = 0, fState = 0, wID = 0, hSubMenu = None,
     dwItemData = None, dwTypeData = []\<rparr>"

text \<open>
  A menu object of the window manager: its \<^verbatim>\<open>MENUINFO\<close> style and user data (the
  address of a \<^verbatim>\<open>NativeMenuWin\<close>) and its items in visual order. The items are stored
  as \<^verbatim>\<open>MENUITEMINFO\<close> values whose \<open>fMask\<close> is not used.
\<close>

record MENU =
  dwStyle :: UINT
  dwMenuData :: "nat option"
  menu_items :: "MENUITEMINFO list"

type_synonym MenuStore = "nat \<Rightarrow> MENU option"

text \<open>\<^verbatim>\<open>GetMenuItemCount\<close>: the number of items, \<open>-1\<close> when the handle is not a menu.\<close>

definition GetMenuItemCount :: "MenuStore \<Rightarrow> HMENU \<Rightarrow> int" where
  "GetMenuItemCount ms h =
     (case h of None \<Rightarrow> -1
      | Some a \<Rightarrow> (case ms a of None \<Rightarrow> -1 | Some m \<Rightarrow> int (length (menu_items m))))"

text \<open>
  The item of a menu at a position (\<^verbatim>\<open>MF_BYPOSITION\<close>), when the handle is a menu and the
  position is one of its items.
\<close>

definition item_at :: "MenuStore \<Rightarrow> HMENU \<Rightarrow> int \<Rightarrow> MENUITEMINFO option" where
  "item_at ms h i =
     (case h of None \<Rightarrow> None
      | Some a \<Rightarrow> (case ms a of None \<Rightarrow> None
          | Some m \<Rightarrow> if 0 \<le> i \<and> i < int (length (menu_items m))
                      then Some (menu_items m ! nat i) else None))"

text \<open>
  The members of \<open>src\<close> selected by the mask \<open>msk\<close>, written over \<open>dst\<close>; what
  \<^verbatim>\<open>GetMenuItemInfo\<close>, \<^verbatim>\<open>SetMenuItemInfo\<close> and \<^verbatim>\<open>InsertMenuItem\<close> transfer.
\<close>

definition copy_masked :: "UINT \<Rightarrow> MENUITEMINFO \<Rightarrow> MENUITEMINFO \<Rightarrow> MENUITEMINFO" where
  "copy_masked msk src dst =
     dst\<lparr>fType := (if msk AND MIIM_FTYPE \<noteq> 0 then fType src else fType dst),
         fState := (if msk AND MIIM_STATE \<noteq> 0 then fState src else fState dst),
         wID := (if msk AND MIIM_ID \<noteq> 0 then wID src else wID dst),
         hSubMenu := (if msk AND MIIM_SUBMENU \<noteq> 0 then hSubMenu src else hSubMenu dst),
         dwItemData := (if msk AND MIIM_DATA \<noteq> 0 then dwItemData src else dwItemData dst),
         dwTypeData := (if msk AND MIIM_STRING \<noteq> 0 then dwTypeData src else dwTypeData dst)\<rparr>"

text \<open>
  \<^verbatim>\<open>GetMenuItemInfo(menu, i, MF_BYPOSITION, &mii)\<close>: fills the members \<open>mii\<close> asks for;
  when the call fails \<open>mii\<close> is left as it was.
\<close>

definition GetMenuItemInfo :: "MenuStore \<Rightarrow> HMENU \<Rightarrow> int \<Rightarrow> MENUITEMINFO \<Rightarrow> MENUITEMINFO" where
  "GetMenuItemInfo ms h i mii =
     (case item_at ms h i of None \<Rightarrow> mii | Some it \<Rightarrow> copy_masked (fMask mii) it mii)"

text \<open>\<^verbatim>\<open>SetMenuItemInfo(menu, i, MF_BYPOSITION, &mii)\<close>; no effect when the call fails.\<close>

definition SetMenuItemInfo :: "MenuStore \<Rightarrow> HMENU \<Rightarrow> int \<Rightarrow> MENUITEMINFO \<Rightarrow> MenuStore" where
  "SetMenuItemInfo ms h i mii =
     (case h of None \<Rightarrow> ms
      | Some a \<Rightarrow> (case ms a of None \<Rightarrow> ms
          | Some m \<Rightarrow>
              if 0 \<le> i \<and> i < int (length (menu_items m))
              then ms(a \<mapsto> m\<lparr>menu_items :=
                     (menu_items m)[nat i := copy_masked (fMask mii) mii (menu_items m ! nat i)]\<rparr>)
              else ms))"

text \<open>
  \<^verbatim>\<open>InsertMenuItem(menu, i, TRUE, &mii)\<close>: the new item goes before the item at position
  \<open>i\<close>, and at the end when \<open>i\<close> is not the position of an item (the position is a
  \<open>UINT\<close>, so a negative \<open>i\<close> is past the end too).
\<close>

definition InsertMenuItem :: "MenuStore \<Rightarrow> HMENU \<Rightarrow> int \<Rightarrow> MENUITEMINFO \<Rightarrow> MenuStore" where
  "InsertMenuItem ms h i mii =
     (case h of None \<Rightarrow> ms
      | Some a \<Rightarrow> (case ms a of None \<Rightarrow> ms
          | Some m \<Rightarrow>
              (let new = copy_masked (fMask mii) mii mii_zero;
                   k = (if 0 \<le> i \<and> i < int (length (menu_items m)) then nat i
                        else length (menu_items m))
               in ms(a \<mapsto> m\<lparr>menu_items := take k (menu_items m) @ new # drop k (menu_items m)\<rparr>))))"


subsection \<open>The menu model (\<^verbatim>\<open>ui::MenuModel\<close>), consumed by the bridge\<close>

datatype ItemType = TYPE_COMMAND | TYPE_CHECK | TYPE_RADIO | TYPE_SEPARATOR | TYPE_SUBMENU

text \<open>
  \<^verbatim>\<open>views::Accelerator\<close> is used through \<^verbatim>\<open>GetShortcutText()\<close> only.
\<close>

datatype Accelerator = Accelerator (GetShortcutText: wstring)

text \<open>
  \<^verbatim>\<open>ui::MenuModel\<close> is an abstract class declared outside this file, so a model is the
  collection of its virtual methods, each a total function of the index it is given. The
  bridge never looks inside a model. \<open>GetAcceleratorAt\<close> gives \<open>None\<close> where the C++
  method returns false; \<open>GetSubmenuModelAt\<close> gives \<open>None\<close> where it returns \<open>NULL\<close>.
  \<open>GetFirstItemIndex\<close> receives the native menu and may ask the window manager about it.
\<close>

datatype MenuModel = MenuModel
  (HasIcons: bool)
  (GetFirstItemIndex: "MenuStore \<Rightarrow> HMENU \<Rightarrow> int")
  (GetItemCount: int)
  (GetTypeAt: "int \<Rightarrow> ItemType")
  (GetCommandIdAt: "int \<Rightarrow> int")
  (GetLabelAt: "int \<Rightarrow> wstring")
  (IsItemDynamicAt: "int \<Rightarrow> bool")
  (GetAcceleratorAt: "int \<Rightarrow> Accelerator option")
  (IsItemCheckedAt: "int \<Rightarrow> bool")
  (IsEnabledAt: "int \<Rightarrow> bool")
  (GetSubmenuModelAt: "int \<Rightarrow> MenuModel option")

text \<open>\<^verbatim>\<open>SystemMenuModel::GetFirstItemIndex\<close> (insertions go before the last item, Close).\<close>

definition SystemMenuModel_GetFirstItemIndex :: "MenuStore \<Rightarrow> HMENU \<Rightarrow> int" where
  "SystemMenuModel_GetFirstItemIndex ms native_menu =
     max 0 (GetMenuItemCount ms native_menu - 1)"

text \<open>
  Modelled from the spec: \<^verbatim>\<open>ui::MenuModel::GetFirstItemIndex\<close>, the method of the base
  class, is not in the sources; "ordinary menus have offset 0".
\<close>

definition MenuModel_GetFirstItemIndex :: "MenuStore \<Rightarrow> HMENU \<Rightarrow> int" where
  "MenuModel_GetFirstItemIndex ms native_menu = 0"

subsection \<open>The state outside the controller\<close>

text \<open>
  What the model, the listeners and the window manager are told, in the order of the
  calls: the first component of a model notification is the address of the
  \<^verbatim>\<open>NativeMenuWin\<close> whose \<open>model\<close> receives it.
\<close>

datatype Event =
    ActivatedAt nat int
  | HighlightChangedTo nat int
  | MenuClosed nat
  | OnMenuOpened nat
  | EndMenu
  | TrackPopup HMENU UINT "int \<times> int"

text \<open>\<^verbatim>\<open>NativeMenuWin::MenuHostWindow\<close>: its window and the menu that created it.\<close>

record MenuHostWindow =
  hwnd :: HWND
  parent :: "nat option"

text \<open>
  A task given to \<^verbatim>\<open>MessageLoop::PostTask\<close>: \<^verbatim>\<open>OnMenuClosed\<close> of a host window.
\<close>

datatype Task = Run_OnMenuClosed MenuHostWindow

record WINDOW =
  window_menu :: HMENU

text \<open>
  The window manager and the process: the menu objects by handle, the next unused
  handle and the next unused object address, the windows (with the handle of the
  modifiable copy of their window menu, once one was asked for) and the items of a
  window menu in its default state, the result of
  \<^verbatim>\<open>l10n_util::NeedOverrideDefaultUIFont\<close>, the static member
  \<^verbatim>\<open>NativeMenuWin::open_native_menu_win_\<close>, the tasks posted to the message loop and not
  yet run, and the notifications made so far.
\<close>

record World =
  menus :: MenuStore
  next_handle :: nat
  next_object :: nat
  windows :: "nat \<Rightarrow> WINDOW option"
  default_window_menu :: "MENUITEMINFO list"
  NeedOverrideDefaultUIFont :: bool
  open_native_menu_win :: "nat option"
  posted_tasks :: "Task list"
  trace :: "Event list"

definition notify :: "Event \<Rightarrow> World \<Rightarrow> World" where
  "notify e w = w\<lparr>trace := trace w @ [e]\<rparr>"

text \<open>\<^verbatim>\<open>CreatePopupMenu()\<close>: a new, empty menu under an unused handle.\<close>

definition CreatePopupMenu :: "World \<Rightarrow> HMENU \<times> World" where
  "CreatePopupMenu w =
     (Some (next_handle w),
      w\<lparr>menus := (menus w)(next_handle w \<mapsto> \<lparr>dwStyle = 0, dwMenuData = None, menu_items = []\<rparr>),
        next_handle := next_handle w + 1\<rparr>)"

text \<open>
  \<^verbatim>\<open>DestroyMenu(h)\<close>: the handle stops being a menu. (Windows destroys the submenus of
  the menu as well; their objects are left in the store here, where no handle of the
  rebuilt controller leads to them.)
\<close>

definition DestroyMenu :: "HMENU \<Rightarrow> World \<Rightarrow> World" where
  "DestroyMenu h w = (case h of None \<Rightarrow> w | Some a \<Rightarrow> w\<lparr>menus := (menus w)(a := None)\<rparr>)"

definition IsWindow :: "World \<Rightarrow> HWND \<Rightarrow> bool" where
  "IsWindow w hWnd = (case hWnd of None \<Rightarrow> False | Some a \<Rightarrow> windows w a \<noteq> None)"

text \<open>
  \<^verbatim>\<open>GetSystemMenu(hwnd, bRevert)\<close>. With \<open>bRevert\<close> the window menu goes back to its
  default state, the copy is destroyed and the result is \<open>NULL\<close>. Without it the result
  is the handle of the copy of the window menu, made from the default state when the
  window has none.
\<close>

definition GetSystemMenu :: "HWND \<Rightarrow> bool \<Rightarrow> World \<Rightarrow> HMENU \<times> World" where
  "GetSystemMenu hWnd bRevert w =
     (case hWnd of None \<Rightarrow> (None, w)
      | Some a \<Rightarrow> (case windows w a of None \<Rightarrow> (None, w)
          | Some win \<Rightarrow>
              if bRevert
              then (None, (DestroyMenu (window_menu win) w)
                            \<lparr>windows := (windows w)(a \<mapsto> win\<lparr>window_menu := None\<rparr>)\<rparr>)
              else (case window_menu win of
                      Some h \<Rightarrow> (Some h, w)
                    | None \<Rightarrow>
                        (Some (next_handle w),
                         w\<lparr>menus := (menus w)(next_handle w \<mapsto>
                              \<lparr>dwStyle = 0, dwMenuData = None,
                               menu_items = default_window_menu w\<rparr>),
                           next_handle := next_handle w + 1,
                           windows := (windows w)(a \<mapsto> win\<lparr>window_menu := Some (next_handle w)\<rparr>)\<rparr>))))"

text \<open>\<^verbatim>\<open>SetMenuInfo(h, &mi)\<close> with \<^verbatim>\<open>mi.fMask = MIM_STYLE | MIM_MENUDATA\<close>.\<close>

definition SetMenuInfo :: "HMENU \<Rightarrow> UINT \<Rightarrow> nat option \<Rightarrow> World \<Rightarrow> World" where
  "SetMenuInfo h style data w =
     (case h of None \<Rightarrow> w
      | Some a \<Rightarrow> (case menus w a of None \<Rightarrow> w
          | Some m \<Rightarrow> w\<lparr>menus := (menus w)(a \<mapsto> m\<lparr>dwStyle := style, dwMenuData := data\<rparr>)\<rparr>))"

text \<open>\<^verbatim>\<open>GetMenuInfo(h, &mi)\<close> on \<^verbatim>\<open>mi = {0}\<close>, read at \<open>dwMenuData\<close>: \<open>NULL\<close> when the call fails.\<close>

definition GetMenuInfo_dwMenuData :: "World \<Rightarrow> HMENU \<Rightarrow> nat option" where
  "GetMenuInfo_dwMenuData w h =
     (case h of None \<Rightarrow> None
      | Some a \<Rightarrow> (case menus w a of None \<Rightarrow> None | Some m \<Rightarrow> dwMenuData m))"

subsection \<open>The controller\<close>

datatype error = NullPointer | OutOfRange | ForeignObject

datatype MenuAction = MENU_ACTION_NONE | MENU_ACTION_PREVIOUS | MENU_ACTION_NEXT

text \<open>\<^verbatim>\<open>Menu2::ALIGN_TOPLEFT\<close> and \<^verbatim>\<open>Menu2::ALIGN_TOPRIGHT\<close> (an \<open>int\<close> in \<^verbatim>\<open>RunMenuAt\<close>).\<close>

definition ALIGN_TOPLEFT :: int where "ALIGN_TOPLEFT = 0"
definition ALIGN_TOPRIGHT :: int where "ALIGN_TOPRIGHT = 1"

text \<open>
  The data members of \<^verbatim>\<open>NativeMenuWin\<close> other than \<^verbatim>\<open>items_\<close>, and \<open>this\<close>, the address of
  the object. \<open>listeners\<close> holds the addresses of the listeners.
\<close>

record NativeMenuWin_members =
  this :: nat
  model :: MenuModel
  menu :: HMENU
  owner_draw :: bool
  system_menu_for :: HWND
  first_item_index :: int
  menu_action :: MenuAction
  listeners :: "nat list"
  listeners_called :: bool
  host_window :: "MenuHostWindow option"

text \<open>
  \<^verbatim>\<open>NativeMenuWin\<close> and \<^verbatim>\<open>NativeMenuWin::ItemData\<close>. A submenu is owned by its entry
  (\<^verbatim>\<open>scoped_ptr<Menu2>\<close>), so the controllers of a menu hierarchy form a tree.
  \<^verbatim>\<open>Menu2\<close> (not in the sources) forwards \<^verbatim>\<open>GetNativeMenu\<close>, \<^verbatim>\<open>Rebuild\<close> and
  \<^verbatim>\<open>UpdateStates\<close> to the \<^verbatim>\<open>NativeMenuWin\<close> that \<^verbatim>\<open>MenuWrapper::CreateWrapper\<close> made for
  it, and is identified with that object. \<open>native_menu_win\<close> and \<open>model_index\<close> have
  no initialiser: they are \<open>None\<close> until they are assigned. (In the functions below a
  parameter or local variable \<^verbatim>\<open>model_index\<close> of the source is written \<open>model_idx\<close>, and
  a member such as \<^verbatim>\<open>menu_\<close> is written without its final underscore.)
\<close>

datatype NativeMenuWin = NativeMenuWin (vars: NativeMenuWin_members) (items: "ItemData list")
and ItemData = ItemData
  (label: wstring)
  (submenu: "NativeMenuWin option")
  (native_menu_win: "nat option")
  (model_index: "int option")

text \<open>\<^verbatim>\<open>new ItemData\<close>\<close>

definition new_ItemData :: ItemData where
  "new_ItemData = ItemData [] None None None"

text \<open>\<^verbatim>\<open>new\<close> for a \<^verbatim>\<open>NativeMenuWin\<close>: an unused address.\<close>

definition new_object :: "World \<Rightarrow> nat \<times> World" where
  "new_object w = (next_object w, w\<lparr>next_object := next_object w + 1\<rparr>)"

text \<open>
  The constructor \<^verbatim>\<open>NativeMenuWin(model, system_menu_for)\<close> for the object at address
  \<open>a\<close>. \<open>listeners_called\<close> is not initialised by it; \<^verbatim>\<open>RunMenuAt\<close> assigns it before
  the hook reads it.
\<close>

definition NativeMenuWin_ctor :: "World \<Rightarrow> nat \<Rightarrow> MenuModel \<Rightarrow> HWND \<Rightarrow> NativeMenuWin" where
  "NativeMenuWin_ctor w a m system_menu_for_arg =
     NativeMenuWin
       \<lparr>this = a,
        model = m,
        menu = None,
        owner_draw = (NeedOverrideDefaultUIFont w \<and> system_menu_for_arg = None),
        system_menu_for = system_menu_for_arg,
        first_item_index = 0,
        menu_action = MENU_ACTION_NONE,
        listeners = [],
        listeners_called = False,
        host_window = None\<rparr>
       []"

definition GetNativeMenu :: "NativeMenuWin \<Rightarrow> HMENU" where
  "GetNativeMenu c = menu (vars c)"

definition GetMenuAction :: "NativeMenuWin \<Rightarrow> MenuAction" where
  "GetMenuAction c = menu_action (vars c)"

definition ResetNativeMenu :: "NativeMenuWin \<Rightarrow> World \<Rightarrow> NativeMenuWin \<times> World" where
  "ResetNativeMenu c w =
     (if IsWindow w (system_menu_for (vars c))
      then (let w1 = (if menu (vars c) \<noteq> None
                      then snd (GetSystemMenu (system_menu_for (vars c)) True w) else w);
                (h, w2) = GetSystemMenu (system_menu_for (vars c)) False w1
            in (NativeMenuWin ((vars c)\<lparr>menu := h\<rparr>) (items c), w2))
      else (let w1 = (if menu (vars c) \<noteq> None then DestroyMenu (menu (vars c)) w else w);
                (h, w2) = CreatePopupMenu w1;
                w3 = SetMenuInfo h MNS_NOTIFYBYPOS (Some (this (vars c))) w2
            in (NativeMenuWin ((vars c)\<lparr>menu := h\<rparr>) (items c), w3)))"

text \<open>\<^verbatim>\<open>IsSeparatorItemAt\<close>, on \<^verbatim>\<open>mii = {0}\<close> with \<^verbatim>\<open>fMask = MIIM_FTYPE\<close>.\<close>

definition IsSeparatorItemAt :: "NativeMenuWin \<Rightarrow> World \<Rightarrow> int \<Rightarrow> bool" where
  "IsSeparatorItemAt c w menu_index =
     (let mii = GetMenuItemInfo (menus w) (menu (vars c)) menu_index
                  (mii_zero\<lparr>fMask := MIIM_FTYPE\<rparr>)
      in fType mii AND MF_SEPARATOR \<noteq> 0)"

text \<open>
  \<^verbatim>\<open>items_[model_index]->label = formatted\<close>; the index must be one of the vector's.
\<close>

definition set_label :: "ItemData list \<Rightarrow> int \<Rightarrow> wstring \<Rightarrow> error + ItemData list" where
  "set_label its i s =
     (if 0 \<le> i \<and> i < int (length its)
      then Inr (its[nat i := (case its ! nat i of ItemData l sub nmw mi \<Rightarrow> ItemData s sub nmw mi)])
      else Inl OutOfRange)"

text \<open>
  \<^verbatim>\<open>UpdateMenuItemInfoForString(mii, model_index, label)\<close>: the new state of the
  controller and of \<open>*mii\<close>.
\<close>

definition UpdateMenuItemInfoForString ::
  "NativeMenuWin \<Rightarrow> MENUITEMINFO \<Rightarrow> int \<Rightarrow> wstring \<Rightarrow> error + NativeMenuWin \<times> MENUITEMINFO" where
  "UpdateMenuItemInfoForString c mii model_idx lbl =
     (let type = GetTypeAt (model (vars c)) model_idx;
          formatted =
            (if type \<noteq> TYPE_SUBMENU
             then (case GetAcceleratorAt (model (vars c)) model_idx of
                     Some accelerator \<Rightarrow> lbl @ [CHR 0x09] @ GetShortcutText accelerator
                   | None \<Rightarrow> lbl)
             else lbl)
      in case set_label (items c) model_idx formatted of
           Inl e \<Rightarrow> Inl e
         | Inr its \<Rightarrow>
             Inr (NativeMenuWin (vars c) its,
                  mii\<lparr>fMask := fMask mii OR MIIM_STRING,
                      dwTypeData := label (its ! nat model_idx)\<rparr>))"

text \<open>\<^verbatim>\<open>SetMenuItemState(menu_index, enabled, checked, is_default)\<close>\<close>

definition SetMenuItemState :: "NativeMenuWin \<Rightarrow> World \<Rightarrow> int \<Rightarrow> bool \<Rightarrow> bool \<Rightarrow> bool \<Rightarrow> World" where
  "SetMenuItemState c w menu_index enabled checked is_default =
     (if IsSeparatorItemAt c w menu_index then w
      else
        (let state0 = (if enabled then MFS_ENABLED else MFS_DISABLED);
             state1 = (if checked then state0 OR MFS_CHECKED else state0);
             state = (if is_default then state1 OR MFS_DEFAULT else state1);
             mii = mii_zero\<lparr>fMask := MIIM_STATE, fState := state\<rparr>
         in w\<lparr>menus := SetMenuItemInfo (menus w) (menu (vars c)) menu_index mii\<rparr>))"

text \<open>\<^verbatim>\<open>SetMenuItemLabel(menu_index, model_index, label)\<close>\<close>

definition SetMenuItemLabel ::
  "NativeMenuWin \<Rightarrow> World \<Rightarrow> int \<Rightarrow> int \<Rightarrow> wstring \<Rightarrow> error + NativeMenuWin \<times> World" where
  "SetMenuItemLabel c w menu_index model_idx lbl =
     (if IsSeparatorItemAt c w menu_index then Inr (c, w)
      else
        (case UpdateMenuItemInfoForString c mii_zero model_idx lbl of
           Inl e \<Rightarrow> Inl e
         | Inr (c', mii) \<Rightarrow>
             Inr (c', w\<lparr>menus := SetMenuItemInfo (menus w) (menu (vars c')) menu_index mii\<rparr>)))"


subsection \<open>Building the menu\<close>

text \<open>
  \<^verbatim>\<open>items_.insert(items_.begin() + i, x)\<close>; the position must be one of the vector's or
  its end.
\<close>

definition vector_insert :: "'a list \<Rightarrow> int \<Rightarrow> 'a \<Rightarrow> error + 'a list" where
  "vector_insert xs i x =
     (if 0 \<le> i \<and> i \<le> int (length xs)
      then Inr (take (nat i) xs @ x # drop (nat i) xs)
      else Inl OutOfRange)"

text \<open>\<^verbatim>\<open>AddSeparatorItemAt(menu_index, model_index)\<close>\<close>

definition AddSeparatorItemAt ::
  "NativeMenuWin \<Rightarrow> World \<Rightarrow> int \<Rightarrow> int \<Rightarrow> error + NativeMenuWin \<times> World" where
  "AddSeparatorItemAt c w menu_index model_idx =
     (let mii = mii_zero\<lparr>fMask := MIIM_FTYPE, fType := MFT_SEPARATOR\<rparr>
      in case vector_insert (items c) model_idx new_ItemData of
           Inl e \<Rightarrow> Inl e
         | Inr its \<Rightarrow>
             Inr (NativeMenuWin (vars c) its,
                  w\<lparr>menus := InsertMenuItem (menus w) (menu (vars c)) menu_index mii\<rparr>))"

text \<open>
  \<^verbatim>\<open>AddMenuItemAt(menu_index, model_index)\<close>. The call
  \<^verbatim>\<open>new Menu2(model_->GetSubmenuModelAt(model_index))\<close> is the parameter \<open>new_Menu2_at\<close>
  applied to the index: \<open>None\<close> when the model has no submenu model there (the
  constructor would then use a \<open>NULL\<close> model), and otherwise the construction, which
  allocates in the world and may fail.
\<close>

definition AddMenuItemAt ::
  "(int \<Rightarrow> (World \<Rightarrow> error + NativeMenuWin \<times> World) option) \<Rightarrow>
   NativeMenuWin \<Rightarrow> World \<Rightarrow> int \<Rightarrow> int \<Rightarrow> error + NativeMenuWin \<times> World" where
  "AddMenuItemAt new_Menu2_at c w menu_index model_idx =
     (let mii0 = mii_zero\<lparr>fMask := MIIM_FTYPE OR MIIM_ID OR MIIM_DATA,
                           fType := (if \<not> owner_draw (vars c) then MFT_STRING else MFT_OWNERDRAW)\<rparr>;
          type = GetTypeAt (model (vars c)) model_idx
      in case (if type = TYPE_SUBMENU
               then (case new_Menu2_at model_idx of
                       None \<Rightarrow> Inl NullPointer
                     | Some construct \<Rightarrow>
                         (case construct w of
                            Inl e \<Rightarrow> Inl e
                          | Inr (m2, w1) \<Rightarrow>
                              Inr (Some m2,
                                   mii0\<lparr>fMask := fMask mii0 OR MIIM_SUBMENU,
                                        hSubMenu := GetNativeMenu m2\<rparr>,
                                   w1)))
               else Inr (None,
                         mii0\<lparr>fType := (if type = TYPE_RADIO then fType mii0 OR MFT_RADIOCHECK
                                         else fType mii0),
                              wID := word_of_int (GetCommandIdAt (model (vars c)) model_idx)\<rparr>,
                         w))
         of
           Inl e \<Rightarrow> Inl e
         | Inr (sub, mii1, w1) \<Rightarrow>
             (let item_data = ItemData [] sub (Some (this (vars c))) (Some model_idx)
              in case vector_insert (items c) model_idx item_data of
                   Inl e \<Rightarrow> Inl e
                 | Inr its \<Rightarrow>
                     (case UpdateMenuItemInfoForString (NativeMenuWin (vars c) its)
                             (mii1\<lparr>dwItemData := Some (this (vars c), model_idx)\<rparr>)
                             model_idx (GetLabelAt (model (vars c)) model_idx) of
                        Inl e \<Rightarrow> Inl e
                      | Inr (c', mii2) \<Rightarrow>
                          Inr (c', w1\<lparr>menus := InsertMenuItem (menus w1) (menu (vars c'))
                                                   menu_index mii2\<rparr>))))"

lemma UpdateMenuItemInfoForString_vars:
  "UpdateMenuItemInfoForString c mii i s = Inr (c', mii') \<Longrightarrow> vars c' = vars c"
  by (auto simp: UpdateMenuItemInfoForString_def Let_def split: sum.splits)

lemma AddSeparatorItemAt_vars:
  "AddSeparatorItemAt c w i j = Inr (c', w') \<Longrightarrow> vars c' = vars c"
  by (auto simp: AddSeparatorItemAt_def Let_def split: sum.splits)

lemma AddMenuItemAt_vars:
  "AddMenuItemAt mk c w i j = Inr (c', w') \<Longrightarrow> vars c' = vars c"
  by (auto simp: AddMenuItemAt_def Let_def split: sum.splits if_splits option.splits
           dest!: UpdateMenuItemInfoForString_vars)

text \<open>
  The loop of \<^verbatim>\<open>Rebuild\<close>, from \<open>menu_index\<close> on: the bound
  \<^verbatim>\<open>first_item_index_ + model_->GetItemCount()\<close> is read again at every turn.
\<close>

function Rebuild_loop ::
  "(int \<Rightarrow> (World \<Rightarrow> error + NativeMenuWin \<times> World) option) \<Rightarrow>
   NativeMenuWin \<Rightarrow> World \<Rightarrow> int \<Rightarrow> error + NativeMenuWin \<times> World" where
  "Rebuild_loop new_Menu2_at c w menu_index =
     (if menu_index < first_item_index (vars c) + GetItemCount (model (vars c))
      then (let model_idx = menu_index - first_item_index (vars c)
            in case (if GetTypeAt (model (vars c)) model_idx = TYPE_SEPARATOR
                     then AddSeparatorItemAt c w menu_index model_idx
                     else AddMenuItemAt new_Menu2_at c w menu_index model_idx) of
                 Inl e \<Rightarrow> Inl e
               | Inr (c', w') \<Rightarrow> Rebuild_loop new_Menu2_at c' w' (menu_index + 1))
      else Inr (c, w))"
  by pat_completeness auto
termination
proof (relation "measure (\<lambda>(mk, c, w, menu_index).
          nat (first_item_index (vars c) + GetItemCount (model (vars c)) - menu_index))")
  show "wf (measure (\<lambda>(mk, c, w, menu_index).
          nat (first_item_index (vars c) + GetItemCount (model (vars c)) - menu_index)))"
    by simp
next
  fix new_Menu2_at c w menu_index model_idx x2 c' w'
  assume lt: "menu_index < first_item_index (vars c) + GetItemCount (model (vars c))"
    and "model_idx = menu_index - first_item_index (vars c)"
    and r: "(if GetTypeAt (model (vars c)) model_idx = TYPE_SEPARATOR
             then AddSeparatorItemAt c w menu_index model_idx
             else AddMenuItemAt new_Menu2_at c w menu_index model_idx) = Inr x2"
    and x2: "(c', w') = x2"
  from r x2 have "vars c' = vars c"
    by (auto split: if_splits dest: AddSeparatorItemAt_vars AddMenuItemAt_vars)
  with lt show "((new_Menu2_at, c', w', menu_index + 1), (new_Menu2_at, c, w, menu_index))
      \<in> measure (\<lambda>(mk, c, w, menu_index).
          nat (first_item_index (vars c) + GetItemCount (model (vars c)) - menu_index))"
    by simp
qed

declare Rebuild_loop.simps [simp del]

text \<open>
  \<^verbatim>\<open>Rebuild()\<close>, with the construction of the submenus as a parameter (see
  \<open>AddMenuItemAt\<close>).
\<close>

definition Rebuild_with ::
  "(int \<Rightarrow> (World \<Rightarrow> error + NativeMenuWin \<times> World) option) \<Rightarrow>
   NativeMenuWin \<Rightarrow> World \<Rightarrow> error + NativeMenuWin \<times> World" where
  "Rebuild_with new_Menu2_at c w =
     (let (c1, w1) = ResetNativeMenu c w;
          c2 = NativeMenuWin (vars c1) [];
          c3 = NativeMenuWin ((vars c2)\<lparr>owner_draw :=
                   (HasIcons (model (vars c2)) \<or> owner_draw (vars c2))\<rparr>) (items c2);
          c4 = NativeMenuWin ((vars c3)\<lparr>first_item_index :=
                   GetFirstItemIndex (model (vars c3)) (menus w1) (GetNativeMenu c3)\<rparr>) (items c3)
      in Rebuild_loop new_Menu2_at c4 w1 (first_item_index (vars c4)))"

text \<open>
  Modelled from the spec: the constructor of \<^verbatim>\<open>Menu2\<close> (\<^verbatim>\<open>menu_2.cc\<close> is not in the
  sources). "Submenu items own a freshly constructed child controller whose model is
  the submenu's model", built recursively: the constructor makes its wrapper with
  \<^verbatim>\<open>MenuWrapper::CreateWrapper\<close>, which is \<^verbatim>\<open>new NativeMenuWin(menu->model(), NULL)\<close>,
  and rebuilds it. The recursion is on the model.
\<close>

primrec new_Menu2 :: "MenuModel \<Rightarrow> World \<Rightarrow> error + NativeMenuWin \<times> World" where
  "new_Menu2 (MenuModel icons first n types ids labels dynamic accels checked enabled subs) =
     (\<lambda>w. let m = MenuModel icons first n types ids labels dynamic accels checked enabled subs;
               (a, w1) = new_object w
           in Rebuild_with (\<lambda>i. map_option new_Menu2 (subs i))
                (NativeMenuWin_ctor w1 a m None) w1)"

text \<open>\<^verbatim>\<open>NativeMenuWin::Rebuild()\<close>\<close>

definition Rebuild :: "NativeMenuWin \<Rightarrow> World \<Rightarrow> error + NativeMenuWin \<times> World" where
  "Rebuild c w =
     Rebuild_with (\<lambda>i. map_option new_Menu2 (GetSubmenuModelAt (model (vars c)) i)) c w"


subsection \<open>Updating the states\<close>

text \<open>The submenu of the entry at \<open>model_idx\<close>, after it has updated itself.\<close>

definition set_submenu :: "NativeMenuWin \<Rightarrow> int \<Rightarrow> NativeMenuWin \<Rightarrow> NativeMenuWin" where
  "set_submenu c model_idx sub =
     (if 0 \<le> model_idx \<and> model_idx < int (length (items c))
      then NativeMenuWin (vars c)
             ((items c)[nat model_idx :=
                (case items c ! nat model_idx of ItemData l s nmw mi \<Rightarrow> ItemData l (Some sub) nmw mi)])
      else c)"

text \<open>
  \<^verbatim>\<open>UpdateStates()\<close>: a depth-first walk. \<open>UpdateStates_from c rest model_idx\<close> is the
  loop when the iterator \<^verbatim>\<open>it\<close> has the entries \<open>rest\<close> of \<^verbatim>\<open>items_\<close> still to visit.
  \<^verbatim>\<open>Menu2::UpdateStates\<close> (modelled from the spec: "recurses into owned submenu
  controllers") is \<^verbatim>\<open>UpdateStates\<close> of the submenu's \<^verbatim>\<open>NativeMenuWin\<close>; the submenu is
  an object of its own, changed in place, so its new state is stored back in the entry.
\<close>

fun UpdateStates :: "NativeMenuWin \<Rightarrow> World \<Rightarrow> error + NativeMenuWin \<times> World"
and UpdateStates_from ::
  "NativeMenuWin \<Rightarrow> ItemData list \<Rightarrow> int \<Rightarrow> World \<Rightarrow> error + NativeMenuWin \<times> World" where
  "UpdateStates (NativeMenuWin v its) w = UpdateStates_from (NativeMenuWin v its) its 0 w"
| "UpdateStates_from c [] model_idx w = Inr (c, w)"
| "UpdateStates_from c (ItemData l sub nmw mi # rest) model_idx w =
     (let menu_index = model_idx + first_item_index (vars c);
          w1 = SetMenuItemState c w menu_index (IsEnabledAt (model (vars c)) model_idx)
                 (IsItemCheckedAt (model (vars c)) model_idx) False
      in case (if IsItemDynamicAt (model (vars c)) model_idx
               then SetMenuItemLabel c w1 menu_index model_idx
                      (GetLabelAt (model (vars c)) model_idx)
               else Inr (c, w1)) of
           Inl e \<Rightarrow> Inl e
         | Inr (c2, w2) \<Rightarrow>
             (case sub of
                None \<Rightarrow> UpdateStates_from c2 rest (model_idx + 1) w2
              | Some sm \<Rightarrow>
                  (case UpdateStates sm w2 of
                     Inl e \<Rightarrow> Inl e
                   | Inr (sm', w3) \<Rightarrow>
                       UpdateStates_from (set_submenu c2 model_idx sm') rest (model_idx + 1) w3)))"

subsection \<open>The host window and the message loop\<close>

type_synonym WPARAM = "32 word"

text \<open>
  \<^verbatim>\<open>GetMenuItemIndexFromWPARAM(menu, w_param)\<close>, its loop from \<open>i\<close> on. \<^verbatim>\<open>WPARAM\<close> is
  \<^verbatim>\<open>UINT_PTR\<close>, as wide as \<^verbatim>\<open>UINT\<close> in the 32-bit build; the result is the \<open>int\<close> with
  the bits of \<open>w_param\<close>.
\<close>

function GetMenuItemIndexFromWPARAM_loop :: "MenuStore \<Rightarrow> HMENU \<Rightarrow> WPARAM \<Rightarrow> int \<Rightarrow> int \<Rightarrow> int" where
  "GetMenuItemIndexFromWPARAM_loop ms hmenu w_param count i =
     (if i < count
      then (let mii = GetMenuItemInfo ms hmenu i (mii_zero\<lparr>fMask := MIIM_ID\<rparr>)
            in if wID mii = w_param then i
               else GetMenuItemIndexFromWPARAM_loop ms hmenu w_param count (i + 1))
      else sint w_param)"
  by pat_completeness auto
termination
  by (relation "measure (\<lambda>(ms, hmenu, w_param, count, i). nat (count - i))") auto

declare GetMenuItemIndexFromWPARAM_loop.simps [simp del]

definition GetMenuItemIndexFromWPARAM :: "MenuStore \<Rightarrow> HMENU \<Rightarrow> WPARAM \<Rightarrow> int" where
  "GetMenuItemIndexFromWPARAM ms hmenu w_param =
     (let count = GetMenuItemCount ms hmenu
      in GetMenuItemIndexFromWPARAM_loop ms hmenu w_param count 0)"

text \<open>
  The messages \<^verbatim>\<open>ProcessWindowMessage\<close> tells apart, with the parameters it reads: the
  \<open>l_param\<close> of \<^verbatim>\<open>WM_MENUCOMMAND\<close> and \<^verbatim>\<open>WM_MENUSELECT\<close> is a menu handle. The structures
  of the owner-draw messages are not represented: measuring and painting change nothing
  of the state modelled here.
\<close>

datatype Message =
    WM_MENUCOMMAND WPARAM HMENU
  | WM_MENUSELECT WPARAM HMENU
  | WM_MEASUREITEM
  | WM_DRAWITEM
  | WM_EXITMENULOOP
  | WM_other UINT

text \<open>\<^verbatim>\<open>OnMenuCommand(position, menu)\<close>: \<^verbatim>\<open>GetNativeMenuWinFromHMENU(menu)\<close> is dereferenced.\<close>

definition OnMenuCommand :: "int \<Rightarrow> HMENU \<Rightarrow> World \<Rightarrow> error + World" where
  "OnMenuCommand position hmenu w =
     (case GetMenuInfo_dwMenuData w hmenu of
        None \<Rightarrow> Inl NullPointer
      | Some intergoat \<Rightarrow> Inr (notify (ActivatedAt intergoat position) w))"

text \<open>\<^verbatim>\<open>OnMenuSelect(w_param, menu)\<close>\<close>

definition OnMenuSelect :: "WPARAM \<Rightarrow> HMENU \<Rightarrow> World \<Rightarrow> error + World" where
  "OnMenuSelect w_param hmenu w =
     (if hmenu = None then Inr w
      else
        (let position = GetMenuItemIndexFromWPARAM (menus w) hmenu w_param
         in if position \<ge> 0
            then (case GetMenuInfo_dwMenuData w hmenu of
                    None \<Rightarrow> Inl NullPointer
                  | Some a \<Rightarrow> Inr (notify (HighlightChangedTo a position) w))
            else Inr w))"

text \<open>\<^verbatim>\<open>MenuHostWindow::OnMenuClosed()\<close>\<close>

definition OnMenuClosed :: "MenuHostWindow \<Rightarrow> World \<Rightarrow> error + World" where
  "OnMenuClosed host w =
     (case parent host of
        None \<Rightarrow> Inl NullPointer
      | Some p \<Rightarrow> Inr (notify (MenuClosed p) w))"

text \<open>
  Modelled from the spec: \<^verbatim>\<open>MessageLoop::PostTask\<close> (\<^verbatim>\<open>base/message_loop.h\<close> is not in
  the sources) "schedules a follow-up task rather than notifying inline": the task goes
  to the end of the queue of the loop, and nothing of it runs in the call.
\<close>

definition PostTask :: "Task \<Rightarrow> World \<Rightarrow> World" where
  "PostTask t w = w\<lparr>posted_tasks := posted_tasks w @ [t]\<rparr>"

text \<open>\<^verbatim>\<open>LOWORD(w_param)\<close>\<close>

definition LOWORD :: "WPARAM \<Rightarrow> WPARAM" where
  "LOWORD w_param = w_param AND 0xFFFF"

text \<open>
  \<^verbatim>\<open>ProcessWindowMessage\<close>: the new world, and \<open>Some l_result\<close> where the C++ returns
  true, \<open>None\<close> where it returns false. \<open>l_result\<close> is \<open>0\<close> when the caller,
  \<^verbatim>\<open>MenuHostWindowProc\<close>, passes it.
\<close>

definition ProcessWindowMessage ::
  "MenuHostWindow \<Rightarrow> Message \<Rightarrow> World \<Rightarrow> error + World \<times> int option" where
  "ProcessWindowMessage host msg w =
     (case msg of
        WM_MENUCOMMAND w_param l_param \<Rightarrow>
          (case OnMenuCommand (sint w_param) l_param w of
             Inl e \<Rightarrow> Inl e | Inr w' \<Rightarrow> Inr (w', Some 0))
      | WM_MENUSELECT w_param l_param \<Rightarrow>
          (case OnMenuSelect (LOWORD w_param) l_param w of
             Inl e \<Rightarrow> Inl e | Inr w' \<Rightarrow> Inr (w', Some 0))
      | WM_MEASUREITEM \<Rightarrow> Inr (w, Some 0)
      | WM_DRAWITEM \<Rightarrow> Inr (w, Some 0)
      | WM_EXITMENULOOP \<Rightarrow> Inr (PostTask (Run_OnMenuClosed host) w, Some 0)
      | WM_other m \<Rightarrow> Inr (w, None))"

text \<open>
  \<^verbatim>\<open>MenuHostWindowProc\<close>, for the host that \<^verbatim>\<open>GetWindowUserData(window)\<close> gives
  (\<open>None\<close> during the construction of the window). \<^verbatim>\<open>DefWindowProc\<close> changes nothing
  here.
\<close>

definition MenuHostWindowProc :: "MenuHostWindow option \<Rightarrow> Message \<Rightarrow> World \<Rightarrow> error + World" where
  "MenuHostWindowProc host msg w =
     (case host of
        None \<Rightarrow> Inr w
      | Some h \<Rightarrow> (case ProcessWindowMessage h msg w of
                     Inl e \<Rightarrow> Inl e
                   | Inr (w', l_result) \<Rightarrow> Inr w'))"

text \<open>Running one posted task, and all of them in the order they were posted.\<close>

definition run_task :: "Task \<Rightarrow> World \<Rightarrow> error + World" where
  "run_task t w = (case t of Run_OnMenuClosed host \<Rightarrow> OnMenuClosed host w)"

fun run_tasks :: "Task list \<Rightarrow> World \<Rightarrow> error + World" where
  "run_tasks [] w = Inr w"
| "run_tasks (t # ts) w = (case run_task t w of Inl e \<Rightarrow> Inl e | Inr w' \<Rightarrow> run_tasks ts w')"

text \<open>
  Modelled from the spec: the message loop runs the follow-up tasks once the call stack
  that posted them has returned to it.
\<close>

definition RunPendingTasks :: "World \<Rightarrow> error + World" where
  "RunPendingTasks w = run_tasks (posted_tasks w) (w\<lparr>posted_tasks := []\<rparr>)"

text \<open>
  Messages that the window manager sends to the window procedure one after the other
  in the same call stack: no posted task runs between them.
\<close>

fun deliver :: "MenuHostWindow option \<Rightarrow> Message list \<Rightarrow> World \<Rightarrow> error + World" where
  "deliver host [] w = Inr w"
| "deliver host (msg # msgs) w =
     (case MenuHostWindowProc host msg w of Inl e \<Rightarrow> Inl e | Inr w' \<Rightarrow> deliver host msgs w')"


subsection \<open>Running the menu\<close>

text \<open>
  What \<^verbatim>\<open>GetMenuItemCount\<close>, \<^verbatim>\<open>GetMenuState\<close> and \<^verbatim>\<open>GetSubMenu\<close> show of a menu while the
  modal loop runs: for each position the state flags and the submenu. The window
  manager sets and clears \<^verbatim>\<open>MF_HILITE\<close> as the user moves, so every call of the hook
  comes with the view of that moment. \<open>None\<close> is a handle that is no menu (its item
  count is \<open>-1\<close>).
\<close>

datatype MenuView = MenuView "(UINT \<times> MenuView option) list"

text \<open>
  \<^verbatim>\<open>GetHighlightedMenuItemInfo(menu, &has_parent, &has_submenu)\<close>: the result and the
  new values of \<open>*has_parent\<close> and \<open>*has_submenu\<close>. The second function is the loop over
  the positions still to look at.
\<close>

fun GetHighlightedMenuItemInfo :: "MenuView option \<Rightarrow> bool \<times> bool \<Rightarrow> bool \<times> bool \<times> bool"
and GetHighlightedMenuItemInfo_loop ::
  "(UINT \<times> MenuView option) list \<Rightarrow> bool \<times> bool \<Rightarrow> bool \<times> bool \<times> bool" where
  "GetHighlightedMenuItemInfo None out = (False, out)"
| "GetHighlightedMenuItemInfo (Some (MenuView its)) out = GetHighlightedMenuItemInfo_loop its out"
| "GetHighlightedMenuItemInfo_loop [] out = (False, out)"
| "GetHighlightedMenuItemInfo_loop ((state, sub) # rest) out =
     (if state AND MF_HILITE \<noteq> 0
      then (if state AND MF_POPUP \<noteq> 0
            then (case GetHighlightedMenuItemInfo sub out of
                    (found, has_parent, has_submenu) \<Rightarrow>
                      if found then (True, True, has_submenu)
                      else (True, has_parent, True))
            else (True, out))
      else GetHighlightedMenuItemInfo_loop rest out)"

text \<open>The \<^verbatim>\<open>MSG\<close> that \<open>l_param\<close> of the hook points to, at the members the hook reads.\<close>

record MSG =
  message :: UINT
  wParam :: WPARAM

text \<open>
  \<^verbatim>\<open>MenuMessageHook\<close>, called while \<open>c\<close> runs its menu, with the view of
  \<^verbatim>\<open>this_ptr->menu_\<close>. \<open>this_ptr\<close> is the static \<^verbatim>\<open>open_native_menu_win_\<close>; the controllers
  are values here, so the hook can be followed only when that pointer is the address of
  \<open>c\<close> (another address is the result \<open>ForeignObject\<close>).
\<close>

definition MenuMessageHook ::
  "NativeMenuWin \<Rightarrow> World \<Rightarrow> MSG \<Rightarrow> MenuView option \<Rightarrow> error + NativeMenuWin \<times> World" where
  "MenuMessageHook c w msg view =
     (case open_native_menu_win w of
        None \<Rightarrow> Inl NullPointer
      | Some this_ptr \<Rightarrow>
          if this_ptr \<noteq> this (vars c) then Inl ForeignObject
          else
            (let (c1, w1) =
                   (if \<not> listeners_called (vars c)
                    then (NativeMenuWin ((vars c)\<lparr>listeners_called := True\<rparr>) (items c),
                          fold (\<lambda>l. notify (OnMenuOpened l)) (listeners (vars c)) w)
                    else (c, w))
             in if message msg = WM_KEYDOWN
                then (case GetHighlightedMenuItemInfo view (False, False) of
                        (found, has_parent, has_submenu) \<Rightarrow>
                          if wParam msg = VK_LEFT \<and> \<not> has_parent
                          then Inr (NativeMenuWin ((vars c1)\<lparr>menu_action := MENU_ACTION_PREVIOUS\<rparr>)
                                      (items c1),
                                    notify EndMenu w1)
                          else if wParam msg = VK_RIGHT \<and> \<not> has_parent \<and> \<not> has_submenu
                          then Inr (NativeMenuWin ((vars c1)\<lparr>menu_action := MENU_ACTION_NEXT\<rparr>)
                                      (items c1),
                                    notify EndMenu w1)
                          else Inr (c1, w1))
                else Inr (c1, w1)))"

text \<open>
  \<^verbatim>\<open>CreateHostWindow()\<close>; the constructor of the host window creates a message-only
  window, under an unused handle.
\<close>

definition CreateHostWindow :: "NativeMenuWin \<Rightarrow> World \<Rightarrow> NativeMenuWin \<times> World" where
  "CreateHostWindow c w =
     (if host_window (vars c) = None
      then (NativeMenuWin
              ((vars c)\<lparr>host_window :=
                 Some \<lparr>hwnd = Some (next_handle w), parent = Some (this (vars c))\<rparr>\<rparr>)
              (items c),
            w\<lparr>windows := (windows w)(next_handle w \<mapsto> \<lparr>window_menu = None\<rparr>),
              next_handle := next_handle w + 1\<rparr>)
      else (c, w))"

definition GetAlignmentFlags :: "int \<Rightarrow> UINT" where
  "GetAlignmentFlags alignment =
     (let alignment_flags = TPM_TOPALIGN
      in if alignment = ALIGN_TOPLEFT then alignment_flags OR TPM_LEFTALIGN
         else if alignment = ALIGN_TOPRIGHT then alignment_flags OR TPM_RIGHTALIGN
         else alignment_flags)"

text \<open>
  What the window manager does inside \<^verbatim>\<open>TrackPopupMenuEx\<close> until the call returns: it
  calls the message hook, and sends messages to the host window.
\<close>

datatype LoopEvent = Hook MSG "MenuView option" | Window Message

fun modal_loop :: "NativeMenuWin \<Rightarrow> World \<Rightarrow> LoopEvent list \<Rightarrow> error + NativeMenuWin \<times> World" where
  "modal_loop c w [] = Inr (c, w)"
| "modal_loop c w (Hook msg view # evs) =
     (case MenuMessageHook c w msg view of
        Inl e \<Rightarrow> Inl e
      | Inr (c', w') \<Rightarrow> modal_loop c' w' evs)"
| "modal_loop c w (Window m # evs) =
     (case MenuHostWindowProc (host_window (vars c)) m w of
        Inl e \<Rightarrow> Inl e
      | Inr w' \<Rightarrow> modal_loop c w' evs)"

text \<open>
  \<^verbatim>\<open>TrackPopupMenuEx(menu_, flags, x, y, hwnd, NULL)\<close>, a blocking call: \<open>evs\<close> is what
  the window manager delivers before it returns.
\<close>

definition TrackPopupMenuEx ::
  "NativeMenuWin \<Rightarrow> World \<Rightarrow> UINT \<Rightarrow> int \<times> int \<Rightarrow> LoopEvent list \<Rightarrow> error + NativeMenuWin \<times> World" where
  "TrackPopupMenuEx c w flags point evs =
     modal_loop c (notify (TrackPopup (menu (vars c)) flags point) w) evs"

text \<open>\<^verbatim>\<open>RunMenuAt\<close> up to the call of \<^verbatim>\<open>TrackPopupMenuEx\<close>.\<close>

definition RunMenuAt_enter :: "NativeMenuWin \<Rightarrow> World \<Rightarrow> error + NativeMenuWin \<times> World" where
  "RunMenuAt_enter c w =
     (let (c1, w1) = CreateHostWindow c w
      in case UpdateStates c1 w1 of
           Inl e \<Rightarrow> Inl e
         | Inr (c2, w2) \<Rightarrow>
             (let c3 = NativeMenuWin ((vars c2)\<lparr>menu_action := MENU_ACTION_NONE\<rparr>) (items c2);
                  w3 = w2\<lparr>open_native_menu_win := Some (this (vars c3))\<rparr>;
                  c4 = NativeMenuWin ((vars c3)\<lparr>listeners_called := False\<rparr>) (items c3)
              in Inr (c4, w3)))"

text \<open>\<^verbatim>\<open>RunMenuAt\<close> after \<^verbatim>\<open>TrackPopupMenuEx\<close> has returned.\<close>

definition RunMenuAt_leave :: "NativeMenuWin \<Rightarrow> World \<Rightarrow> NativeMenuWin \<times> World" where
  "RunMenuAt_leave c w = (c, w\<lparr>open_native_menu_win := None\<rparr>)"

text \<open>\<^verbatim>\<open>RunMenuAt(point, alignment)\<close>\<close>

definition RunMenuAt ::
  "NativeMenuWin \<Rightarrow> World \<Rightarrow> int \<times> int \<Rightarrow> int \<Rightarrow> LoopEvent list \<Rightarrow> error + NativeMenuWin \<times> World" where
  "RunMenuAt c w point alignment evs =
     (case RunMenuAt_enter c w of
        Inl e \<Rightarrow> Inl e
      | Inr (c4, w3) \<Rightarrow>
          (let flags = TPM_LEFTBUTTON OR TPM_RECURSE OR GetAlignmentFlags alignment
           in case TrackPopupMenuEx c4 w3 flags point evs of
                Inl e \<Rightarrow> Inl e
              | Inr (c5, w5) \<Rightarrow> Inr (RunMenuAt_leave c5 w5)))"

subsection \<open>Definitions that the properties are stated with\<close>

text \<open>
  The label that C10 describes, in its words: for an item that is not a submenu and
  for which the model provides an accelerator, the label followed by a tab character
  and the shortcut text of the accelerator; the label itself for a submenu item (and
  for an item without accelerator).
\<close>

definition label_with_accelerator :: "MenuModel \<Rightarrow> int \<Rightarrow> wstring \<Rightarrow> wstring" where
  "label_with_accelerator m i lbl =
     (if GetTypeAt m i = TYPE_SUBMENU then lbl
      else (case GetAcceleratorAt m i of
              None \<Rightarrow> lbl
            | Some a \<Rightarrow> lbl @ [CHR 0x09] @ GetShortcutText a))"

text \<open>\<^verbatim>\<open>SetMenuItemLabel\<close> called several times, one call after the other.\<close>

fun SetMenuItemLabels ::
  "NativeMenuWin \<Rightarrow> World \<Rightarrow> (int \<times> int \<times> wstring) list \<Rightarrow> error + NativeMenuWin \<times> World" where
  "SetMenuItemLabels c w [] = Inr (c, w)"
| "SetMenuItemLabels c w ((menu_index, model_idx, lbl) # calls) =
     (case SetMenuItemLabel c w menu_index model_idx lbl of
        Inl e \<Rightarrow> Inl e
      | Inr (c', w') \<Rightarrow> SetMenuItemLabels c' w' calls)"

text \<open>Running one operation after another when the first has returned.\<close>

definition and_then :: "error + 'a \<Rightarrow> ('a \<Rightarrow> error + 'b) \<Rightarrow> error + 'b" where
  "and_then r f = (case r of Inl e \<Rightarrow> Inl e | Inr x \<Rightarrow> f x)"

text \<open>\<^verbatim>\<open>SetMenuItemLabel\<close> on a controller and a world given as a pair.\<close>

definition relabel_item ::
  "int \<Rightarrow> int \<Rightarrow> wstring \<Rightarrow> NativeMenuWin \<times> World \<Rightarrow> error + NativeMenuWin \<times> World" where
  "relabel_item menu_index model_idx lbl cw = SetMenuItemLabel (fst cw) (snd cw) menu_index model_idx lbl"

text \<open>
  The identifier (\<open>wID\<close>) that the building code gives the item of the model index \<open>i\<close>:
  \<open>AddMenuItemAt\<close> assigns the command id to an item that is not a submenu, and leaves
  the 0 of \<^verbatim>\<open>mii = {0}\<close> for a submenu; \<open>AddSeparatorItemAt\<close> sets no identifier.
\<close>

definition item_identifier :: "MenuModel \<Rightarrow> int \<Rightarrow> UINT" where
  "item_identifier m i =
     (if GetTypeAt m i = TYPE_SEPARATOR \<or> GetTypeAt m i = TYPE_SUBMENU then 0
      else word_of_int (GetCommandIdAt m i))"


text \<open>
  What the window manager holds for the item of the model index \<open>i\<close> when it has been
  built: the identifier above, the separator type for a separator and for nothing else,
  and the text of C10 (none for a separator).
\<close>

definition built_item_ok :: "MenuModel \<Rightarrow> int \<Rightarrow> MENUITEMINFO \<Rightarrow> bool" where
  "built_item_ok m i it =
     (wID it = item_identifier m i \<and>
      (fType it AND MF_SEPARATOR \<noteq> 0) = (GetTypeAt m i = TYPE_SEPARATOR) \<and>
      dwTypeData it = (if GetTypeAt m i = TYPE_SEPARATOR then []
                       else label_with_accelerator m i (GetLabelAt m i)))"


text \<open>
  The second world has the menus of the first under the handles that the first has given
  out, and has given out no fewer handles.
\<close>

definition frames :: "World \<Rightarrow> World \<Rightarrow> bool" where
  "frames w w' =
     (next_handle w \<le> next_handle w' \<and> (\<forall>h < next_handle w. menus w' h = menus w h))"


text \<open>The constructions of submenus leave the menus that exist as they are.\<close>

definition constructs_fresh ::
  "(int \<Rightarrow> (World \<Rightarrow> error + NativeMenuWin \<times> World) option) \<Rightarrow> bool" where
  "constructs_fresh mk = (\<forall>i k w0 r w0'. mk i = Some k \<longrightarrow> k w0 = Inr (r, w0') \<longrightarrow> frames w0 w0')"


text \<open>
  The copy of the window menu that a window has, if it has one, is a menu of the window
  manager under a handle that it has given out.
\<close>

definition system_menu_live :: "World \<Rightarrow> HWND \<Rightarrow> bool" where
  "system_menu_live w hWnd =
     (case hWnd of None \<Rightarrow> True
      | Some a \<Rightarrow> (case windows w a of None \<Rightarrow> True
          | Some win \<Rightarrow> (case window_menu win of None \<Rightarrow> True
              | Some h \<Rightarrow> h < next_handle w \<and> menus w h \<noteq> None)))"


text \<open>
  The entries that the native menu has when \<open>Rebuild\<close> has obtained it with
  \<open>ResetNativeMenu\<close>, before it inserts any item.
\<close>

definition pre_existing :: "NativeMenuWin \<Rightarrow> World \<Rightarrow> MENUITEMINFO list" where
  "pre_existing c w =
     (let (c1, w1) = ResetNativeMenu c w
      in case GetNativeMenu c1 of None \<Rightarrow> []
         | Some h \<Rightarrow> (case menus w1 h of None \<Rightarrow> [] | Some m \<Rightarrow> menu_items m))"


text \<open>
  The navigation that one call of the hook resolves, if it resolves one: the decision
  of \<^verbatim>\<open>MenuMessageHook\<close> for a key message, on the view of the menu at that moment.
\<close>

definition key_action :: "MSG \<Rightarrow> MenuView option \<Rightarrow> MenuAction option" where
  "key_action msg view =
     (if message msg = WM_KEYDOWN
      then (case GetHighlightedMenuItemInfo view (False, False) of
              (found, has_parent, has_submenu) \<Rightarrow>
                if wParam msg = VK_LEFT \<and> \<not> has_parent then Some MENU_ACTION_PREVIOUS
                else if wParam msg = VK_RIGHT \<and> \<not> has_parent \<and> \<not> has_submenu
                then Some MENU_ACTION_NEXT
                else None)
      else None)"


text \<open>
  The action resolved during a run: the navigation that the last call of the hook that
  resolved one has resolved, and the action \<open>a\<close> when no call has.
\<close>

fun last_navigation :: "LoopEvent list \<Rightarrow> MenuAction \<Rightarrow> MenuAction" where
  "last_navigation [] a = a"
| "last_navigation (Hook msg view # evs) a =
     last_navigation evs (case key_action msg view of None \<Rightarrow> a | Some b \<Rightarrow> b)"
| "last_navigation (Window m # evs) a = last_navigation evs a"


text \<open>
  The calls that C6 names, and a change of the model between them (the model belongs
  to the caller), one after the other.
\<close>

datatype Call =
    Call_Rebuild
  | Call_UpdateStates
  | Call_RunMenuAt "int \<times> int" int "LoopEvent list"
  | Model_changed MenuModel

fun do_call :: "Call \<Rightarrow> NativeMenuWin \<Rightarrow> World \<Rightarrow> error + NativeMenuWin \<times> World" where
  "do_call Call_Rebuild c w = Rebuild c w"
| "do_call Call_UpdateStates c w = UpdateStates c w"
| "do_call (Call_RunMenuAt point alignment evs) c w = RunMenuAt c w point alignment evs"
| "do_call (Model_changed m) c w = Inr (NativeMenuWin ((vars c)\<lparr>model := m\<rparr>) (items c), w)"

fun do_calls :: "Call list \<Rightarrow> NativeMenuWin \<Rightarrow> World \<Rightarrow> error + NativeMenuWin \<times> World" where
  "do_calls [] c w = Inr (c, w)"
| "do_calls (x # xs) c w =
     (case do_call x c w of Inl e \<Rightarrow> Inl e | Inr (c', w') \<Rightarrow> do_calls xs c' w')"


text \<open>The notifications that an operation has made when it has returned.\<close>

definition result_trace :: "error + NativeMenuWin \<times> World \<Rightarrow> Event list option" where
  "result_trace r = (case r of Inl e \<Rightarrow> None | Inr (c, w) \<Rightarrow> Some (trace w))"


section \<open>Properties\<close>

subsection \<open>Fixtures: a world with no menus, and three models\<close>

definition World_init :: World where
  "World_init = \<lparr>menus = (\<lambda>_. None), next_handle = 1, next_object = 1, windows = (\<lambda>_. None),
     default_window_menu = [], NeedOverrideDefaultUIFont = False, open_native_menu_win = None,
     posted_tasks = [], trace = []\<rparr>"

definition model_separator :: MenuModel where
  "model_separator = MenuModel False MenuModel_GetFirstItemIndex 1 (\<lambda>i. TYPE_SEPARATOR)
     (\<lambda>i. 0) (\<lambda>i. []) (\<lambda>i. False) (\<lambda>i. None) (\<lambda>i. False) (\<lambda>i. True) (\<lambda>i. None)"

definition model_B :: MenuModel where
  "model_B = MenuModel False MenuModel_GetFirstItemIndex 1 (\<lambda>i. TYPE_COMMAND)
     (\<lambda>i. 2) (\<lambda>i. ''C'') (\<lambda>i. False) (\<lambda>i. None) (\<lambda>i. False) (\<lambda>i. True) (\<lambda>i. None)"

definition model_A_sep_B :: MenuModel where
  "model_A_sep_B = MenuModel False MenuModel_GetFirstItemIndex 3
     (\<lambda>i. if i = 0 then TYPE_COMMAND else if i = 1 then TYPE_SEPARATOR else TYPE_SUBMENU)
     (\<lambda>i. if i = 0 then 1 else 0)
     (\<lambda>i. if i = 0 then ''A'' else if i = 2 then ''B'' else [])
     (\<lambda>i. i = 0)
     (\<lambda>i. if i = 0 then Some (Accelerator ''Ctrl+A'') else None)
     (\<lambda>i. False) (\<lambda>i. True)
     (\<lambda>i. if i = 2 then Some model_B else None)"

definition result_items :: "error + NativeMenuWin \<times> World \<Rightarrow> ItemData list option" where
  "result_items r = (case r of Inl e \<Rightarrow> None | Inr (c, w) \<Rightarrow> Some (items c))"


text \<open>
  The controller for the model with the items Command "A" (id 1, accelerator Ctrl+A),
  Separator, Submenu "B", and what \<open>Rebuild\<close> makes of it in the world with no menus.
\<close>

definition menu_A_sep_B :: NativeMenuWin where
  "menu_A_sep_B = NativeMenuWin_ctor World_init 0 model_A_sep_B None"

definition built_A_sep_B :: "NativeMenuWin \<times> World" where
  "built_A_sep_B =
     (case Rebuild menu_A_sep_B World_init of Inr cw \<Rightarrow> cw | Inl e \<Rightarrow> (menu_A_sep_B, World_init))"

text \<open>
  The fixture after \<open>ResetNativeMenu\<close> alone, and a construction of submenus that has
  none to offer.
\<close>

definition no_Menu2 :: "int \<Rightarrow> (World \<Rightarrow> error + NativeMenuWin \<times> World) option" where
  "no_Menu2 i = None"

definition reset_A_sep_B :: "NativeMenuWin \<times> World" where
  "reset_A_sep_B = ResetNativeMenu menu_A_sep_B World_init"

text \<open>The label stored in the registry at a position, when an operation has returned.\<close>

definition stored_label :: "int \<Rightarrow> error + NativeMenuWin \<times> World \<Rightarrow> wstring option" where
  "stored_label i r =
     (case r of
        Inl e \<Rightarrow> None
      | Inr (c, w) \<Rightarrow> if 0 \<le> i \<and> i < int (length (items c)) then Some (label (items c ! nat i)) else None)"

text \<open>
  A menu as a window has it, with two items (their identifiers are \<^verbatim>\<open>SC_RESTORE\<close> and
  \<^verbatim>\<open>SC_CLOSE\<close>).
\<close>

definition window_menu_two :: MENU where
  "window_menu_two = \<lparr>dwStyle = 0, dwMenuData = None,
     menu_items = [mii_zero\<lparr>wID := 0xF120\<rparr>, mii_zero\<lparr>wID := 0xF060\<rparr>]\<rparr>"

text \<open>
  A model with the items Command "A" (command id 5), Separator (command id 9) and
  Submenu "B" (command id 9), and the same as the model of a system menu.
\<close>

definition model_ids_5_9_9 :: MenuModel where
  "model_ids_5_9_9 = MenuModel False MenuModel_GetFirstItemIndex 3
     (\<lambda>i. if i = 0 then TYPE_COMMAND else if i = 1 then TYPE_SEPARATOR else TYPE_SUBMENU)
     (\<lambda>i. if i = 0 then 5 else 9)
     (\<lambda>i. if i = 0 then ''A'' else if i = 2 then ''B'' else [])
     (\<lambda>i. False) (\<lambda>i. None) (\<lambda>i. False) (\<lambda>i. True)
     (\<lambda>i. if i = 2 then Some model_B else None)"

definition system_model_ids_5_9_9 :: MenuModel where
  "system_model_ids_5_9_9 = MenuModel False SystemMenuModel_GetFirstItemIndex 3
     (\<lambda>i. if i = 0 then TYPE_COMMAND else if i = 1 then TYPE_SEPARATOR else TYPE_SUBMENU)
     (\<lambda>i. if i = 0 then 5 else 9)
     (\<lambda>i. if i = 0 then ''A'' else if i = 2 then ''B'' else [])
     (\<lambda>i. False) (\<lambda>i. None) (\<lambda>i. False) (\<lambda>i. True)
     (\<lambda>i. if i = 2 then Some model_B else None)"


text \<open>
  A world with the window 0, which has no copy of the window menu yet; the default
  window menu has the two items above.
\<close>

definition World_with_window :: World where
  "World_with_window = World_init\<lparr>windows := (\<lambda>a. if a = 0 then Some \<lparr>window_menu = None\<rparr> else None),
     default_window_menu := menu_items window_menu_two\<rparr>"


text \<open>
  What the window manager delivers in one run of the menu: the key Right while the
  first item is highlighted, then \<^verbatim>\<open>WM_EXITMENULOOP\<close> and, in the same call stack,
  \<^verbatim>\<open>WM_MENUCOMMAND\<close> for the position 0 of the menu 1.
\<close>

definition events_right_command_exit :: "LoopEvent list" where
  "events_right_command_exit =
     [Hook \<lparr>message = WM_KEYDOWN, wParam = VK_RIGHT\<rparr> (Some (MenuView [(0, None), (0x800, None), (0x10, None)])),
      Window WM_EXITMENULOOP,
      Window (WM_MENUCOMMAND 0 (Some 1))]"


text \<open>A world in which the controller at the address 99 has its menu open.\<close>

definition other_menu_open :: "World \<Rightarrow> World" where
  "other_menu_open w = w\<lparr>open_native_menu_win := Some 99\<rparr>"


text \<open>The host window that \<open>RunMenuAt\<close> creates for the built fixture.\<close>

definition host_of_A_sep_B :: MenuHostWindow where
  "host_of_A_sep_B = \<lparr>hwnd = Some 3, parent = Some 0\<rparr>"


text \<open>
  A model with one item and icons, the same model without icons, the controller of the
  first, and calls that follow its \<open>Rebuild\<close> once the icons are gone.
\<close>

definition model_icon_item :: MenuModel where
  "model_icon_item = MenuModel True MenuModel_GetFirstItemIndex 1 (\<lambda>i. TYPE_COMMAND)
     (\<lambda>i. 1) (\<lambda>i. ''A'') (\<lambda>i. False) (\<lambda>i. None) (\<lambda>i. False) (\<lambda>i. True) (\<lambda>i. None)"

definition model_plain_item :: MenuModel where
  "model_plain_item = MenuModel False MenuModel_GetFirstItemIndex 1 (\<lambda>i. TYPE_COMMAND)
     (\<lambda>i. 1) (\<lambda>i. ''A'') (\<lambda>i. False) (\<lambda>i. None) (\<lambda>i. False) (\<lambda>i. True) (\<lambda>i. None)"

definition menu_icon_item :: NativeMenuWin where
  "menu_icon_item = NativeMenuWin_ctor World_init 0 model_icon_item None"

definition calls_after_icons_gone :: "Call list" where
  "calls_after_icons_gone =
     [Model_changed model_plain_item, Call_Rebuild, Call_UpdateStates,
      Call_RunMenuAt (10, 20) ALIGN_TOPLEFT []]"


subsection \<open>Rebuild: the registry follows the model\<close>

lemma set_label_Inr:
  "set_label its i s = Inr its' \<Longrightarrow>
   0 \<le> i \<and> i < int (length its) \<and> length its' = length its \<and> label (its' ! nat i) = s \<and>
   submenu (its' ! nat i) = submenu (its ! nat i) \<and>
   native_menu_win (its' ! nat i) = native_menu_win (its ! nat i) \<and>
   model_index (its' ! nat i) = model_index (its ! nat i) \<and>
   (\<forall>j. j \<noteq> nat i \<longrightarrow> its' ! j = its ! j)"
  by (auto simp: set_label_def split: if_splits ItemData.splits)

lemma UpdateMenuItemInfoForString_Inr:
  assumes "UpdateMenuItemInfoForString c mii i lbl = Inr (c', mii')"
  shows "vars c' = vars c \<and> 0 \<le> i \<and> i < int (length (items c)) \<and>
         length (items c') = length (items c) \<and>
         label (items c' ! nat i) = label_with_accelerator (model (vars c)) i lbl \<and>
         (\<forall>j. j \<noteq> nat i \<longrightarrow> items c' ! j = items c ! j) \<and>
         mii' = mii\<lparr>fMask := fMask mii OR MIIM_STRING,
                    dwTypeData := label_with_accelerator (model (vars c)) i lbl\<rparr>"
proof -
  let ?f = "label_with_accelerator (model (vars c)) i lbl"
  from assms obtain its where s: "set_label (items c) i ?f = Inr its"
    and c': "c' = NativeMenuWin (vars c) its"
    and m: "mii' = mii\<lparr>fMask := fMask mii OR MIIM_STRING, dwTypeData := label (its ! nat i)\<rparr>"
    by (auto simp: UpdateMenuItemInfoForString_def label_with_accelerator_def Let_def
          split: sum.splits if_splits option.splits)
  from set_label_Inr[OF s] c' m show ?thesis by simp
qed

lemma UpdateMenuItemInfoForString_total:
  "0 \<le> i \<Longrightarrow> i < int (length (items c)) \<Longrightarrow> \<exists>r. UpdateMenuItemInfoForString c mii i lbl = Inr r"
  by (simp add: UpdateMenuItemInfoForString_def Let_def set_label_def)

lemma SetMenuItemLabel_Inr:
  assumes "SetMenuItemLabel c w menu_index i lbl = Inr (c', w')"
    and "\<not> IsSeparatorItemAt c w menu_index"
  shows "vars c' = vars c \<and> length (items c') = length (items c) \<and>
         label (items c' ! nat i) = label_with_accelerator (model (vars c)) i lbl \<and>
         (\<forall>j. j \<noteq> nat i \<longrightarrow> items c' ! j = items c ! j) \<and>
         w' = w\<lparr>menus := SetMenuItemInfo (menus w) (menu (vars c)) menu_index
                 (mii_zero\<lparr>fMask := MIIM_STRING,
                     dwTypeData := label_with_accelerator (model (vars c)) i lbl\<rparr>)\<rparr>"
proof -
  from assms obtain mii where u: "UpdateMenuItemInfoForString c mii_zero i lbl = Inr (c', mii)"
    and w': "w' = w\<lparr>menus := SetMenuItemInfo (menus w) (menu (vars c')) menu_index mii\<rparr>"
    by (auto simp: SetMenuItemLabel_def split: sum.splits)
  from UpdateMenuItemInfoForString_Inr[OF u] w' show ?thesis
    by (simp add: mii_zero_def)
qed

lemma SetMenuItemLabel_other:
  assumes "SetMenuItemLabel c w menu_index j lbl = Inr (c', w')" "j \<noteq> i" "0 \<le> i"
  shows "items c' ! nat i = items c ! nat i"
proof (cases "IsSeparatorItemAt c w menu_index")
  case True
  with assms show ?thesis by (simp add: SetMenuItemLabel_def)
next
  case False
  from assms(1) obtain mii where u: "UpdateMenuItemInfoForString c mii_zero j lbl = Inr (c', mii)"
    using False by (auto simp: SetMenuItemLabel_def split: sum.splits)
  from UpdateMenuItemInfoForString_Inr[OF u] assms(2,3) show ?thesis
    by (metis eq_nat_nat_iff)
qed

lemma vector_insert_end: "vector_insert xs (int (length xs)) x = Inr (xs @ [x])"
  by (simp add: vector_insert_def)

lemma AddSeparatorItemAt_end:
  "model_idx = int (length (items c)) \<Longrightarrow>
   \<exists>w'. AddSeparatorItemAt c w menu_index model_idx
     = Inr (NativeMenuWin (vars c) (items c @ [new_ItemData]), w')"
  by (simp add: AddSeparatorItemAt_def vector_insert_end)

lemma AddMenuItemAt_end:
  assumes "model_idx = int (length (items c))"
    and "AddMenuItemAt mk c w menu_index model_idx = Inr (c', w')"
  shows "\<exists>sub. c' = NativeMenuWin (vars c)
           (items c @ [ItemData (label_with_accelerator (model (vars c)) model_idx
                                   (GetLabelAt (model (vars c)) model_idx))
                         sub (Some (this (vars c))) (Some model_idx)])"
proof -
  from assms(2) obtain sub mii mii' where
    u: "UpdateMenuItemInfoForString
          (NativeMenuWin (vars c) (items c @ [ItemData [] sub (Some (this (vars c))) (Some model_idx)]))
          mii model_idx (GetLabelAt (model (vars c)) model_idx) = Inr (c', mii')"
    by (auto simp: AddMenuItemAt_def Let_def vector_insert_end assms(1)
          split: sum.splits if_splits option.splits)
  let ?xs = "items c @ [ItemData [] sub (Some (this (vars c))) (Some model_idx)]"
  from UpdateMenuItemInfoForString_Inr[OF u]
  have v: "vars c' = vars c" and len: "length (items c') = length ?xs"
    and l: "label (items c' ! nat model_idx) =
              label_with_accelerator (model (vars c)) model_idx (GetLabelAt (model (vars c)) model_idx)"
    and o: "\<forall>j. j \<noteq> nat model_idx \<longrightarrow> items c' ! j = ?xs ! j"
    by simp_all
  from u obtain its where s: "set_label ?xs model_idx
        (label_with_accelerator (model (vars c)) model_idx (GetLabelAt (model (vars c)) model_idx)) = Inr its"
    and c': "c' = NativeMenuWin (vars c) its"
    by (auto simp: UpdateMenuItemInfoForString_def label_with_accelerator_def Let_def
          split: sum.splits if_splits option.splits)
  from s have "its = items c @ [ItemData (label_with_accelerator (model (vars c)) model_idx
                                   (GetLabelAt (model (vars c)) model_idx))
                         sub (Some (this (vars c))) (Some model_idx)]"
    by (simp add: set_label_def assms(1))
  with c' show ?thesis by blast
qed

definition entry_ok :: "NativeMenuWin \<Rightarrow> nat \<Rightarrow> ItemData \<Rightarrow> bool" where
  "entry_ok c j d =
     (if GetTypeAt (model (vars c)) (int j) = TYPE_SEPARATOR then d = new_ItemData
      else model_index d = Some (int j) \<and> native_menu_win d = Some (this (vars c)) \<and>
           label d = label_with_accelerator (model (vars c)) (int j)
                       (GetLabelAt (model (vars c)) (int j)))"

lemma Rebuild_step_end:
  assumes len: "model_idx = int (length (items c))"
    and step: "(if GetTypeAt (model (vars c)) model_idx = TYPE_SEPARATOR
               then AddSeparatorItemAt c w menu_index model_idx
               else AddMenuItemAt mk c w menu_index model_idx) = Inr (c', w')"
  shows "\<exists>d. c' = NativeMenuWin (vars c) (items c @ [d]) \<and> entry_ok c (length (items c)) d"
proof (cases "GetTypeAt (model (vars c)) model_idx = TYPE_SEPARATOR")
  case True
  with step AddSeparatorItemAt_end[OF len, of w menu_index] len show ?thesis
    by (auto simp: entry_ok_def)
next
  case False
  with step have "AddMenuItemAt mk c w menu_index model_idx = Inr (c', w')" by simp
  from AddMenuItemAt_end[OF len this] False len show ?thesis
    by (auto simp: entry_ok_def)
qed

lemma Rebuild_loop_items:
  assumes "Rebuild_loop mk c w menu_index = Inr (c', w')"
    and "int (length (items c)) = menu_index - first_item_index (vars c)"
  shows "vars c' = vars c \<and>
         int (length (items c')) = max (int (length (items c))) (GetItemCount (model (vars c))) \<and>
         take (length (items c)) (items c') = items c \<and>
         (\<forall>j. length (items c) \<le> j \<and> j < length (items c') \<longrightarrow> entry_ok c j (items c' ! j))"
  using assms
proof (induction mk c w menu_index rule: Rebuild_loop.induct)
  case (1 mk c w menu_index)
  show ?case
  proof (cases "menu_index < first_item_index (vars c) + GetItemCount (model (vars c))")
    case False
    with "1.prems" show ?thesis
      by (auto simp: Rebuild_loop.simps[of mk c w menu_index])
  next
    case True
    let ?idx = "menu_index - first_item_index (vars c)"
    let ?step = "(if GetTypeAt (model (vars c)) ?idx = TYPE_SEPARATOR
               then AddSeparatorItemAt c w menu_index ?idx
               else AddMenuItemAt mk c w menu_index ?idx)"
    from True "1.prems"(1) obtain c1 w1 where
      step: "?step = Inr (c1, w1)" and
      rest: "Rebuild_loop mk c1 w1 (menu_index + 1) = Inr (c', w')"
      by (simp add: Rebuild_loop.simps[of mk c w menu_index] Let_def split: sum.splits prod.splits)
    have len: "?idx = int (length (items c))" using "1.prems"(2) by simp
    from Rebuild_step_end[OF len step] obtain d where
      c1: "c1 = NativeMenuWin (vars c) (items c @ [d])" and d: "entry_ok c (length (items c)) d"
      by blast
    have len1: "int (length (items c1)) = menu_index + 1 - first_item_index (vars c1)"
      using c1 "1.prems"(2) by simp
    from "1.IH"[OF True refl step refl rest len1]
    have IH: "vars c' = vars c1"
      "int (length (items c')) = max (int (length (items c1))) (GetItemCount (model (vars c1)))"
      "take (length (items c1)) (items c') = items c1"
      "\<forall>j. length (items c1) \<le> j \<and> j < length (items c') \<longrightarrow> entry_ok c1 j (items c' ! j)"
      by auto
    have v: "vars c1 = vars c" using c1 by simp
    have eo: "\<And>j x. entry_ok c1 j x = entry_ok c j x" by (simp add: entry_ok_def v)
    have l1: "length (items c1) = Suc (length (items c))" using c1 by simp
    have tk: "take (length (items c)) (items c') = items c"
    proof -
      have "take (length (items c)) (take (length (items c1)) (items c')) = take (length (items c)) (items c1)"
        using IH(3) by simp
      then show ?thesis using c1 l1 by (simp add: min_def)
    qed
    have nth: "items c' ! length (items c) = d"
    proof -
      have "take (length (items c1)) (items c') ! length (items c) = items c1 ! length (items c)"
        using IH(3) by simp
      then show ?thesis using c1 l1 by simp
    qed
    have lenc': "int (length (items c')) = max (int (length (items c))) (GetItemCount (model (vars c)))"
      using IH(2) v l1 True "1.prems"(2) by auto
    have ent: "\<forall>j. length (items c) \<le> j \<and> j < length (items c') \<longrightarrow> entry_ok c j (items c' ! j)"
    proof (intro allI impI)
      fix j assume j: "length (items c) \<le> j \<and> j < length (items c')"
      show "entry_ok c j (items c' ! j)"
      proof (cases "j = length (items c)")
        case True then show ?thesis using nth d by simp
      next
        case False
        with j l1 have "length (items c1) \<le> j \<and> j < length (items c')" by simp
        with IH(4) eo show ?thesis by blast
      qed
    qed
    show ?thesis using IH(1) v tk lenc' ent by simp
  qed
qed


primrec submenu_models_present :: "MenuModel \<Rightarrow> bool" where
  "submenu_models_present (MenuModel icons first n types ids labels dynamic accels checked enabled subs) =
     (\<forall>i\<in>{0..<n}. types i = TYPE_SUBMENU \<longrightarrow>
        (case map_option submenu_models_present (subs i) of None \<Rightarrow> False | Some b \<Rightarrow> b))"

definition constructs_at ::
  "(int \<Rightarrow> (World \<Rightarrow> error + NativeMenuWin \<times> World) option) \<Rightarrow> MenuModel \<Rightarrow> bool" where
  "constructs_at mk m =
     (\<forall>i. 0 \<le> i \<and> i < GetItemCount m \<and> GetTypeAt m i = TYPE_SUBMENU \<longrightarrow>
        (\<exists>k. mk i = Some k \<and> (\<forall>w. \<exists>r. k w = Inr r)))"

lemma UpdateMenuItemInfoForString_no_error:
  "0 \<le> i \<Longrightarrow> i < int (length (items c)) \<Longrightarrow> UpdateMenuItemInfoForString c mii i lbl \<noteq> Inl e"
  by (simp add: UpdateMenuItemInfoForString_def Let_def set_label_def)

lemma AddMenuItemAt_total:
  assumes len: "model_idx = int (length (items c))"
    and mk: "GetTypeAt (model (vars c)) model_idx = TYPE_SUBMENU \<longrightarrow>
        (\<exists>k. mk model_idx = Some k \<and> (\<forall>w. \<exists>r. k w = Inr r))"
  shows "\<exists>r. AddMenuItemAt mk c w menu_index model_idx = Inr r"
proof (cases "GetTypeAt (model (vars c)) model_idx = TYPE_SUBMENU")
  case True
  with mk obtain k where k: "mk model_idx = Some k" "\<forall>w. \<exists>r. k w = Inr r" by blast
  then obtain m2 w1 where r: "k w = Inr (m2, w1)" by (metis surj_pair)
  with True k len show ?thesis
    by (auto simp: AddMenuItemAt_def Let_def vector_insert_end
          UpdateMenuItemInfoForString_no_error split: sum.splits)
next
  case False
  with len show ?thesis
    by (auto simp: AddMenuItemAt_def Let_def vector_insert_end
          UpdateMenuItemInfoForString_no_error split: sum.splits)
qed

lemma Rebuild_loop_total:
  assumes "constructs_at mk (model (vars c))"
    and "int (length (items c)) = menu_index - first_item_index (vars c)"
  shows "\<exists>r. Rebuild_loop mk c w menu_index = Inr r"
  using assms
proof (induction mk c w menu_index rule: Rebuild_loop.induct)
  case (1 mk c w menu_index)
  show ?case
  proof (cases "menu_index < first_item_index (vars c) + GetItemCount (model (vars c))")
    case False
    then show ?thesis by (simp add: Rebuild_loop.simps[of mk c w menu_index])
  next
    case True
    let ?idx = "menu_index - first_item_index (vars c)"
    let ?step = "(if GetTypeAt (model (vars c)) ?idx = TYPE_SEPARATOR
               then AddSeparatorItemAt c w menu_index ?idx
               else AddMenuItemAt mk c w menu_index ?idx)"
    have len: "?idx = int (length (items c))" using "1.prems"(2) by simp
    have rng: "0 \<le> ?idx \<and> ?idx < GetItemCount (model (vars c))" using True len by simp
    have "\<exists>r. ?step = Inr r"
    proof (cases "GetTypeAt (model (vars c)) ?idx = TYPE_SEPARATOR")
      case True
      then show ?thesis using AddSeparatorItemAt_end[OF len, of w menu_index] by auto
    next
      case False
      have "GetTypeAt (model (vars c)) ?idx = TYPE_SUBMENU \<longrightarrow>
        (\<exists>k. mk ?idx = Some k \<and> (\<forall>w. \<exists>r. k w = Inr r))"
        using "1.prems"(1) rng unfolding constructs_at_def by blast
      from AddMenuItemAt_total[of ?idx c mk w menu_index, OF len this] False show ?thesis by simp
    qed
    then obtain c1 w1 where step: "?step = Inr (c1, w1)" by (metis surj_pair)
    from Rebuild_step_end[OF len step] obtain d where
      c1: "c1 = NativeMenuWin (vars c) (items c @ [d])" by blast
    have len1: "int (length (items c1)) = menu_index + 1 - first_item_index (vars c1)"
      using c1 "1.prems"(2) by simp
    have mk1: "constructs_at mk (model (vars c1))" using c1 "1.prems"(1) by simp
    from "1.IH"[OF True refl step refl mk1 len1] obtain r where
      "Rebuild_loop mk c1 w1 (menu_index + 1) = Inr r" by blast
    with True step show ?thesis
      by (simp add: Rebuild_loop.simps[of mk c w menu_index] Let_def)
  qed
qed

lemma ResetNativeMenu_vars:
  "ResetNativeMenu c w = (c1, w1) \<Longrightarrow> \<exists>h. c1 = NativeMenuWin ((vars c)\<lparr>menu := h\<rparr>) (items c)"
  by (auto simp: ResetNativeMenu_def Let_def split: if_splits prod.splits)

lemma Rebuild_with_total:
  assumes "constructs_at mk (model (vars c))"
  shows "\<exists>r. Rebuild_with mk c w = Inr r"
proof -
  obtain c1 w1 where r: "ResetNativeMenu c w = (c1, w1)" by (metis surj_pair)
  from ResetNativeMenu_vars[OF r] obtain h where
    c1: "c1 = NativeMenuWin ((vars c)\<lparr>menu := h\<rparr>) (items c)" by blast
  show ?thesis
    unfolding Rebuild_with_def r Let_def prod.case
    by (rule Rebuild_loop_total) (simp_all add: c1 assms)
qed

lemma Rebuild_with_items:
  assumes "Rebuild_with mk c w = Inr (c', w')"
  shows "int (length (items c')) = max 0 (GetItemCount (model (vars c))) \<and>
         (\<forall>j < length (items c'). entry_ok c j (items c' ! j)) \<and>
         (\<exists>h f. vars c' = (vars c)\<lparr>menu := h, owner_draw := HasIcons (model (vars c)) \<or> owner_draw (vars c),
                     first_item_index := f\<rparr>)"
proof -
  obtain c1 w1 where r: "ResetNativeMenu c w = (c1, w1)" by (metis surj_pair)
  from ResetNativeMenu_vars[OF r] obtain h where
    c1: "c1 = NativeMenuWin ((vars c)\<lparr>menu := h\<rparr>) (items c)" by blast
  let ?c3 = "NativeMenuWin ((vars c1)\<lparr>owner_draw := (HasIcons (model (vars c1)) \<or> owner_draw (vars c1))\<rparr>) []"
  let ?c4 = "NativeMenuWin ((vars ?c3)\<lparr>first_item_index :=
                   GetFirstItemIndex (model (vars ?c3)) (menus w1) (GetNativeMenu ?c3)\<rparr>) []"
  have loop: "Rebuild_loop mk ?c4 w1 (first_item_index (vars ?c4)) = Inr (c', w')"
    using assms unfolding Rebuild_with_def r Let_def prod.case by simp
  have "int (length (items ?c4)) = first_item_index (vars ?c4) - first_item_index (vars ?c4)"
    by simp
  from Rebuild_loop_items[OF loop this]
  have R: "vars c' = vars ?c4"
    "int (length (items c')) = max 0 (GetItemCount (model (vars ?c4)))"
    "\<forall>j. j < length (items c') \<longrightarrow> entry_ok ?c4 j (items c' ! j)"
    by simp_all
  have eo: "\<And>j x. entry_ok ?c4 j x = entry_ok c j x" by (simp add: entry_ok_def c1)
  show ?thesis using R eo by (auto simp: c1)
qed

lemma new_Menu2_total: "submenu_models_present m \<Longrightarrow> \<exists>r. new_Menu2 m w = Inr r"
proof (induction m arbitrary: w)
  case (MenuModel icons first n types ids labels dynamic accels checked enabled subs)
  let ?m = "MenuModel icons first n types ids labels dynamic accels checked enabled subs"
  let ?mk = "\<lambda>i. map_option new_Menu2 (subs i)"
  have "constructs_at ?mk ?m"
    unfolding constructs_at_def
  proof (intro allI impI)
    fix i assume i: "0 \<le> i \<and> i < GetItemCount ?m \<and> GetTypeAt ?m i = TYPE_SUBMENU"
    with MenuModel.prems obtain s where s: "subs i = Some s" "submenu_models_present s"
      by (auto split: option.splits)
    have "Some s \<in> range subs" using s(1) by (metis rangeI)
    then have "\<forall>w. \<exists>r. new_Menu2 s w = Inr r"
      using MenuModel.IH[of "Some s" s] s(2) by simp
    with s show "\<exists>k. ?mk i = Some k \<and> (\<forall>w. \<exists>r. k w = Inr r)" by simp
  qed
  then have ca: "\<And>a w1. constructs_at ?mk (model (vars (NativeMenuWin_ctor w1 a ?m None)))"
    by (simp add: NativeMenuWin_ctor_def)
  obtain a w1 where n: "new_object w = (a, w1)" by (metis surj_pair)
  from Rebuild_with_total[OF ca, of w1 a w1] show ?case
    by (simp add: n Let_def)
qed

lemma Rebuild_total:
  "submenu_models_present (model (vars c)) \<Longrightarrow> \<exists>r. Rebuild c w = Inr r"
  unfolding Rebuild_def
proof (rule Rebuild_with_total, unfold constructs_at_def, intro allI impI)
  fix i
  assume p: "submenu_models_present (model (vars c))"
    and i: "0 \<le> i \<and> i < GetItemCount (model (vars c)) \<and> GetTypeAt (model (vars c)) i = TYPE_SUBMENU"
  then obtain s where s: "GetSubmenuModelAt (model (vars c)) i = Some s" "submenu_models_present s"
    by (cases "model (vars c)") (auto split: option.splits)
  then show "\<exists>k. map_option new_Menu2 (GetSubmenuModelAt (model (vars c)) i) = Some k \<and>
             (\<forall>w. \<exists>r. k w = Inr r)"
    using new_Menu2_total by simp
qed


text \<open>
  C1 (amended). For a model whose item count is not negative and whose submenu items
  have submenu models (recursively), \<open>Rebuild\<close> returns, and the registry then has
  exactly \<open>GetItemCount\<close> entries; the entry at position \<open>i\<close> of an item that is not a
  separator has \<open>model_index = i\<close>, and the entry at the position of a separator is the
  placeholder \<^verbatim>\<open>new ItemData\<close>, whose \<open>model_index\<close> was never assigned.
\<close>

theorem Rebuild_registry_follows_model:
  assumes "submenu_models_present (model (vars c))"
    and "0 \<le> GetItemCount (model (vars c))"
  shows "\<exists>c' w'. Rebuild c w = Inr (c', w') \<and>
           int (length (items c')) = GetItemCount (model (vars c)) \<and>
           (\<forall>i < length (items c').
              if GetTypeAt (model (vars c)) (int i) = TYPE_SEPARATOR
              then items c' ! i = new_ItemData
              else model_index (items c' ! i) = Some (int i))"
proof -
  from Rebuild_total[OF assms(1)] obtain c' w' where r: "Rebuild c w = Inr (c', w')"
    by (metis surj_pair)
  from Rebuild_with_items[OF r[unfolded Rebuild_def]] assms(2)
  have "int (length (items c')) = GetItemCount (model (vars c))"
    and "\<forall>j < length (items c'). entry_ok c j (items c' ! j)"
    by simp_all
  with r show ?thesis by (auto simp: entry_ok_def)
qed

theorem Rebuild_registry_follows_model_witness:
  "submenu_models_present (model (vars (NativeMenuWin_ctor World_init 0 model_A_sep_B None))) \<and>
   0 \<le> GetItemCount (model (vars (NativeMenuWin_ctor World_init 0 model_A_sep_B None))) \<and>
   (\<exists>c' w'. Rebuild (NativeMenuWin_ctor World_init 0 model_A_sep_B None) World_init = Inr (c', w') \<and>
      int (length (items c')) = 3 \<and>
      model_index (items c' ! 0) = Some 0 \<and>
      items c' ! 1 = new_ItemData \<and>
      model_index (items c' ! 2) = Some 2)"
proof -
  let ?c = "NativeMenuWin_ctor World_init 0 model_A_sep_B None"
  have m: "model (vars ?c) = model_A_sep_B" by (simp add: NativeMenuWin_ctor_def)
  have h1: "submenu_models_present (model (vars ?c))"
    unfolding m by (auto simp: model_A_sep_B_def model_B_def)
  have h2: "0 \<le> GetItemCount (model (vars ?c))"
    unfolding m by (simp add: model_A_sep_B_def)
  from Rebuild_registry_follows_model[OF h1 h2, of World_init] obtain c' w' where
    r: "Rebuild ?c World_init = Inr (c', w')"
    and l: "int (length (items c')) = GetItemCount (model (vars ?c))"
    and e: "\<forall>i < length (items c').
              if GetTypeAt (model (vars ?c)) (int i) = TYPE_SEPARATOR
              then items c' ! i = new_ItemData
              else model_index (items c' ! i) = Some (int i)"
    by blast
  have l3: "length (items c') = 3" using l unfolding m by (simp add: model_A_sep_B_def)
  have "model_index (items c' ! 0) = Some 0" "items c' ! 1 = new_ItemData"
    "model_index (items c' ! 2) = Some 2"
    using e[rule_format, of 0] e[rule_format, of 1] e[rule_format, of 2] l3
    unfolding m by (simp_all add: model_A_sep_B_def)
  with h1 h2 r l3 show ?thesis by auto
qed

text \<open>
  C1 as stated fails at a separator: for the model with one separator, the registry
  after \<open>Rebuild\<close> has the one entry \<^verbatim>\<open>new ItemData\<close>, whose \<open>model_index\<close> is not \<open>0\<close>: it
  was never assigned.
\<close>

theorem Rebuild_separator_model_index_counterexample:
  "map_option (map model_index)
     (result_items (Rebuild (NativeMenuWin_ctor World_init 0 model_separator None) World_init))
   = Some [None]"
  by (simp add: result_items_def Rebuild_def Rebuild_with_def ResetNativeMenu_def NativeMenuWin_ctor_def
     World_init_def model_separator_def IsWindow_def CreatePopupMenu_def SetMenuInfo_def Let_def
     GetNativeMenu_def MenuModel_GetFirstItemIndex_def Rebuild_loop.simps AddSeparatorItemAt_def
     vector_insert_def new_ItemData_def)


subsection \<open>The fixtures, evaluated\<close>

lemmas eval_defs = result_items_def Rebuild_def Rebuild_with_def ResetNativeMenu_def NativeMenuWin_ctor_def
     World_init_def model_separator_def model_A_sep_B_def model_B_def IsWindow_def CreatePopupMenu_def SetMenuInfo_def Let_def
     GetNativeMenu_def MenuModel_GetFirstItemIndex_def Rebuild_loop.simps AddSeparatorItemAt_def AddMenuItemAt_def
     vector_insert_def new_ItemData_def new_object_def UpdateMenuItemInfoForString_def set_label_def
     InsertMenuItem_def copy_masked_def mii_zero_def
     MIIM_STATE_def MIIM_ID_def MIIM_SUBMENU_def MIIM_DATA_def MIIM_STRING_def MIIM_FTYPE_def
     MFT_STRING_def MFT_OWNERDRAW_def MFT_RADIOCHECK_def MFT_SEPARATOR_def MNS_NOTIFYBYPOS_def

lemma built_A_sep_B_eval:
  "case Rebuild menu_A_sep_B World_init of
     Inl e \<Rightarrow> False
   | Inr (c, w) \<Rightarrow>
       menu (vars c) = Some 1 \<and>
       first_item_index (vars c) = 0 \<and>
       model (vars c) = model_A_sep_B \<and>
       this (vars c) = 0 \<and>
       \<not> owner_draw (vars c) \<and>
       host_window (vars c) = None \<and>
       listeners (vars c) = [] \<and>
       map label (items c) = [''A'' @ [CHR 0x09] @ ''Ctrl+A'', [], ''B''] \<and>
       map model_index (items c) = [Some 0, None, Some 2] \<and>
       \<not> IsSeparatorItemAt c w 0 \<and> IsSeparatorItemAt c w 1 \<and> \<not> IsSeparatorItemAt c w 2 \<and>
       map_option (\<lambda>m. map wID (menu_items m)) (menus w 1) = Some [1, 0, 0] \<and>
       map_option (\<lambda>m. map dwTypeData (menu_items m)) (menus w 1)
         = Some [''A'' @ [CHR 0x09] @ ''Ctrl+A'', [], ''B''] \<and>
       map_option dwMenuData (menus w 1) = Some (Some 0) \<and>
       open_native_menu_win w = None \<and> trace w = [] \<and> posted_tasks w = []"
  by (simp add: menu_A_sep_B_def eval_defs IsSeparatorItemAt_def GetMenuItemInfo_def item_at_def
        MF_SEPARATOR_def)

lemma built_A_sep_B_facts:
  "Rebuild menu_A_sep_B World_init = Inr built_A_sep_B"
  "menu (vars (fst built_A_sep_B)) = Some 1"
  "first_item_index (vars (fst built_A_sep_B)) = 0"
  "model (vars (fst built_A_sep_B)) = model_A_sep_B"
  "this (vars (fst built_A_sep_B)) = 0"
  "\<not> owner_draw (vars (fst built_A_sep_B))"
  "host_window (vars (fst built_A_sep_B)) = None"
  "listeners (vars (fst built_A_sep_B)) = []"
  "map label (items (fst built_A_sep_B)) = [''A'' @ [CHR 0x09] @ ''Ctrl+A'', [], ''B'']"
  "map model_index (items (fst built_A_sep_B)) = [Some 0, None, Some 2]"
  "\<not> IsSeparatorItemAt (fst built_A_sep_B) (snd built_A_sep_B) 0"
  "IsSeparatorItemAt (fst built_A_sep_B) (snd built_A_sep_B) 1"
  "\<not> IsSeparatorItemAt (fst built_A_sep_B) (snd built_A_sep_B) 2"
  "map_option (\<lambda>m. map wID (menu_items m)) (menus (snd built_A_sep_B) 1) = Some [1, 0, 0]"
  "map_option (\<lambda>m. map dwTypeData (menu_items m)) (menus (snd built_A_sep_B) 1)
     = Some [''A'' @ [CHR 0x09] @ ''Ctrl+A'', [], ''B'']"
  "map_option dwMenuData (menus (snd built_A_sep_B) 1) = Some (Some 0)"
  "open_native_menu_win (snd built_A_sep_B) = None"
  "trace (snd built_A_sep_B) = []"
  "posted_tasks (snd built_A_sep_B) = []"
  using built_A_sep_B_eval
  by (auto simp: built_A_sep_B_def split: sum.splits)

lemma built_A_sep_B_length: "length (items (fst built_A_sep_B)) = 3"
  using built_A_sep_B_facts(9) by (metis length_map length_Cons list.size(3) numeral_3_eq_3)


subsection \<open>Rebuild: the menu of the window manager follows the model\<close>

lemma frames_refl: "frames w w"
  by (simp add: frames_def)

lemma AddSeparatorItemAt_world:
  assumes "AddSeparatorItemAt c w menu_index i = Inr (c', w')"
    and "GetTypeAt (model (vars c)) i = TYPE_SEPARATOR"
  shows "\<exists>mii. w' = w\<lparr>menus := InsertMenuItem (menus w) (menu (vars c)) menu_index mii\<rparr> \<and>
           built_item_ok (model (vars c)) i (copy_masked (fMask mii) mii mii_zero)"
proof -
  let ?mii = "mii_zero\<lparr>fMask := MIIM_FTYPE, fType := MFT_SEPARATOR\<rparr>"
  from assms(1) have "w' = w\<lparr>menus := InsertMenuItem (menus w) (menu (vars c)) menu_index ?mii\<rparr>"
    by (auto simp: AddSeparatorItemAt_def Let_def split: sum.splits)
  moreover have "built_item_ok (model (vars c)) i (copy_masked (fMask ?mii) ?mii mii_zero)"
    using assms(2)
    by (simp add: built_item_ok_def item_identifier_def copy_masked_def mii_zero_def
          MIIM_FTYPE_def MIIM_STATE_def MIIM_ID_def MIIM_SUBMENU_def MIIM_DATA_def MIIM_STRING_def
          MFT_SEPARATOR_def MF_SEPARATOR_def)
  ultimately show ?thesis by blast
qed

lemma AddMenuItemAt_world:
  assumes "AddMenuItemAt mk c w menu_index i = Inr (c', w')"
    and "GetTypeAt (model (vars c)) i \<noteq> TYPE_SEPARATOR"
  shows "\<exists>w0 mii.
           (w0 = w \<or> (\<exists>k r. mk i = Some k \<and> k w = Inr (r, w0))) \<and>
           w' = w0\<lparr>menus := InsertMenuItem (menus w0) (menu (vars c)) menu_index mii\<rparr> \<and>
           built_item_ok (model (vars c)) i (copy_masked (fMask mii) mii mii_zero)"
proof -
  let ?m = "model (vars c)"
  let ?mii0 = "mii_zero\<lparr>fMask := MIIM_FTYPE OR MIIM_ID OR MIIM_DATA,
                 fType := (if \<not> owner_draw (vars c) then MFT_STRING else MFT_OWNERDRAW)\<rparr>"
  let ?L = "label_with_accelerator ?m i (GetLabelAt ?m i)"
  have fin: ?thesis
    if u: "UpdateMenuItemInfoForString c1 mii1 i (GetLabelAt ?m i) = Inr (c', mii2)"
      and v: "vars c1 = vars c"
      and w': "w' = w0\<lparr>menus := InsertMenuItem (menus w0) (menu (vars c')) menu_index mii2\<rparr>"
      and w0: "w0 = w \<or> (\<exists>k r. mk i = Some k \<and> k w = Inr (r, w0))"
      and ok: "built_item_ok ?m i
                 (copy_masked (fMask mii1 OR MIIM_STRING)
                    (mii1\<lparr>fMask := fMask mii1 OR MIIM_STRING, dwTypeData := ?L\<rparr>) mii_zero)"
    for c1 mii1 mii2 w0
  proof -
    from UpdateMenuItemInfoForString_Inr[OF u] v
    have m2: "mii2 = mii1\<lparr>fMask := fMask mii1 OR MIIM_STRING, dwTypeData := ?L\<rparr>"
      and vc: "vars c' = vars c"
      by simp_all
    from ok have "built_item_ok ?m i (copy_masked (fMask mii2) mii2 mii_zero)"
      unfolding m2 by simp
    with w' vc w0 show ?thesis by auto
  qed
  show ?thesis
  proof (cases "GetTypeAt ?m i = TYPE_SUBMENU")
    case True
    from assms(1) True obtain k r w0 its mii2 where
      k: "mk i = Some k" "k w = Inr (r, w0)"
      and u: "UpdateMenuItemInfoForString (NativeMenuWin (vars c) its)
                (?mii0\<lparr>fMask := fMask ?mii0 OR MIIM_SUBMENU, hSubMenu := GetNativeMenu r,
                        dwItemData := Some (this (vars c), i)\<rparr>) i
                (GetLabelAt ?m i) = Inr (c', mii2)"
      and w': "w' = w0\<lparr>menus := InsertMenuItem (menus w0) (menu (vars c')) menu_index mii2\<rparr>"
      by (auto simp: AddMenuItemAt_def Let_def split: sum.splits option.splits)
    show ?thesis
    proof (rule fin[OF u _ w'])
      show "vars (NativeMenuWin (vars c) its) = vars c" by simp
      show "w0 = w \<or> (\<exists>k r. mk i = Some k \<and> k w = Inr (r, w0))" using k by blast
      show "built_item_ok ?m i
                 (copy_masked (fMask (?mii0\<lparr>fMask := fMask ?mii0 OR MIIM_SUBMENU, hSubMenu := GetNativeMenu r,
                        dwItemData := Some (this (vars c), i)\<rparr>) OR MIIM_STRING)
                    ((?mii0\<lparr>fMask := fMask ?mii0 OR MIIM_SUBMENU, hSubMenu := GetNativeMenu r,
                        dwItemData := Some (this (vars c), i)\<rparr>)
                      \<lparr>fMask := fMask (?mii0\<lparr>fMask := fMask ?mii0 OR MIIM_SUBMENU, hSubMenu := GetNativeMenu r,
                        dwItemData := Some (this (vars c), i)\<rparr>) OR MIIM_STRING, dwTypeData := ?L\<rparr>) mii_zero)"
        using True
        by (simp add: built_item_ok_def item_identifier_def copy_masked_def mii_zero_def
          MIIM_FTYPE_def MIIM_STATE_def MIIM_ID_def MIIM_SUBMENU_def MIIM_DATA_def MIIM_STRING_def
          MFT_SEPARATOR_def MF_SEPARATOR_def MFT_STRING_def MFT_OWNERDRAW_def MFT_RADIOCHECK_def)
    qed
  next
    case False
    let ?mii1 = "?mii0\<lparr>fType := (if GetTypeAt ?m i = TYPE_RADIO then fType ?mii0 OR MFT_RADIOCHECK
                                        else fType ?mii0),
                          wID := word_of_int (GetCommandIdAt ?m i),
                          dwItemData := Some (this (vars c), i)\<rparr>"
    from assms(1) False obtain its mii2 where
      u: "UpdateMenuItemInfoForString (NativeMenuWin (vars c) its) ?mii1 i
                (GetLabelAt ?m i) = Inr (c', mii2)"
      and w': "w' = w\<lparr>menus := InsertMenuItem (menus w) (menu (vars c')) menu_index mii2\<rparr>"
      by (auto simp: AddMenuItemAt_def Let_def split: sum.splits option.splits)
    show ?thesis
    proof (rule fin[OF u _ w'])
      show "vars (NativeMenuWin (vars c) its) = vars c" by simp
      show "w = w \<or> (\<exists>k r. mk i = Some k \<and> k w = Inr (r, w))" by simp
      show "built_item_ok ?m i
                 (copy_masked (fMask ?mii1 OR MIIM_STRING)
                    (?mii1\<lparr>fMask := fMask ?mii1 OR MIIM_STRING, dwTypeData := ?L\<rparr>) mii_zero)"
        using False assms(2)
        by (simp add: built_item_ok_def item_identifier_def copy_masked_def mii_zero_def
          MIIM_FTYPE_def MIIM_STATE_def MIIM_ID_def MIIM_SUBMENU_def MIIM_DATA_def MIIM_STRING_def
          MFT_SEPARATOR_def MF_SEPARATOR_def MFT_STRING_def MFT_OWNERDRAW_def MFT_RADIOCHECK_def)
    qed
  qed
qed


lemma InsertMenuItem_other:
  "Some g \<noteq> h \<Longrightarrow> InsertMenuItem ms h i mii g = ms g"
  by (auto simp: InsertMenuItem_def Let_def split: option.splits)

lemma InsertMenuItem_at:
  "ms h = Some m \<Longrightarrow>
   InsertMenuItem ms (Some h) i mii h =
     Some (m\<lparr>menu_items :=
        take (if 0 \<le> i \<and> i < int (length (menu_items m)) then nat i else length (menu_items m))
             (menu_items m) @
        copy_masked (fMask mii) mii mii_zero #
        drop (if 0 \<le> i \<and> i < int (length (menu_items m)) then nat i else length (menu_items m))
             (menu_items m)\<rparr>)"
  by (simp add: InsertMenuItem_def Let_def)

lemma Rebuild_step_insert:
  assumes step: "(if GetTypeAt (model (vars c)) i = TYPE_SEPARATOR
               then AddSeparatorItemAt c w menu_index i
               else AddMenuItemAt mk c w menu_index i) = Inr (c', w')"
    and mkf: "constructs_fresh mk"
  shows "\<exists>w0 mii. frames w w0 \<and>
           w' = w0\<lparr>menus := InsertMenuItem (menus w0) (menu (vars c)) menu_index mii\<rparr> \<and>
           built_item_ok (model (vars c)) i (copy_masked (fMask mii) mii mii_zero)"
proof (cases "GetTypeAt (model (vars c)) i = TYPE_SEPARATOR")
  case True
  with step have "AddSeparatorItemAt c w menu_index i = Inr (c', w')" by simp
  from AddSeparatorItemAt_world[OF this True] frames_refl[of w] show ?thesis by blast
next
  case False
  with step have "AddMenuItemAt mk c w menu_index i = Inr (c', w')" by simp
  from AddMenuItemAt_world[OF this False] obtain w0 mii where
    w0: "w0 = w \<or> (\<exists>k r. mk i = Some k \<and> k w = Inr (r, w0))"
    and w': "w' = w0\<lparr>menus := InsertMenuItem (menus w0) (menu (vars c)) menu_index mii\<rparr>"
    and ok: "built_item_ok (model (vars c)) i (copy_masked (fMask mii) mii mii_zero)"
    by blast
  from w0 mkf have "frames w w0"
    unfolding constructs_fresh_def using frames_refl[of w] by blast
  with w' ok show ?thesis by blast
qed

lemma Rebuild_step_frames:
  assumes step: "(if GetTypeAt (model (vars c)) i = TYPE_SEPARATOR
               then AddSeparatorItemAt c w menu_index i
               else AddMenuItemAt mk c w menu_index i) = Inr (c', w')"
    and mkf: "constructs_fresh mk"
  shows "next_handle w \<le> next_handle w' \<and>
         (\<forall>g < next_handle w. Some g \<noteq> menu (vars c) \<longrightarrow> menus w' g = menus w g)"
proof -
  from Rebuild_step_insert[OF step mkf] obtain w0 mii where
    f: "frames w w0"
    and w': "w' = w0\<lparr>menus := InsertMenuItem (menus w0) (menu (vars c)) menu_index mii\<rparr>"
    by blast
  show ?thesis
    using f unfolding w' frames_def by (simp add: InsertMenuItem_other)
qed

lemma Rebuild_step_vars:
  assumes step: "(if GetTypeAt (model (vars c)) i = TYPE_SEPARATOR
               then AddSeparatorItemAt c w menu_index i
               else AddMenuItemAt mk c w menu_index i) = Inr (c', w')"
  shows "vars c' = vars c"
  using step by (auto split: if_splits dest: AddSeparatorItemAt_vars AddMenuItemAt_vars)

lemma Rebuild_loop_frames:
  assumes "Rebuild_loop mk c w menu_index = Inr (c', w')"
    and "constructs_fresh mk"
  shows "next_handle w \<le> next_handle w' \<and>
         (\<forall>g < next_handle w. Some g \<noteq> menu (vars c) \<longrightarrow> menus w' g = menus w g)"
  using assms
proof (induction mk c w menu_index rule: Rebuild_loop.induct)
  case (1 mk c w menu_index)
  show ?case
  proof (cases "menu_index < first_item_index (vars c) + GetItemCount (model (vars c))")
    case False
    with "1.prems" show ?thesis
      by (auto simp: Rebuild_loop.simps[of mk c w menu_index])
  next
    case True
    let ?idx = "menu_index - first_item_index (vars c)"
    let ?step = "(if GetTypeAt (model (vars c)) ?idx = TYPE_SEPARATOR
               then AddSeparatorItemAt c w menu_index ?idx
               else AddMenuItemAt mk c w menu_index ?idx)"
    from True "1.prems"(1) obtain c1 w1 where
      step: "?step = Inr (c1, w1)" and
      rest: "Rebuild_loop mk c1 w1 (menu_index + 1) = Inr (c', w')"
      by (simp add: Rebuild_loop.simps[of mk c w menu_index] Let_def split: sum.splits prod.splits)
    note v = Rebuild_step_vars[OF step]
    from Rebuild_step_frames[OF step "1.prems"(2)]
    have s1: "next_handle w \<le> next_handle w1"
      and s2: "\<forall>g < next_handle w. Some g \<noteq> menu (vars c) \<longrightarrow> menus w1 g = menus w g"
      by simp_all
    from "1.IH"[OF True refl step refl rest "1.prems"(2)]
    have i1: "next_handle w1 \<le> next_handle w'"
      and i2: "\<forall>g < next_handle w1. Some g \<noteq> menu (vars c1) \<longrightarrow> menus w' g = menus w1 g"
      by simp_all
    show ?thesis
    proof (intro conjI allI impI)
      show "next_handle w \<le> next_handle w'" using s1 i1 by simp
    next
      fix g assume g: "g < next_handle w" "Some g \<noteq> menu (vars c)"
      then have "menus w' g = menus w1 g" using i2 s1 v by simp
      with s2 g show "menus w' g = menus w g" by simp
    qed
  qed
qed

lemma Rebuild_loop_menu:
  assumes "Rebuild_loop mk c w menu_index = Inr (c', w')"
    and "constructs_fresh mk"
    and "menu (vars c) = Some h" and "h < next_handle w" and "menus w h = Some m"
    and "menu_items m = A @ news @ B"
    and "menu_index = first_item_index (vars c) + int (length news)"
    and "(B \<noteq> [] \<and> first_item_index (vars c) = int (length A)) \<or>
         (B = [] \<and> int (length A) \<le> first_item_index (vars c))"
  shows "\<exists>news'. menus w' h = Some (m\<lparr>menu_items := A @ news @ news' @ B\<rparr>) \<and>
           int (length (news @ news')) = max (int (length news)) (GetItemCount (model (vars c))) \<and>
           (\<forall>j < length news'. built_item_ok (model (vars c)) (int (length news + j)) (news' ! j))"
  using assms
proof (induction mk c w menu_index arbitrary: m news rule: Rebuild_loop.induct)
  case (1 mk c w menu_index)
  show ?case
  proof (cases "menu_index < first_item_index (vars c) + GetItemCount (model (vars c))")
    case False
    with "1.prems"(1) have "w' = w" 
      by (auto simp: Rebuild_loop.simps[of mk c w menu_index])
    moreover have "m\<lparr>menu_items := A @ news @ [] @ B\<rparr> = m" using "1.prems"(6) by simp
    ultimately show ?thesis
      using "1.prems"(5,7) False by (intro exI[of _ "[]"]) simp
  next
    case True
    let ?idx = "menu_index - first_item_index (vars c)"
    let ?step = "(if GetTypeAt (model (vars c)) ?idx = TYPE_SEPARATOR
               then AddSeparatorItemAt c w menu_index ?idx
               else AddMenuItemAt mk c w menu_index ?idx)"
    from True "1.prems"(1) obtain c1 w1 where
      step: "?step = Inr (c1, w1)" and
      rest: "Rebuild_loop mk c1 w1 (menu_index + 1) = Inr (c', w')"
      by (simp add: Rebuild_loop.simps[of mk c w menu_index] Let_def split: sum.splits prod.splits)
    note v = Rebuild_step_vars[OF step]
    have idx: "?idx = int (length news)" using "1.prems"(7) by simp
    from Rebuild_step_insert[OF step "1.prems"(2)] obtain w0 mii where
      f: "frames w w0"
      and w1: "w1 = w0\<lparr>menus := InsertMenuItem (menus w0) (menu (vars c)) menu_index mii\<rparr>"
      and ok: "built_item_ok (model (vars c)) ?idx (copy_masked (fMask mii) mii mii_zero)"
      by blast
    let ?it = "copy_masked (fMask mii) mii mii_zero"
    have m0: "menus w0 h = Some m" using f "1.prems"(4,5) by (simp add: frames_def)
    have k: "(if 0 \<le> menu_index \<and> menu_index < int (length (menu_items m)) then nat menu_index
              else length (menu_items m)) = length (A @ news)"
      using "1.prems"(6,7,8) by (cases "B = []") auto
    have tk: "take (length (A @ news)) (menu_items m) = A @ news"
      and dr: "drop (length (A @ news)) (menu_items m) = B"
      using "1.prems"(6) by simp_all
    have m1: "menus w1 h = Some (m\<lparr>menu_items := A @ (news @ [?it]) @ B\<rparr>)"
      unfolding w1 "1.prems"(3) using InsertMenuItem_at[of "menus w0" h m menu_index mii, OF m0]
      unfolding k tk dr by simp
    have nh: "h < next_handle w1" using f "1.prems"(4) unfolding w1 by (simp add: frames_def)
    have IH: "\<exists>news'. menus w' h = Some (m\<lparr>menu_items := A @ (news @ [?it]) @ B\<rparr>
                           \<lparr>menu_items := A @ (news @ [?it]) @ news' @ B\<rparr>) \<and>
           int (length ((news @ [?it]) @ news')) =
             max (int (length (news @ [?it]))) (GetItemCount (model (vars c1))) \<and>
           (\<forall>j < length news'. built_item_ok (model (vars c1)) (int (length (news @ [?it]) + j)) (news' ! j))"
    proof (rule "1.IH"[OF True refl step refl rest "1.prems"(2) _ nh m1])
      show "menu (vars c1) = Some h" using v "1.prems"(3) by simp
      show "menu_items (m\<lparr>menu_items := A @ (news @ [?it]) @ B\<rparr>) = A @ (news @ [?it]) @ B" by simp
      show "menu_index + 1 = first_item_index (vars c1) + int (length (news @ [?it]))"
        using v "1.prems"(7) by simp
      show "(B \<noteq> [] \<and> first_item_index (vars c1) = int (length A)) \<or>
         (B = [] \<and> int (length A) \<le> first_item_index (vars c1))"
        using v "1.prems"(8) by simp
    qed
    then obtain news1 where
      r1: "menus w' h = Some (m\<lparr>menu_items := A @ (news @ [?it]) @ news1 @ B\<rparr>)"
      and r2: "int (length ((news @ [?it]) @ news1)) =
             max (int (length (news @ [?it]))) (GetItemCount (model (vars c)))"
      and r3: "\<forall>j < length news1. built_item_ok (model (vars c)) (int (length (news @ [?it]) + j)) (news1 ! j)"
      unfolding v by auto
    show ?thesis
    proof (intro exI[of _ "?it # news1"] conjI allI impI)
      show "menus w' h = Some (m\<lparr>menu_items := A @ news @ (?it # news1) @ B\<rparr>)"
        using r1 by simp
      show "int (length (news @ ?it # news1)) = max (int (length news)) (GetItemCount (model (vars c)))"
        using r2 True "1.prems"(7) by simp
    next
      fix j assume j: "j < length (?it # news1)"
      show "built_item_ok (model (vars c)) (int (length news + j)) ((?it # news1) ! j)"
      proof (cases j)
        case 0
        then show ?thesis using ok idx by simp
      next
        case (Suc j')
        with j have "j' < length news1" by simp
        with r3 have "built_item_ok (model (vars c)) (int (length (news @ [?it]) + j')) (news1 ! j')"
          by blast
        then show ?thesis using Suc by simp
      qed
    qed
  qed
qed


lemma ResetNativeMenu_popup:
  assumes "\<not> IsWindow w (system_menu_for (vars c))"
  shows "\<exists>w3. ResetNativeMenu c w =
              (NativeMenuWin ((vars c)\<lparr>menu := Some (next_handle w)\<rparr>) (items c), w3) \<and>
           next_handle w3 = next_handle w + 1 \<and>
           menus w3 (next_handle w) =
             Some \<lparr>dwStyle = MNS_NOTIFYBYPOS, dwMenuData = Some (this (vars c)), menu_items = []\<rparr> \<and>
           (\<forall>g. g \<noteq> next_handle w \<longrightarrow> Some g \<noteq> menu (vars c) \<longrightarrow> menus w3 g = menus w g)"
  using assms
  by (cases "menu (vars c)")
     (auto simp: ResetNativeMenu_def Let_def CreatePopupMenu_def SetMenuInfo_def DestroyMenu_def)

lemma Rebuild_with_unfold:
  assumes "ResetNativeMenu c w = (NativeMenuWin ((vars c)\<lparr>menu := hm\<rparr>) (items c), w1)"
  shows "Rebuild_with mk c w =
           Rebuild_loop mk
             (NativeMenuWin ((vars c)\<lparr>menu := hm,
                 owner_draw := (HasIcons (model (vars c)) \<or> owner_draw (vars c)),
                 first_item_index := GetFirstItemIndex (model (vars c)) (menus w1) hm\<rparr>) [])
             w1 (GetFirstItemIndex (model (vars c)) (menus w1) hm)"
  unfolding Rebuild_with_def assms Let_def prod.case by (simp add: GetNativeMenu_def)

lemma Rebuild_loop_vars:
  assumes "Rebuild_loop mk c w menu_index = Inr (c', w')"
    and "int (length (items c)) = menu_index - first_item_index (vars c)"
  shows "vars c' = vars c"
  using Rebuild_loop_items[OF assms] by simp

lemma Rebuild_with_frames:
  assumes r: "Rebuild_with mk c w = Inr (c', w')"
    and mkf: "constructs_fresh mk"
    and "menu (vars c) = None" and "system_menu_for (vars c) = None"
  shows "frames w w'"
proof -
  have nw: "\<not> IsWindow w (system_menu_for (vars c))" using assms(4) by (simp add: IsWindow_def)
  from ResetNativeMenu_popup[OF nw] obtain w3 where
    rs: "ResetNativeMenu c w =
              (NativeMenuWin ((vars c)\<lparr>menu := Some (next_handle w)\<rparr>) (items c), w3)"
    and nh: "next_handle w3 = next_handle w + 1"
    and oth: "\<forall>g. g \<noteq> next_handle w \<longrightarrow> Some g \<noteq> menu (vars c) \<longrightarrow> menus w3 g = menus w g"
    by blast
  from r have loop: "Rebuild_loop mk
             (NativeMenuWin ((vars c)\<lparr>menu := Some (next_handle w),
                 owner_draw := (HasIcons (model (vars c)) \<or> owner_draw (vars c)),
                 first_item_index := GetFirstItemIndex (model (vars c)) (menus w3) (Some (next_handle w))\<rparr>) [])
             w3 (GetFirstItemIndex (model (vars c)) (menus w3) (Some (next_handle w))) = Inr (c', w')"
    unfolding Rebuild_with_unfold[OF rs] .
  from Rebuild_loop_frames[OF loop mkf]
  have a: "next_handle w3 \<le> next_handle w'"
    and b: "\<forall>g < next_handle w3. g \<noteq> next_handle w \<longrightarrow> menus w' g = menus w3 g"
    by auto
  show ?thesis
    unfolding frames_def using a b nh oth assms(3) by auto
qed

lemma new_Menu2_frames: "new_Menu2 m w = Inr (r, w') \<Longrightarrow> frames w w'"
proof (induction m arbitrary: w r w')
  case (MenuModel icons first n types ids labels dynamic accels checked enabled subs)
  let ?m = "MenuModel icons first n types ids labels dynamic accels checked enabled subs"
  let ?mk = "\<lambda>i. map_option new_Menu2 (subs i)"
  have cf: "constructs_fresh ?mk"
    unfolding constructs_fresh_def
  proof (intro allI impI)
    fix i k w0 r0 w0'
    assume a: "?mk i = Some k" and b: "k w0 = Inr (r0, w0')"
    from a obtain s where s: "subs i = Some s" "k = new_Menu2 s" by auto
    have "Some s \<in> range subs" using s(1) by (metis rangeI)
    from MenuModel.IH[OF this, of s w0 r0 w0'] b s(2) show "frames w0 w0'" by simp
  qed
  let ?w1 = "w\<lparr>next_object := next_object w + 1\<rparr>"
  from MenuModel.prems have
    "Rebuild_with ?mk (NativeMenuWin_ctor ?w1 (next_object w) ?m None) ?w1 = Inr (r, w')"
    by (simp add: new_object_def Let_def)
  from Rebuild_with_frames[OF this cf] have "frames ?w1 w'"
    by (simp add: NativeMenuWin_ctor_def)
  then show ?case by (simp add: frames_def)
qed

lemma Rebuild_constructs_fresh:
  "constructs_fresh (\<lambda>i. map_option new_Menu2 (GetSubmenuModelAt m i))"
  unfolding constructs_fresh_def
  by (auto dest: new_Menu2_frames)

lemma Rebuild_constructs_at:
  assumes "submenu_models_present m"
  shows "constructs_at (\<lambda>i. map_option new_Menu2 (GetSubmenuModelAt m i)) m"
  unfolding constructs_at_def
proof (intro allI impI)
  fix i
  assume i: "0 \<le> i \<and> i < GetItemCount m \<and> GetTypeAt m i = TYPE_SUBMENU"
  with assms obtain s where s: "GetSubmenuModelAt m i = Some s" "submenu_models_present s"
    by (cases m) (auto split: option.splits)
  then show "\<exists>k. map_option new_Menu2 (GetSubmenuModelAt m i) = Some k \<and>
             (\<forall>w. \<exists>r. k w = Inr r)"
    using new_Menu2_total by simp
qed

text \<open>The menu that \<open>Rebuild_with\<close> starts from has the items \<open>A @ B\<close>.\<close>

lemma Rebuild_with_menu:
  assumes r: "Rebuild_with mk c w = Inr (c', w')"
    and mkf: "constructs_fresh mk"
    and rs: "ResetNativeMenu c w = (NativeMenuWin ((vars c)\<lparr>menu := Some h\<rparr>) (items c), w1)"
    and h: "h < next_handle w1" "menus w1 h = Some m"
    and AB: "menu_items m = A @ B"
    and pos: "(B \<noteq> [] \<and> GetFirstItemIndex (model (vars c)) (menus w1) (Some h) = int (length A)) \<or>
         (B = [] \<and> int (length A) \<le> GetFirstItemIndex (model (vars c)) (menus w1) (Some h))"
  shows "\<exists>news. vars c' = (vars c)\<lparr>menu := Some h,
                 owner_draw := (HasIcons (model (vars c)) \<or> owner_draw (vars c)),
                 first_item_index := GetFirstItemIndex (model (vars c)) (menus w1) (Some h)\<rparr> \<and>
           menus w' h = Some (m\<lparr>menu_items := A @ news @ B\<rparr>) \<and>
           int (length news) = max 0 (GetItemCount (model (vars c))) \<and>
           (\<forall>j < length news. built_item_ok (model (vars c)) (int j) (news ! j))"
proof -
  let ?f = "GetFirstItemIndex (model (vars c)) (menus w1) (Some h)"
  let ?c4 = "NativeMenuWin ((vars c)\<lparr>menu := Some h,
                 owner_draw := (HasIcons (model (vars c)) \<or> owner_draw (vars c)),
                 first_item_index := ?f\<rparr>) []"
  from r have loop: "Rebuild_loop mk ?c4 w1 ?f = Inr (c', w')"
    unfolding Rebuild_with_unfold[OF rs] .
  have v: "vars c' = vars ?c4"
    by (rule Rebuild_loop_vars[OF loop]) simp
  have "\<exists>news'. menus w' h = Some (m\<lparr>menu_items := A @ [] @ news' @ B\<rparr>) \<and>
           int (length ([] @ news')) = max (int (length ([]::MENUITEMINFO list))) (GetItemCount (model (vars ?c4))) \<and>
           (\<forall>j < length news'. built_item_ok (model (vars ?c4)) (int (length ([]::MENUITEMINFO list) + j)) (news' ! j))"
  proof (rule Rebuild_loop_menu[OF loop mkf _ h(1) h(2)])
    show "menu (vars ?c4) = Some h" by simp
    show "menu_items m = A @ [] @ B" using AB by simp
    show "?f = first_item_index (vars ?c4) + int (length ([]::MENUITEMINFO list))" by simp
    show "(B \<noteq> [] \<and> first_item_index (vars ?c4) = int (length A)) \<or>
         (B = [] \<and> int (length A) \<le> first_item_index (vars ?c4))"
      using pos by simp
  qed
  then obtain news where
    "menus w' h = Some (m\<lparr>menu_items := A @ news @ B\<rparr>)"
    "int (length news) = max 0 (GetItemCount (model (vars c)))"
    "\<forall>j < length news. built_item_ok (model (vars c)) (int j) (news ! j)"
    by auto
  with v show ?thesis by auto
qed

subsection \<open>Resolving a position from an identifier\<close>

lemma GetMenuItemInfo_wID:
  "ms a = Some m \<Longrightarrow> i < length (menu_items m) \<Longrightarrow>
   wID (GetMenuItemInfo ms (Some a) (int i) (mii_zero\<lparr>fMask := MIIM_ID\<rparr>)) = wID (menu_items m ! i)"
  by (simp add: GetMenuItemInfo_def item_at_def copy_masked_def MIIM_ID_def)

lemma GetMenuItemIndexFromWPARAM_loop_found:
  assumes "ms a = Some m" "k < length (menu_items m)" "wID (menu_items m ! k) = w"
    and "\<forall>j. i \<le> j \<and> j < k \<longrightarrow> wID (menu_items m ! j) \<noteq> w" "i \<le> k"
  shows "GetMenuItemIndexFromWPARAM_loop ms (Some a) w (int (length (menu_items m))) (int i) = int k"
  using assms(4,5)
proof (induction "k - i" arbitrary: i)
  case 0
  then have "i = k" by simp
  with assms(1-3) show ?case
    by (simp add: GetMenuItemIndexFromWPARAM_loop.simps[of _ _ _ _ "int k"] GetMenuItemInfo_wID)
next
  case (Suc d)
  then have lt: "i < k" and ne: "wID (menu_items m ! i) \<noteq> w" by auto
  have e: "int (Suc i) = int i + 1" by simp
  have "GetMenuItemIndexFromWPARAM_loop ms (Some a) w (int (length (menu_items m))) (int (Suc i)) = int k"
    using Suc by (intro Suc.hyps(1)) auto
  then show ?case
    unfolding e using assms(1,2) lt ne
    by (simp add: GetMenuItemIndexFromWPARAM_loop.simps[of _ _ _ _ "int i"] GetMenuItemInfo_wID)
qed

lemma GetMenuItemIndexFromWPARAM_loop_not_found:
  assumes "ms a = Some m"
    and "\<forall>j. i \<le> j \<and> j < length (menu_items m) \<longrightarrow> wID (menu_items m ! j) \<noteq> w"
  shows "GetMenuItemIndexFromWPARAM_loop ms (Some a) w (int (length (menu_items m))) (int i) = sint w"
  using assms(2)
proof (induction "length (menu_items m) - i" arbitrary: i)
  case 0
  then show ?case
    by (simp add: GetMenuItemIndexFromWPARAM_loop.simps[of _ _ _ _ "int i"])
next
  case (Suc d)
  then have lt: "i < length (menu_items m)" and ne: "wID (menu_items m ! i) \<noteq> w" by auto
  have e: "int (Suc i) = int i + 1" by simp
  have "GetMenuItemIndexFromWPARAM_loop ms (Some a) w (int (length (menu_items m))) (int (Suc i)) = sint w"
    using Suc by (intro Suc.hyps(1)) auto
  then show ?case
    unfolding e using assms(1) lt ne
    by (simp add: GetMenuItemIndexFromWPARAM_loop.simps[of _ _ _ _ "int i"] GetMenuItemInfo_wID)
qed

lemma sint_uint_small:
  fixes x :: "32 word"
  assumes "uint x < 2 ^ 31"
  shows "sint x = uint x"
proof -
  have "- (2 ^ 31) \<le> uint x" by (rule order_trans[of _ 0]) simp_all
  with assms have "signed_take_bit 31 (uint x) = uint x"
    by (intro signed_take_bit_int_eq_self) simp_all
  then show ?thesis by (simp add: sint_uint)
qed

lemma Rebuild_popup_menu:
  assumes r: "Rebuild c w = Inr (c', w')"
    and nw: "\<not> IsWindow w (system_menu_for (vars c))"
    and f: "\<forall>ms h. 0 \<le> GetFirstItemIndex (model (vars c)) ms h"
  shows "\<exists>m'. GetNativeMenu c' = Some (next_handle w) \<and> menus w' (next_handle w) = Some m' \<and>
           int (length (menu_items m')) = max 0 (GetItemCount (model (vars c))) \<and>
           (\<forall>j < length (menu_items m'). built_item_ok (model (vars c)) (int j) (menu_items m' ! j))"
proof -
  from ResetNativeMenu_popup[OF nw] obtain w3 where
    rs: "ResetNativeMenu c w =
              (NativeMenuWin ((vars c)\<lparr>menu := Some (next_handle w)\<rparr>) (items c), w3)"
    and nh: "next_handle w3 = next_handle w + 1"
    and m: "menus w3 (next_handle w) =
             Some \<lparr>dwStyle = MNS_NOTIFYBYPOS, dwMenuData = Some (this (vars c)), menu_items = []\<rparr>"
    by blast
  let ?m = "\<lparr>dwStyle = MNS_NOTIFYBYPOS, dwMenuData = Some (this (vars c)), menu_items = []\<rparr>"
  have lt: "next_handle w < next_handle w3" using nh by simp
  have AB: "menu_items ?m = [] @ []" by simp
  have pos: "(([]::MENUITEMINFO list) \<noteq> [] \<and>
        GetFirstItemIndex (model (vars c)) (menus w3) (Some (next_handle w)) = int (length ([]::MENUITEMINFO list))) \<or>
       (([]::MENUITEMINFO list) = [] \<and>
        int (length ([]::MENUITEMINFO list)) \<le> GetFirstItemIndex (model (vars c)) (menus w3) (Some (next_handle w)))"
    using f by simp
  from Rebuild_with_menu[OF r[unfolded Rebuild_def] Rebuild_constructs_fresh rs lt m AB pos]
  obtain news where
    v: "menu (vars c') = Some (next_handle w)"
    and m': "menus w' (next_handle w) = Some (?m\<lparr>menu_items := news\<rparr>)"
    and l: "int (length news) = max 0 (GetItemCount (model (vars c)))"
    and ok: "\<forall>j < length news. built_item_ok (model (vars c)) (int j) (news ! j)"
    by auto
  show ?thesis
    using v m' l ok by (intro exI[of _ "?m\<lparr>menu_items := news\<rparr>"]) (simp add: GetNativeMenu_def)
qed

lemma GetMenuItemIndexFromWPARAM_on_wID:
  assumes "ms a = Some m"
  shows "(k < length (menu_items m) \<and> wID (menu_items m ! k) = w \<and>
          (\<forall>j<k. wID (menu_items m ! j) \<noteq> w)
            \<longrightarrow> GetMenuItemIndexFromWPARAM ms (Some a) w = int k) \<and>
         ((\<forall>j<length (menu_items m). wID (menu_items m ! j) \<noteq> w) \<and>
          uint w < GetMenuItemCount ms (Some a) \<and> GetMenuItemCount ms (Some a) < 2 ^ 31
            \<longrightarrow> GetMenuItemIndexFromWPARAM ms (Some a) w = uint w)"
proof (intro conjI impI)
  assume "k < length (menu_items m) \<and> wID (menu_items m ! k) = w \<and>
          (\<forall>j<k. wID (menu_items m ! j) \<noteq> w)"
  then show "GetMenuItemIndexFromWPARAM ms (Some a) w = int k"
    using GetMenuItemIndexFromWPARAM_loop_found[of ms a m k w 0, OF assms] assms
    by (simp add: GetMenuItemIndexFromWPARAM_def GetMenuItemCount_def)
next
  assume h: "(\<forall>j<length (menu_items m). wID (menu_items m ! j) \<noteq> w) \<and>
          uint w < GetMenuItemCount ms (Some a) \<and> GetMenuItemCount ms (Some a) < 2 ^ 31"
  then have "uint w < 2 ^ 31" by linarith
  then have "sint w = uint w" by (rule sint_uint_small)
  then show "GetMenuItemIndexFromWPARAM ms (Some a) w = uint w"
    using GetMenuItemIndexFromWPARAM_loop_not_found[of ms a m 0 w, OF assms] assms h
    by (simp add: GetMenuItemIndexFromWPARAM_def GetMenuItemCount_def)
qed

text \<open>
  C3 (amended). The identifier that the window manager holds for a built item is not
  the command id of every item: \<open>AddSeparatorItemAt\<close> gives a separator no identifier and
  \<open>AddMenuItemAt\<close> gives a submenu item none, so both have the identifier 0; the other
  items have their command id, as a \<open>UINT\<close> (\<open>item_identifier\<close>). For a controller that
  wraps no window, whose model has a count that is not negative, submenu models at its
  submenu items and a first item index that is never negative: \<open>Rebuild\<close> returns, the
  menu then has \<open>GetItemCount\<close> items, the item at position \<open>k\<close> has the identifier
  \<open>item_identifier model k\<close>, and for every value \<open>x\<close>, \<open>GetMenuItemIndexFromWPARAM\<close>
  returns the first position whose identifier is \<open>x\<close>, and \<open>x\<close> unchanged when no
  position has the identifier \<open>x\<close> and \<open>x\<close> lies in \<open>[0, item count)\<close>.
\<close>

theorem GetMenuItemIndexFromWPARAM_after_Rebuild:
  assumes "submenu_models_present (model (vars c))"
    and "0 \<le> GetItemCount (model (vars c))"
    and "\<not> IsWindow w (system_menu_for (vars c))"
    and "\<forall>ms h. 0 \<le> GetFirstItemIndex (model (vars c)) ms h"
  shows "\<exists>c' w'. Rebuild c w = Inr (c', w') \<and>
     GetMenuItemCount (menus w') (GetNativeMenu c') = GetItemCount (model (vars c)) \<and>
     (\<forall>k. 0 \<le> k \<and> k < GetItemCount (model (vars c)) \<longrightarrow>
        wID (GetMenuItemInfo (menus w') (GetNativeMenu c') k (mii_zero\<lparr>fMask := MIIM_ID\<rparr>))
          = item_identifier (model (vars c)) k) \<and>
     (\<forall>x k. 0 \<le> k \<and> k < GetItemCount (model (vars c)) \<and>
            item_identifier (model (vars c)) k = x \<and>
            (\<forall>j. 0 \<le> j \<and> j < k \<longrightarrow> item_identifier (model (vars c)) j \<noteq> x)
          \<longrightarrow> GetMenuItemIndexFromWPARAM (menus w') (GetNativeMenu c') x = k) \<and>
     (\<forall>x. (\<forall>j. 0 \<le> j \<and> j < GetItemCount (model (vars c)) \<longrightarrow>
               item_identifier (model (vars c)) j \<noteq> x) \<and>
          uint x < GetItemCount (model (vars c)) \<and> GetItemCount (model (vars c)) < 2 ^ 31
          \<longrightarrow> GetMenuItemIndexFromWPARAM (menus w') (GetNativeMenu c') x = uint x)"
proof -
  let ?M = "model (vars c)"
  from Rebuild_total[OF assms(1)] obtain c' w' where r: "Rebuild c w = Inr (c', w')"
    by (metis surj_pair)
  from Rebuild_popup_menu[OF r assms(3,4)] assms(2) obtain m' where
    g: "GetNativeMenu c' = Some (next_handle w)"
    and m': "menus w' (next_handle w) = Some m'"
    and l: "int (length (menu_items m')) = GetItemCount ?M"
    and ok: "\<forall>j < length (menu_items m'). built_item_ok ?M (int j) (menu_items m' ! j)"
    by auto
  have id: "wID (menu_items m' ! j) = item_identifier ?M (int j)" if "j < length (menu_items m')" for j
    using ok that by (simp add: built_item_ok_def)
  have cnt: "GetMenuItemCount (menus w') (GetNativeMenu c') = GetItemCount ?M"
    using g m' l by (simp add: GetMenuItemCount_def)
  have info: "wID (GetMenuItemInfo (menus w') (GetNativeMenu c') k (mii_zero\<lparr>fMask := MIIM_ID\<rparr>))
          = item_identifier ?M k" if "0 \<le> k \<and> k < GetItemCount ?M" for k
  proof -
    from that l have k: "nat k < length (menu_items m')" by linarith
    from GetMenuItemInfo_wID[of "menus w'" "next_handle w" m' "nat k", OF m' k] id[OF k] that show ?thesis by (simp add: g)
  qed
  have found: "GetMenuItemIndexFromWPARAM (menus w') (GetNativeMenu c') x = k"
    if h: "0 \<le> k \<and> k < GetItemCount ?M \<and> item_identifier ?M k = x \<and>
            (\<forall>j. 0 \<le> j \<and> j < k \<longrightarrow> item_identifier ?M j \<noteq> x)" for x k
  proof -
    from h l have k: "nat k < length (menu_items m')" by linarith
    have a: "wID (menu_items m' ! nat k) = x" using id[OF k] h by simp
    have b: "\<forall>j<nat k. wID (menu_items m' ! j) \<noteq> x"
    proof (intro allI impI)
      fix j assume j: "j < nat k"
      then have jl: "j < length (menu_items m')" using k by simp
      have "0 \<le> int j \<and> int j < k" using j by linarith
      with id[OF jl] h show "wID (menu_items m' ! j) \<noteq> x" by simp
    qed
    from GetMenuItemIndexFromWPARAM_on_wID[of "menus w'" "next_handle w" m' "nat k" x, OF m'] k a b h
    show ?thesis by (simp add: g)
  qed
  have notfound: "GetMenuItemIndexFromWPARAM (menus w') (GetNativeMenu c') x = uint x"
    if h: "(\<forall>j. 0 \<le> j \<and> j < GetItemCount ?M \<longrightarrow> item_identifier ?M j \<noteq> x) \<and>
          uint x < GetItemCount ?M \<and> GetItemCount ?M < 2 ^ 31" for x
  proof -
    have b: "\<forall>j<length (menu_items m'). wID (menu_items m' ! j) \<noteq> x"
    proof (intro allI impI)
      fix j assume j: "j < length (menu_items m')"
      have "0 \<le> int j \<and> int j < GetItemCount ?M" using j l by linarith
      with id[OF j] h show "wID (menu_items m' ! j) \<noteq> x" by simp
    qed
    from GetMenuItemIndexFromWPARAM_on_wID[of "menus w'" "next_handle w" m' 0 x, OF m'] b h cnt
    show ?thesis by (simp add: g)
  qed
  show ?thesis
    using r cnt info found notfound by (intro exI[of _ c'] exI[of _ w'] conjI allI impI) blast+
qed

theorem GetMenuItemIndexFromWPARAM_after_Rebuild_witness:
  "submenu_models_present (model (vars (NativeMenuWin_ctor World_init 0 model_ids_5_9_9 None))) \<and>
   0 \<le> GetItemCount (model (vars (NativeMenuWin_ctor World_init 0 model_ids_5_9_9 None))) \<and>
   \<not> IsWindow World_init (system_menu_for (vars (NativeMenuWin_ctor World_init 0 model_ids_5_9_9 None))) \<and>
   (\<forall>ms h. 0 \<le> GetFirstItemIndex (model (vars (NativeMenuWin_ctor World_init 0 model_ids_5_9_9 None))) ms h) \<and>
   (\<exists>c' w'. Rebuild (NativeMenuWin_ctor World_init 0 model_ids_5_9_9 None) World_init = Inr (c', w') \<and>
      GetMenuItemCount (menus w') (GetNativeMenu c') = 3 \<and>
      GetMenuItemIndexFromWPARAM (menus w') (GetNativeMenu c') 5 = 0 \<and>
      GetMenuItemIndexFromWPARAM (menus w') (GetNativeMenu c') 0 = 1 \<and>
      GetMenuItemIndexFromWPARAM (menus w') (GetNativeMenu c') 2 = 2)"
proof -
  let ?c = "NativeMenuWin_ctor World_init 0 model_ids_5_9_9 None"
  let ?M = "model_ids_5_9_9"
  have m: "model (vars ?c) = ?M" by (simp add: NativeMenuWin_ctor_def)
  have h1: "submenu_models_present (model (vars ?c))"
    unfolding m by (auto simp: model_ids_5_9_9_def model_B_def)
  have h2: "0 \<le> GetItemCount (model (vars ?c))"
    unfolding m by (simp add: model_ids_5_9_9_def)
  have h3: "\<not> IsWindow World_init (system_menu_for (vars ?c))"
    by (simp add: NativeMenuWin_ctor_def IsWindow_def)
  have h4: "\<forall>ms h. 0 \<le> GetFirstItemIndex (model (vars ?c)) ms h"
    unfolding m by (simp add: model_ids_5_9_9_def MenuModel_GetFirstItemIndex_def)
  have n: "GetItemCount ?M = 3" by (simp add: model_ids_5_9_9_def)
  have i0: "item_identifier ?M 0 = 5" and i1: "item_identifier ?M 1 = 0"
    by (simp_all add: item_identifier_def model_ids_5_9_9_def)
  have i2: "item_identifier ?M j \<noteq> 2" for j
    by (simp add: item_identifier_def model_ids_5_9_9_def)
  have i5: "0 \<le> j \<and> j < 1 \<longrightarrow> item_identifier ?M j \<noteq> 0" for j
    by (auto simp: item_identifier_def model_ids_5_9_9_def)
  from GetMenuItemIndexFromWPARAM_after_Rebuild[OF h1 h2 h3 h4] obtain c' w' where
    r: "Rebuild ?c World_init = Inr (c', w')"
    and cnt: "GetMenuItemCount (menus w') (GetNativeMenu c') = GetItemCount ?M"
    and found: "\<forall>x k. 0 \<le> k \<and> k < GetItemCount ?M \<and> item_identifier ?M k = x \<and>
            (\<forall>j. 0 \<le> j \<and> j < k \<longrightarrow> item_identifier ?M j \<noteq> x)
          \<longrightarrow> GetMenuItemIndexFromWPARAM (menus w') (GetNativeMenu c') x = k"
    and notfound: "\<forall>x. (\<forall>j. 0 \<le> j \<and> j < GetItemCount ?M \<longrightarrow> item_identifier ?M j \<noteq> x) \<and>
          uint x < GetItemCount ?M \<and> GetItemCount ?M < 2 ^ 31
          \<longrightarrow> GetMenuItemIndexFromWPARAM (menus w') (GetNativeMenu c') x = uint x"
    unfolding m by blast
  have a: "GetMenuItemIndexFromWPARAM (menus w') (GetNativeMenu c') 5 = 0"
  proof -
    have "0 \<le> (0::int) \<and> 0 < GetItemCount ?M \<and> item_identifier ?M 0 = 5 \<and>
            (\<forall>j. 0 \<le> j \<and> j < 0 \<longrightarrow> item_identifier ?M j \<noteq> 5)"
      using n i0 by auto
    with found show ?thesis by blast
  qed
  have b: "GetMenuItemIndexFromWPARAM (menus w') (GetNativeMenu c') 0 = 1"
  proof -
    have "0 \<le> (1::int) \<and> 1 < GetItemCount ?M \<and> item_identifier ?M 1 = 0 \<and>
            (\<forall>j. 0 \<le> j \<and> j < 1 \<longrightarrow> item_identifier ?M j \<noteq> 0)"
      using n i1 i5 by auto
    with found show ?thesis by blast
  qed
  have c: "GetMenuItemIndexFromWPARAM (menus w') (GetNativeMenu c') 2 = 2"
  proof -
    have "(\<forall>j. 0 \<le> j \<and> j < GetItemCount ?M \<longrightarrow> item_identifier ?M j \<noteq> 2) \<and>
          uint (2::32 word) < GetItemCount ?M \<and> GetItemCount ?M < 2 ^ 31"
      using n i2 by auto
    with notfound have "GetMenuItemIndexFromWPARAM (menus w') (GetNativeMenu c') 2 = uint (2::32 word)"
      by blast
    then show ?thesis by simp
  qed
  have cnt3: "GetMenuItemCount (menus w') (GetNativeMenu c') = 3" using cnt n by simp
  show ?thesis
    by (intro conjI exI[of _ c'] exI[of _ w']) (rule h1 h2 h3 h4 r cnt3 a b c)+
qed

text \<open>
  C3 as stated fails at separators and submenu items. The model has the items Command
  (command id 5), Separator (command id 9) and Submenu (command id 9). In the menu that
  \<open>Rebuild\<close> makes of it, the value 9 is the command id of position 1, and the result is
  9, not 1; no item has the command id 0, and 0 lies in \<open>[0, 3)\<close>, and the result is 1,
  not 0.
\<close>

theorem GetMenuItemIndexFromWPARAM_command_id_counterexample:
  "map (GetCommandIdAt model_ids_5_9_9) [0, 1, 2] = [5, 9, 9] \<and>
   (case Rebuild (NativeMenuWin_ctor World_init 0 model_ids_5_9_9 None) World_init of
      Inl e \<Rightarrow> False
    | Inr (c', w') \<Rightarrow>
        GetMenuItemCount (menus w') (GetNativeMenu c') = 3 \<and>
        GetMenuItemIndexFromWPARAM (menus w') (GetNativeMenu c') 9 = 9 \<and>
        GetMenuItemIndexFromWPARAM (menus w') (GetNativeMenu c') 0 = 1)"
  by (simp add: eval_defs model_ids_5_9_9_def GetMenuItemIndexFromWPARAM_def
        GetMenuItemIndexFromWPARAM_loop.simps GetMenuItemCount_def GetMenuItemInfo_def item_at_def)


subsection \<open>The first item index of a system menu\<close>

lemma ResetNativeMenu_system:
  assumes "IsWindow w (system_menu_for (vars c))"
    and "system_menu_live w (system_menu_for (vars c))"
  shows "\<exists>h w1 m. ResetNativeMenu c w = (NativeMenuWin ((vars c)\<lparr>menu := Some h\<rparr>) (items c), w1) \<and>
           h < next_handle w1 \<and> menus w1 h = Some m"
proof -
  from assms(1) obtain a win where a: "system_menu_for (vars c) = Some a" "windows w a = Some win"
    by (auto simp: IsWindow_def split: option.splits)
  show ?thesis
  proof (cases "menu (vars c)")
    case (Some old)
    then have "ResetNativeMenu c w =
        (NativeMenuWin ((vars c)\<lparr>menu := Some (next_handle w)\<rparr>) (items c),
         snd (GetSystemMenu (Some a) False (snd (GetSystemMenu (Some a) True w))))"
      using assms(1) a
      by (simp add: ResetNativeMenu_def GetSystemMenu_def DestroyMenu_def Let_def split: option.splits)
    moreover have "next_handle w <
        next_handle (snd (GetSystemMenu (Some a) False (snd (GetSystemMenu (Some a) True w))))"
      using a by (simp add: GetSystemMenu_def DestroyMenu_def split: option.splits)
    moreover have "\<exists>m. menus (snd (GetSystemMenu (Some a) False (snd (GetSystemMenu (Some a) True w))))
                      (next_handle w) = Some m"
      using a by (simp add: GetSystemMenu_def DestroyMenu_def split: option.splits)
    ultimately show ?thesis by blast
  next
    case None
    then have mn: "menu (vars c) = None" .
    show ?thesis
    proof (cases "window_menu win")
      case None
      with mn assms(1) a show ?thesis
        by (auto simp: ResetNativeMenu_def GetSystemMenu_def Let_def)
    next
      case (Some h0)
      with assms(2) a have "h0 < next_handle w" "menus w h0 \<noteq> None"
        by (simp_all add: system_menu_live_def)
      with mn Some assms(1) a show ?thesis
        by (auto simp: ResetNativeMenu_def GetSystemMenu_def Let_def)
    qed
  qed
qed

lemma pre_existing_eq:
  "ResetNativeMenu c w = (NativeMenuWin ((vars c)\<lparr>menu := Some h\<rparr>) (items c), w1) \<Longrightarrow>
   menus w1 h = Some m \<Longrightarrow> pre_existing c w = menu_items m"
  by (simp add: pre_existing_def GetNativeMenu_def)

text \<open>
  C9. \<open>SystemMenuModel::GetFirstItemIndex\<close> is \<open>max(0, GetMenuItemCount(native_menu) - 1)\<close>
  for every handle, and never negative. For a controller that wraps the system menu of
  a window, with a model that has this first item index (and submenu models at its
  submenu items): \<open>Rebuild\<close> returns; \<open>first_item_index\<close> is then that value for the
  entries \<open>pre_existing\<close> that the system menu has when \<open>Rebuild\<close> obtains it, and is not
  negative; and the menu then consists of these entries but the last, then one new item
  for every item of the model, in the model's order, then the last of these entries.
  When the system menu has no entry, the new items are all it has.
\<close>

theorem Rebuild_inserts_before_last_pre_existing:
  assumes "IsWindow w (system_menu_for (vars c))"
    and "system_menu_live w (system_menu_for (vars c))"
    and "GetFirstItemIndex (model (vars c)) = SystemMenuModel_GetFirstItemIndex"
    and "submenu_models_present (model (vars c))"
  shows "SystemMenuModel_GetFirstItemIndex ms hm = max 0 (GetMenuItemCount ms hm - 1) \<and>
     0 \<le> SystemMenuModel_GetFirstItemIndex ms hm \<and>
     (\<exists>c' w' h m' news.
        Rebuild c w = Inr (c', w') \<and>
        first_item_index (vars c') = max 0 (int (length (pre_existing c w)) - 1) \<and>
        0 \<le> first_item_index (vars c') \<and>
        GetNativeMenu c' = Some h \<and> menus w' h = Some m' \<and>
        menu_items m' =
          (if pre_existing c w = [] then news
           else butlast (pre_existing c w) @ news @ [last (pre_existing c w)]) \<and>
        int (length news) = max 0 (GetItemCount (model (vars c))) \<and>
        (\<forall>j < length news. built_item_ok (model (vars c)) (int j) (news ! j)))"
proof (intro conjI)
  show "SystemMenuModel_GetFirstItemIndex ms hm = max 0 (GetMenuItemCount ms hm - 1)"
    by (simp add: SystemMenuModel_GetFirstItemIndex_def)
  show "0 \<le> SystemMenuModel_GetFirstItemIndex ms hm"
    by (simp add: SystemMenuModel_GetFirstItemIndex_def)
  from ResetNativeMenu_system[OF assms(1,2)] obtain h w1 m where
    rs: "ResetNativeMenu c w = (NativeMenuWin ((vars c)\<lparr>menu := Some h\<rparr>) (items c), w1)"
    and lt: "h < next_handle w1" and m: "menus w1 h = Some m"
    by blast
  let ?pre = "menu_items m"
  note pre = pre_existing_eq[OF rs m]
  from Rebuild_total[OF assms(4)] obtain c' w' where r: "Rebuild c w = Inr (c', w')"
    by (metis surj_pair)
  let ?f = "GetFirstItemIndex (model (vars c)) (menus w1) (Some h)"
  have f: "?f = max 0 (int (length ?pre) - 1)"
    unfolding assms(3) using m by (simp add: SystemMenuModel_GetFirstItemIndex_def GetMenuItemCount_def)
  let ?A = "butlast ?pre"
  let ?B = "if ?pre = [] then [] else [last ?pre]"
  have AB: "?pre = ?A @ ?B" by simp
  have pos: "(?B \<noteq> [] \<and> ?f = int (length ?A)) \<or> (?B = [] \<and> int (length ?A) \<le> ?f)"
    unfolding f by (cases "menu_items m") auto
  from Rebuild_with_menu[OF r[unfolded Rebuild_def] Rebuild_constructs_fresh rs lt m AB pos]
  obtain news where
    v: "vars c' = (vars c)\<lparr>menu := Some h,
                 owner_draw := (HasIcons (model (vars c)) \<or> owner_draw (vars c)),
                 first_item_index := ?f\<rparr>"
    and m': "menus w' h = Some (m\<lparr>menu_items := ?A @ news @ ?B\<rparr>)"
    and l: "int (length news) = max 0 (GetItemCount (model (vars c)))"
    and ok: "\<forall>j < length news. built_item_ok (model (vars c)) (int j) (news ! j)"
    by blast
  show "\<exists>c' w' h m' news.
        Rebuild c w = Inr (c', w') \<and>
        first_item_index (vars c') = max 0 (int (length (pre_existing c w)) - 1) \<and>
        0 \<le> first_item_index (vars c') \<and>
        GetNativeMenu c' = Some h \<and> menus w' h = Some m' \<and>
        menu_items m' =
          (if pre_existing c w = [] then news
           else butlast (pre_existing c w) @ news @ [last (pre_existing c w)]) \<and>
        int (length news) = max 0 (GetItemCount (model (vars c))) \<and>
        (\<forall>j < length news. built_item_ok (model (vars c)) (int j) (news ! j))"
  proof (intro exI[of _ c'] exI[of _ w'] exI[of _ h] exI[of _ "m\<lparr>menu_items := ?A @ news @ ?B\<rparr>"]
           exI[of _ news] conjI)
    show "Rebuild c w = Inr (c', w')" by (rule r)
    show "first_item_index (vars c') = max 0 (int (length (pre_existing c w)) - 1)"
      unfolding pre v using f by simp
    show "0 \<le> first_item_index (vars c')" unfolding v using f by simp
    show "GetNativeMenu c' = Some h" unfolding GetNativeMenu_def v by simp
    show "menus w' h = Some (m\<lparr>menu_items := ?A @ news @ ?B\<rparr>)" by (rule m')
    show "menu_items (m\<lparr>menu_items := ?A @ news @ ?B\<rparr>) =
          (if pre_existing c w = [] then news
           else butlast (pre_existing c w) @ news @ [last (pre_existing c w)])"
      unfolding pre by simp
    show "int (length news) = max 0 (GetItemCount (model (vars c)))" by (rule l)
    show "\<forall>j < length news. built_item_ok (model (vars c)) (int j) (news ! j)" by (rule ok)
  qed
qed

lemma list3: "length xs = 3 \<Longrightarrow> xs = [xs ! 0, xs ! 1, xs ! 2]"
  by (auto simp: numeral_3_eq_3 length_Suc_conv)

theorem Rebuild_inserts_before_last_pre_existing_witness:
  "IsWindow World_with_window
     (system_menu_for (vars (NativeMenuWin_ctor World_with_window 0 system_model_ids_5_9_9 (Some 0)))) \<and>
   system_menu_live World_with_window
     (system_menu_for (vars (NativeMenuWin_ctor World_with_window 0 system_model_ids_5_9_9 (Some 0)))) \<and>
   GetFirstItemIndex (model (vars (NativeMenuWin_ctor World_with_window 0 system_model_ids_5_9_9 (Some 0))))
     = SystemMenuModel_GetFirstItemIndex \<and>
   submenu_models_present
     (model (vars (NativeMenuWin_ctor World_with_window 0 system_model_ids_5_9_9 (Some 0)))) \<and>
   map wID (pre_existing (NativeMenuWin_ctor World_with_window 0 system_model_ids_5_9_9 (Some 0))
              World_with_window) = [0xF120, 0xF060] \<and>
   (\<exists>c' w' h m'.
      Rebuild (NativeMenuWin_ctor World_with_window 0 system_model_ids_5_9_9 (Some 0)) World_with_window
        = Inr (c', w') \<and>
      first_item_index (vars c') = 1 \<and>
      GetNativeMenu c' = Some h \<and> menus w' h = Some m' \<and>
      map wID (menu_items m') = [0xF120, 5, 0, 0, 0xF060] \<and>
      map dwTypeData (menu_items m') = [[], ''A'', [], ''B'', []])"
proof -
  let ?c = "NativeMenuWin_ctor World_with_window 0 system_model_ids_5_9_9 (Some 0)"
  let ?W = "World_with_window"
  let ?M = "system_model_ids_5_9_9"
  have m: "model (vars ?c) = ?M" and s: "system_menu_for (vars ?c) = Some 0"
    by (simp_all add: NativeMenuWin_ctor_def)
  have h1: "IsWindow ?W (system_menu_for (vars ?c))"
    unfolding s by (simp add: IsWindow_def World_with_window_def World_init_def)
  have h2: "system_menu_live ?W (system_menu_for (vars ?c))"
    unfolding s by (simp add: system_menu_live_def World_with_window_def World_init_def)
  have h3: "GetFirstItemIndex (model (vars ?c)) = SystemMenuModel_GetFirstItemIndex"
    unfolding m by (simp add: system_model_ids_5_9_9_def)
  have h4: "submenu_models_present (model (vars ?c))"
    unfolding m by (auto simp: system_model_ids_5_9_9_def model_B_def)
  have pre: "pre_existing ?c ?W = [mii_zero\<lparr>wID := 0xF120\<rparr>, mii_zero\<lparr>wID := 0xF060\<rparr>]"
    by (simp add: pre_existing_def ResetNativeMenu_def GetSystemMenu_def IsWindow_def Let_def
          NativeMenuWin_ctor_def World_with_window_def World_init_def window_menu_two_def
          GetNativeMenu_def)
  have h5: "map wID (pre_existing ?c ?W) = [0xF120, 0xF060]"
    unfolding pre by simp
  from Rebuild_inserts_before_last_pre_existing[OF h1 h2 h3 h4, of "\<lambda>_. None" None]
  obtain c' w' h m' news where
    r: "Rebuild ?c ?W = Inr (c', w')"
    and f: "first_item_index (vars c') = max 0 (int (length (pre_existing ?c ?W)) - 1)"
    and g: "GetNativeMenu c' = Some h" and m': "menus w' h = Some m'"
    and its: "menu_items m' =
          (if pre_existing ?c ?W = [] then news
           else butlast (pre_existing ?c ?W) @ news @ [last (pre_existing ?c ?W)])"
    and l: "int (length news) = max 0 (GetItemCount (model (vars ?c)))"
    and ok: "\<forall>j < length news. built_item_ok (model (vars ?c)) (int j) (news ! j)"
    by blast
  have l3: "length news = 3" using l unfolding m by (simp add: system_model_ids_5_9_9_def)
  note n3 = list3[OF l3]
  have ok0: "built_item_ok ?M 0 (news ! 0)" and ok1: "built_item_ok ?M 1 (news ! 1)"
    and ok2: "built_item_ok ?M 2 (news ! 2)"
    using ok[rule_format, of 0] ok[rule_format, of 1] ok[rule_format, of 2] l3
    unfolding m by simp_all
  have w0: "wID (news ! 0) = 5" "dwTypeData (news ! 0) = ''A''"
    using ok0 by (simp_all add: built_item_ok_def item_identifier_def system_model_ids_5_9_9_def
                     label_with_accelerator_def)
  have w1: "wID (news ! 1) = 0" "dwTypeData (news ! 1) = []"
    using ok1 by (simp_all add: built_item_ok_def item_identifier_def system_model_ids_5_9_9_def
                     label_with_accelerator_def)
  have w2: "wID (news ! 2) = 0" "dwTypeData (news ! 2) = ''B''"
    using ok2 by (simp_all add: built_item_ok_def item_identifier_def system_model_ids_5_9_9_def
                     label_with_accelerator_def)
  have f1: "first_item_index (vars c') = 1" using f unfolding pre by simp
  have its': "menu_items m' = [mii_zero\<lparr>wID := 0xF120\<rparr>, news ! 0, news ! 1, news ! 2,
                                mii_zero\<lparr>wID := 0xF060\<rparr>]"
    using its n3 unfolding pre by simp
  have ids: "map wID (menu_items m') = [0xF120, 5, 0, 0, 0xF060]"
    unfolding its' using w0 w1 w2 by simp
  have lbls: "map dwTypeData (menu_items m') = [[], ''A'', [], ''B'', []]"
    unfolding its' using w0 w1 w2 by (simp add: mii_zero_def)
  show ?thesis
    by (intro conjI exI[of _ c'] exI[of _ w'] exI[of _ h] exI[of _ m'])
       (rule h1 h2 h3 h4 h5 r f1 g m' ids lbls)+
qed

subsection \<open>Labels\<close>

lemma SetMenuItemLabels_other:
  assumes "SetMenuItemLabels c w calls = Inr (c', w')"
    and "\<forall>(menu_index, j, lbl) \<in> set calls. j \<noteq> i" "0 \<le> i"
  shows "items c' ! nat i = items c ! nat i"
  using assms
proof (induction calls arbitrary: c w)
  case Nil
  then show ?case by simp
next
  case (Cons call calls)
  obtain mi j l where call: "call = (mi, j, l)" by (cases call)
  from Cons.prems(1) call obtain c1 w1 where
    s: "SetMenuItemLabel c w mi j l = Inr (c1, w1)" and r: "SetMenuItemLabels c1 w1 calls = Inr (c', w')"
    by (auto split: sum.splits)
  from Cons.prems(2) call have ne: "j \<noteq> i" and rest: "\<forall>(menu_index, j, lbl) \<in> set calls. j \<noteq> i"
    by auto
  from Cons.IH[OF r rest Cons.prems(3)] SetMenuItemLabel_other[OF s ne Cons.prems(3)]
  show ?case by simp
qed

text \<open>
  C4 (amended). After \<open>SetMenuItemLabel(menu_index, model_index, label)\<close> on an item that
  is not a separator, with \<open>model_index\<close> a position of the registry, the label stored
  in the registry entry at \<open>model_index\<close> is the label that was passed in when the item
  is a submenu or the model provides no accelerator for it, and the label followed by a
  tab character and the shortcut text otherwise; it is still that text after later
  \<open>SetMenuItemLabel\<close> calls for other model indices.
\<close>

theorem SetMenuItemLabel_stores_formatted_label:
  assumes "0 \<le> i" and "i < int (length (items c))"
    and "\<not> IsSeparatorItemAt c w menu_index"
    and "\<forall>(menu_index', j, lbl') \<in> set calls. j \<noteq> i"
  shows "\<exists>c1 w1. SetMenuItemLabel c w menu_index i lbl = Inr (c1, w1) \<and>
           label (items c1 ! nat i) = label_with_accelerator (model (vars c)) i lbl \<and>
           (\<forall>c2 w2. SetMenuItemLabels c1 w1 calls = Inr (c2, w2) \<longrightarrow>
              label (items c2 ! nat i) = label_with_accelerator (model (vars c)) i lbl)"
proof -
  from UpdateMenuItemInfoForString_total[OF assms(1,2), of mii_zero lbl] assms(3)
  obtain c1 w1 where s: "SetMenuItemLabel c w menu_index i lbl = Inr (c1, w1)"
    by (auto simp: SetMenuItemLabel_def)
  from SetMenuItemLabel_Inr[OF s assms(3)]
  have l: "label (items c1 ! nat i) = label_with_accelerator (model (vars c)) i lbl" by simp
  have "label (items c2 ! nat i) = label_with_accelerator (model (vars c)) i lbl"
    if "SetMenuItemLabels c1 w1 calls = Inr (c2, w2)" for c2 w2
    using SetMenuItemLabels_other[OF that assms(4,1)] l by simp
  with s l show ?thesis by blast
qed


theorem SetMenuItemLabel_stores_formatted_label_witness:
  "(0::int) \<le> 0 \<and> 0 < int (length (items (fst built_A_sep_B))) \<and>
   \<not> IsSeparatorItemAt (fst built_A_sep_B) (snd built_A_sep_B) 0 \<and>
   (2::int) \<noteq> 0 \<and>
   (\<exists>c1 w1. SetMenuItemLabel (fst built_A_sep_B) (snd built_A_sep_B) 0 0 ''X'' = Inr (c1, w1) \<and>
      label (items c1 ! nat 0) = ''X'' @ [CHR 0x09] @ ''Ctrl+A'' \<and>
      (\<forall>c2 w2. SetMenuItemLabels c1 w1 [(2, 2, ''Z'')] = Inr (c2, w2) \<longrightarrow>
         label (items c2 ! nat 0) = ''X'' @ [CHR 0x09] @ ''Ctrl+A''))"
proof -
  let ?c = "fst built_A_sep_B" and ?w = "snd built_A_sep_B"
  have h1: "(0::int) \<le> 0" by simp
  have h2: "0 < int (length (items ?c))" by (simp add: built_A_sep_B_length)
  have h3: "\<not> IsSeparatorItemAt ?c ?w 0" by (rule built_A_sep_B_facts)
  have h4: "\<forall>(menu_index', j, lbl') \<in> set [(2, 2, ''Z'')]. j \<noteq> (0::int)" by simp
  have l: "label_with_accelerator (model (vars ?c)) 0 ''X'' = ''X'' @ [CHR 0x09] @ ''Ctrl+A''"
    by (simp add: label_with_accelerator_def built_A_sep_B_facts(4) model_A_sep_B_def)
  have h5: "(2::int) \<noteq> 0" by simp
  from SetMenuItemLabel_stores_formatted_label[OF h1 h2 h3 h4, of "''X''"]
  obtain c1 w1 where
    "SetMenuItemLabel ?c ?w 0 0 ''X'' = Inr (c1, w1) \<and>
      label (items c1 ! nat 0) = ''X'' @ [CHR 0x09] @ ''Ctrl+A'' \<and>
      (\<forall>c2 w2. SetMenuItemLabels c1 w1 [(2, 2, ''Z'')] = Inr (c2, w2) \<longrightarrow>
         label (items c2 ! nat 0) = ''X'' @ [CHR 0x09] @ ''Ctrl+A'')"
    unfolding l by blast
  then have "\<exists>c1 w1. SetMenuItemLabel ?c ?w 0 0 ''X'' = Inr (c1, w1) \<and>
      label (items c1 ! nat 0) = ''X'' @ [CHR 0x09] @ ''Ctrl+A'' \<and>
      (\<forall>c2 w2. SetMenuItemLabels c1 w1 [(2, 2, ''Z'')] = Inr (c2, w2) \<longrightarrow>
         label (items c2 ! nat 0) = ''X'' @ [CHR 0x09] @ ''Ctrl+A'')"
    by (intro exI)
  with h1 h2 h3 h5 show ?thesis by (intro conjI)
qed

text \<open>
  C4 as stated fails for an item with an accelerator: after \<open>Rebuild\<close> of the fixture,
  \<open>SetMenuItemLabel(0, 0, "X")\<close> on the command item (not a separator) stores "X",
  a tab and "Ctrl+A", not the label "X" that was passed in.
\<close>

theorem SetMenuItemLabel_passed_label_counterexample:
  "stored_label 0 (and_then (Rebuild menu_A_sep_B World_init) (relabel_item 0 0 ''X''))
     = Some (''X'' @ [CHR 0x09] @ ''Ctrl+A'')"
proof -
  let ?c = "fst built_A_sep_B" and ?w = "snd built_A_sep_B"
  have i: "(0::int) \<le> 0" "0 < int (length (items ?c))"
    by (simp_all add: built_A_sep_B_length)
  have n: "\<not> IsSeparatorItemAt ?c ?w 0" by (rule built_A_sep_B_facts)
  from UpdateMenuItemInfoForString_total[OF i, of mii_zero "''X''"] n
  obtain c1 w1 where s: "SetMenuItemLabel ?c ?w 0 0 ''X'' = Inr (c1, w1)"
    by (auto simp: SetMenuItemLabel_def)
  from SetMenuItemLabel_Inr[OF s n]
  have "label (items c1 ! 0) = ''X'' @ [CHR 0x09] @ ''Ctrl+A''" "length (items c1) = 3"
    by (simp_all add: label_with_accelerator_def built_A_sep_B_facts(4) model_A_sep_B_def
          built_A_sep_B_length)
  moreover from this have "items c1 \<noteq> []" by auto
  ultimately show ?thesis using s
    by (simp add: stored_label_def and_then_def relabel_item_def built_A_sep_B_facts(1))
qed


lemma or_and_absorb: "(x OR m) AND m = (m::32 word)"
  by (rule bit_eqI) (auto simp: bit_simps)

lemma AddMenuItemAt_inserts_label:
  assumes "AddMenuItemAt mk c w menu_index i = Inr (c', w')"
  shows "label (items c' ! nat i)
           = label_with_accelerator (model (vars c)) i (GetLabelAt (model (vars c)) i) \<and>
         (\<exists>w1 mii. w' = w1\<lparr>menus := InsertMenuItem (menus w1) (menu (vars c)) menu_index mii\<rparr> \<and>
            fMask mii AND MIIM_STRING \<noteq> 0 \<and>
            dwTypeData mii
              = label_with_accelerator (model (vars c)) i (GetLabelAt (model (vars c)) i))"
proof -
  from assms obtain c1 mii1 w1 mii2 where
    u: "UpdateMenuItemInfoForString c1 mii1 i (GetLabelAt (model (vars c)) i) = Inr (c', mii2)"
    and v: "vars c1 = vars c"
    and w': "w' = w1\<lparr>menus := InsertMenuItem (menus w1) (menu (vars c')) menu_index mii2\<rparr>"
    by (auto simp: AddMenuItemAt_def Let_def split: sum.splits if_splits option.splits)
  have s: "(fMask mii1 OR MIIM_STRING) AND MIIM_STRING \<noteq> 0"
    by (simp add: or_and_absorb) (simp add: MIIM_STRING_def)
  from UpdateMenuItemInfoForString_Inr[OF u] v
  have l: "label (items c' ! nat i)
           = label_with_accelerator (model (vars c)) i (GetLabelAt (model (vars c)) i)"
    and m2: "mii2 = mii1\<lparr>fMask := fMask mii1 OR MIIM_STRING,
                    dwTypeData := label_with_accelerator (model (vars c)) i
                                    (GetLabelAt (model (vars c)) i)\<rparr>"
    and vc: "vars c' = vars c"
    by simp_all
  have "w' = w1\<lparr>menus := InsertMenuItem (menus w1) (menu (vars c)) menu_index mii2\<rparr>"
    using w' vc by simp
  moreover have "fMask mii2 AND MIIM_STRING \<noteq> 0" using m2 s by simp
  moreover have "dwTypeData mii2
      = label_with_accelerator (model (vars c)) i (GetLabelAt (model (vars c)) i)"
    using m2 by simp
  ultimately show ?thesis using l by blast
qed

lemma SetMenuItemInfo_item_at:
  "item_at (SetMenuItemInfo ms h i mii) h i = Some it \<Longrightarrow>
   \<exists>old. item_at ms h i = Some old \<and> it = copy_masked (fMask mii) mii old"
  by (auto simp: item_at_def SetMenuItemInfo_def split: option.splits if_splits)

text \<open>
  C10. The label of an item with its accelerator: for an item that is not a submenu and
  for which the model provides an accelerator it is the model's label, a tab character
  and the shortcut text; for a submenu item it is exactly the model's label. That label
  is what is stored when an item is built (in the registry after \<open>Rebuild\<close>, in the
  registry and in the \<^verbatim>\<open>MENUITEMINFO\<close> given to \<^verbatim>\<open>InsertMenuItem\<close> by \<open>AddMenuItemAt\<close>),
  and when it is relabeled (in the registry and in the item of the window manager
  after \<open>SetMenuItemLabel\<close>).
\<close>

theorem stored_label_is_label_with_accelerator:
  "(GetTypeAt m i \<noteq> TYPE_SUBMENU \<and> GetAcceleratorAt m i = Some a
      \<longrightarrow> label_with_accelerator m i lbl = lbl @ [CHR 0x09] @ GetShortcutText a) \<and>
   (GetTypeAt m i = TYPE_SUBMENU \<longrightarrow> label_with_accelerator m i lbl = lbl) \<and>
   (Rebuild c w = Inr (c', w') \<and> j < length (items c') \<and>
    GetTypeAt (model (vars c)) (int j) \<noteq> TYPE_SEPARATOR
      \<longrightarrow> label (items c' ! j)
            = label_with_accelerator (model (vars c)) (int j) (GetLabelAt (model (vars c)) (int j))) \<and>
   (AddMenuItemAt mk c w menu_index i = Inr (c', w')
      \<longrightarrow> label (items c' ! nat i)
            = label_with_accelerator (model (vars c)) i (GetLabelAt (model (vars c)) i) \<and>
          (\<exists>w1 mii. w' = w1\<lparr>menus := InsertMenuItem (menus w1) (menu (vars c)) menu_index mii\<rparr> \<and>
             fMask mii AND MIIM_STRING \<noteq> 0 \<and>
             dwTypeData mii
               = label_with_accelerator (model (vars c)) i (GetLabelAt (model (vars c)) i))) \<and>
   (\<not> IsSeparatorItemAt c w menu_index \<and> SetMenuItemLabel c w menu_index i lbl = Inr (c', w')
      \<longrightarrow> label (items c' ! nat i) = label_with_accelerator (model (vars c)) i lbl \<and>
          (\<forall>it. item_at (menus w') (menu (vars c)) menu_index = Some it
             \<longrightarrow> dwTypeData it = label_with_accelerator (model (vars c)) i lbl))"
proof (intro conjI impI)
  assume "GetTypeAt m i \<noteq> TYPE_SUBMENU \<and> GetAcceleratorAt m i = Some a"
  then show "label_with_accelerator m i lbl = lbl @ [CHR 0x09] @ GetShortcutText a"
    by (simp add: label_with_accelerator_def)
next
  assume "GetTypeAt m i = TYPE_SUBMENU"
  then show "label_with_accelerator m i lbl = lbl"
    by (simp add: label_with_accelerator_def)
next
  assume h: "Rebuild c w = Inr (c', w') \<and> j < length (items c') \<and>
    GetTypeAt (model (vars c)) (int j) \<noteq> TYPE_SEPARATOR"
  then have "Rebuild_with (\<lambda>i. map_option new_Menu2 (GetSubmenuModelAt (model (vars c)) i)) c w
      = Inr (c', w')"
    by (simp add: Rebuild_def)
  from Rebuild_with_items[OF this] h
  show "label (items c' ! j)
            = label_with_accelerator (model (vars c)) (int j) (GetLabelAt (model (vars c)) (int j))"
    by (simp add: entry_ok_def)
next
  assume h: "AddMenuItemAt mk c w menu_index i = Inr (c', w')"
  from AddMenuItemAt_inserts_label[OF h]
  show "label (items c' ! nat i)
            = label_with_accelerator (model (vars c)) i (GetLabelAt (model (vars c)) i)"
    and "\<exists>w1 mii. w' = w1\<lparr>menus := InsertMenuItem (menus w1) (menu (vars c)) menu_index mii\<rparr> \<and>
             fMask mii AND MIIM_STRING \<noteq> 0 \<and>
             dwTypeData mii
               = label_with_accelerator (model (vars c)) i (GetLabelAt (model (vars c)) i)"
    by simp_all
next
  assume h: "\<not> IsSeparatorItemAt c w menu_index \<and> SetMenuItemLabel c w menu_index i lbl = Inr (c', w')"
  then have s: "SetMenuItemLabel c w menu_index i lbl = Inr (c', w')"
    and n: "\<not> IsSeparatorItemAt c w menu_index" by simp_all
  note r = SetMenuItemLabel_Inr[OF s n]
  from r show "label (items c' ! nat i) = label_with_accelerator (model (vars c)) i lbl" by simp
  show "\<forall>it. item_at (menus w') (menu (vars c)) menu_index = Some it
             \<longrightarrow> dwTypeData it = label_with_accelerator (model (vars c)) i lbl"
  proof (intro allI impI)
    fix it assume "item_at (menus w') (menu (vars c)) menu_index = Some it"
    with r have "item_at (SetMenuItemInfo (menus w) (menu (vars c)) menu_index
                 (mii_zero\<lparr>fMask := MIIM_STRING,
                     dwTypeData := label_with_accelerator (model (vars c)) i lbl\<rparr>))
                 (menu (vars c)) menu_index = Some it"
      by simp
    from SetMenuItemInfo_item_at[OF this]
    show "dwTypeData it = label_with_accelerator (model (vars c)) i lbl"
      by (auto simp: copy_masked_def MIIM_STRING_def)
  qed
qed


theorem stored_label_is_label_with_accelerator_witness:
  "GetTypeAt model_A_sep_B 0 \<noteq> TYPE_SUBMENU \<and>
   GetAcceleratorAt model_A_sep_B 0 = Some (Accelerator ''Ctrl+A'') \<and>
   label_with_accelerator model_A_sep_B 0 ''X'' = ''X'' @ [CHR 0x09] @ ''Ctrl+A'' \<and>
   GetTypeAt model_A_sep_B 2 = TYPE_SUBMENU \<and>
   label_with_accelerator model_A_sep_B 2 ''Q'' = ''Q'' \<and>
   Rebuild menu_A_sep_B World_init = Inr built_A_sep_B \<and>
   0 < length (items (fst built_A_sep_B)) \<and>
   GetTypeAt (model (vars menu_A_sep_B)) (int 0) \<noteq> TYPE_SEPARATOR \<and>
   label (items (fst built_A_sep_B) ! 0) = ''A'' @ [CHR 0x09] @ ''Ctrl+A'' \<and>
   (\<exists>c' w'. AddMenuItemAt no_Menu2 (fst reset_A_sep_B) (snd reset_A_sep_B) 0 0 = Inr (c', w') \<and>
      label (items c' ! nat 0) = ''A'' @ [CHR 0x09] @ ''Ctrl+A'') \<and>
   \<not> IsSeparatorItemAt (fst built_A_sep_B) (snd built_A_sep_B) 2 \<and>
   (\<exists>c' w'. SetMenuItemLabel (fst built_A_sep_B) (snd built_A_sep_B) 2 2 ''Q'' = Inr (c', w') \<and>
      label (items c' ! nat 2) = ''Q'' \<and>
      (\<forall>it. item_at (menus w') (menu (vars (fst built_A_sep_B))) 2 = Some it
         \<longrightarrow> dwTypeData it = ''Q''))"
proof -
  let ?c = "fst built_A_sep_B" and ?w = "snd built_A_sep_B"
  have m: "model (vars menu_A_sep_B) = model_A_sep_B"
    by (simp add: menu_A_sep_B_def NativeMenuWin_ctor_def)
  have a1: "GetTypeAt model_A_sep_B 0 \<noteq> TYPE_SUBMENU \<and>
            GetAcceleratorAt model_A_sep_B 0 = Some (Accelerator ''Ctrl+A'')"
    by (simp add: model_A_sep_B_def)
  have a2: "GetTypeAt model_A_sep_B 2 = TYPE_SUBMENU" by (simp add: model_A_sep_B_def)
  have r: "Rebuild menu_A_sep_B World_init = Inr (?c, ?w)" by (simp add: built_A_sep_B_facts(1))
  have a3: "Rebuild menu_A_sep_B World_init = Inr (?c, ?w) \<and> 0 < length (items ?c) \<and>
            GetTypeAt (model (vars menu_A_sep_B)) (int 0) \<noteq> TYPE_SEPARATOR"
    using r by (simp add: built_A_sep_B_length m model_A_sep_B_def)
  have "\<exists>c' w'. AddMenuItemAt no_Menu2 (fst reset_A_sep_B) (snd reset_A_sep_B) 0 0 = Inr (c', w')"
    by (simp add: reset_A_sep_B_def menu_A_sep_B_def no_Menu2_def eval_defs)
  then obtain ca wa where
    a4: "AddMenuItemAt no_Menu2 (fst reset_A_sep_B) (snd reset_A_sep_B) 0 0 = Inr (ca, wa)"
    by blast
  have mr: "model (vars (fst reset_A_sep_B)) = model_A_sep_B"
    by (simp add: reset_A_sep_B_def menu_A_sep_B_def eval_defs)
  have n: "\<not> IsSeparatorItemAt ?c ?w 2" by (rule built_A_sep_B_facts)
  have i2: "(0::int) \<le> 2" "2 < int (length (items ?c))" by (simp_all add: built_A_sep_B_length)
  from UpdateMenuItemInfoForString_total[OF i2, of mii_zero "''Q''"] n
  obtain cb wb where s: "SetMenuItemLabel ?c ?w 2 2 ''Q'' = Inr (cb, wb)"
    by (auto simp: SetMenuItemLabel_def)
  note t1 = stored_label_is_label_with_accelerator
              [of model_A_sep_B 0 "Accelerator ''Ctrl+A''" "''X''" menu_A_sep_B World_init ?c ?w 0]
  note t2 = stored_label_is_label_with_accelerator[of model_A_sep_B 2 _ "''Q''"]
  note t4 = stored_label_is_label_with_accelerator
              [of _ 0 _ _ "fst reset_A_sep_B" "snd reset_A_sep_B" ca wa _ no_Menu2 0]
  note t5 = stored_label_is_label_with_accelerator[of _ 2 _ "''Q''" ?c ?w cb wb _ _ 2]
  have l1: "label_with_accelerator model_A_sep_B 0 ''X'' = ''X'' @ [CHR 0x09] @ ''Ctrl+A''"
    using t1 a1 by simp
  have l2: "label_with_accelerator model_A_sep_B 2 ''Q'' = ''Q''"
    using t2 a2 by blast
  have l3: "label (items ?c ! 0) = ''A'' @ [CHR 0x09] @ ''Ctrl+A''"
    using t1 a3 a1 unfolding m by (simp add: model_A_sep_B_def label_with_accelerator_def)
  have l4: "label (items ca ! nat 0) = ''A'' @ [CHR 0x09] @ ''Ctrl+A''"
    using t4 a4 unfolding mr by (simp add: model_A_sep_B_def label_with_accelerator_def)
  have l5: "label (items cb ! nat 2) = ''Q'' \<and>
      (\<forall>it. item_at (menus wb) (menu (vars ?c)) 2 = Some it \<longrightarrow> dwTypeData it = ''Q'')"
    using t5 n s l2 unfolding built_A_sep_B_facts(4) by simp
  from a1 l1 a2 l2 a3 l3 a4 l4 n s l5 show ?thesis
    unfolding built_A_sep_B_facts(1) by (simp del: nat_numeral)
qed

subsection \<open>Updating the states: what a call changes\<close>

lemma SetMenuItemLabel_total:
  "0 \<le> i \<Longrightarrow> i < int (length (items c)) \<Longrightarrow> \<exists>r. SetMenuItemLabel c w menu_index i lbl = Inr r"
  using UpdateMenuItemInfoForString_total[of i c mii_zero lbl]
  by (auto simp: SetMenuItemLabel_def)

lemma SetMenuItemLabel_shape:
  "SetMenuItemLabel c w menu_index i lbl = Inr (c', w') \<Longrightarrow>
   vars c' = vars c \<and> length (items c') = length (items c)"
proof (cases "IsSeparatorItemAt c w menu_index")
  case True
  then show "SetMenuItemLabel c w menu_index i lbl = Inr (c', w') \<Longrightarrow> ?thesis"
    by (simp add: SetMenuItemLabel_def)
next
  case False
  then show "SetMenuItemLabel c w menu_index i lbl = Inr (c', w') \<Longrightarrow> ?thesis"
    using SetMenuItemLabel_Inr[of c w menu_index i lbl c' w'] by simp
qed

lemma set_submenu_shape:
  "vars (set_submenu c i sm) = vars c \<and> length (items (set_submenu c i sm)) = length (items c)"
  by (simp add: set_submenu_def)

lemma UpdateStates_shape:
  "UpdateStates c w = Inr (c', w') \<Longrightarrow> vars c' = vars c \<and> length (items c') = length (items c)"
  "UpdateStates_from c rest i w = Inr (c', w') \<Longrightarrow>
     vars c' = vars c \<and> length (items c') = length (items c)"
proof (induction c w and c rest i w arbitrary: c' w' and c' w' rule: UpdateStates_UpdateStates_from.induct)
  case (1 v its w)
  then show ?case by simp
next
  case (2 c model_idx w)
  then show ?case by simp
next
  case (3 c l sub nmw mi rest model_idx w)
  let ?menu_index = "model_idx + first_item_index (vars c)"
  let ?w1 = "SetMenuItemState c w ?menu_index (IsEnabledAt (model (vars c)) model_idx)
                 (IsItemCheckedAt (model (vars c)) model_idx) False"
  let ?lab = "if IsItemDynamicAt (model (vars c)) model_idx
               then SetMenuItemLabel c ?w1 ?menu_index model_idx (GetLabelAt (model (vars c)) model_idx)
               else Inr (c, ?w1)"
  from "3.prems" obtain c2 w2 where lab: "?lab = Inr (c2, w2)"
    by (auto simp: Let_def split: sum.splits)
  have s2: "vars c2 = vars c \<and> length (items c2) = length (items c)"
    using lab by (auto split: if_splits dest: SetMenuItemLabel_shape)
  show ?case
  proof (cases sub)
    case None
    with "3.prems" lab have "UpdateStates_from c2 rest (model_idx + 1) w2 = Inr (c', w')"
      by (simp add: Let_def)
    from "3.IH"(1)[OF refl refl lab refl None this] s2 show ?thesis by simp
  next
    case (Some sm)
    with "3.prems" lab obtain sm' w3 where u: "UpdateStates sm w2 = Inr (sm', w3)"
      and r: "UpdateStates_from (set_submenu c2 model_idx sm') rest (model_idx + 1) w3 = Inr (c', w')"
      by (auto simp: Let_def split: sum.splits)
    from "3.IH"(3)[OF refl refl lab refl Some u refl r] s2 set_submenu_shape[of c2 model_idx sm']
    show ?thesis by simp
  qed
qed

lemma UpdateStates_total:
  "\<exists>r. UpdateStates c w = Inr r"
  "int (length (items c)) = i + int (length rest) \<Longrightarrow> 0 \<le> i \<Longrightarrow>
     \<exists>r. UpdateStates_from c rest i w = Inr r"
proof (induction c w and c rest i w rule: UpdateStates_UpdateStates_from.induct)
  case (1 v its w)
  then show ?case by simp
next
  case (2 c model_idx w)
  then show ?case by simp
next
  case (3 c l sub nmw mi rest model_idx w)
  let ?menu_index = "model_idx + first_item_index (vars c)"
  let ?w1 = "SetMenuItemState c w ?menu_index (IsEnabledAt (model (vars c)) model_idx)
                 (IsItemCheckedAt (model (vars c)) model_idx) False"
  let ?lab = "if IsItemDynamicAt (model (vars c)) model_idx
               then SetMenuItemLabel c ?w1 ?menu_index model_idx (GetLabelAt (model (vars c)) model_idx)
               else Inr (c, ?w1)"
  have rng: "0 \<le> model_idx" "model_idx < int (length (items c))" using "3.prems" by simp_all
  from SetMenuItemLabel_total[OF rng] obtain c2 w2 where lab: "?lab = Inr (c2, w2)"
    by (cases "IsItemDynamicAt (model (vars c)) model_idx") (auto, metis surj_pair)
  have s2: "vars c2 = vars c \<and> length (items c2) = length (items c)"
    using lab by (auto split: if_splits dest: SetMenuItemLabel_shape)
  have len2: "int (length (items c2)) = model_idx + 1 + int (length rest)"
    using s2 "3.prems" by simp
  show ?case
  proof (cases sub)
    case None
    from "3.IH"(1)[OF refl refl lab refl None len2] rng obtain r where
      "UpdateStates_from c2 rest (model_idx + 1) w2 = Inr r" by auto
    with lab None show ?thesis by (simp add: Let_def)
  next
    case (Some sm)
    from "3.IH"(2)[OF refl refl lab refl Some] obtain sm' w3 where
      u: "UpdateStates sm w2 = Inr (sm', w3)" by (metis surj_pair)
    have len3: "int (length (items (set_submenu c2 model_idx sm'))) = model_idx + 1 + int (length rest)"
      using len2 set_submenu_shape[of c2 model_idx sm'] by simp
    from "3.IH"(3)[OF refl refl lab refl Some u refl len3] rng obtain r where
      "UpdateStates_from (set_submenu c2 model_idx sm') rest (model_idx + 1) w3 = Inr r" by auto
    with lab Some u show ?thesis by (simp add: Let_def)
  qed
qed


definition only_menus :: "World \<Rightarrow> World \<Rightarrow> bool" where
  "only_menus w w' = (\<exists>ms. w' = w\<lparr>menus := ms\<rparr>)"

lemma only_menus_refl: "only_menus w w"
  unfolding only_menus_def by (rule exI[of _ "menus w"]) simp

lemma only_menus_trans: "only_menus w w1 \<Longrightarrow> only_menus w1 w2 \<Longrightarrow> only_menus w w2"
  unfolding only_menus_def by auto

lemma only_menus_update: "only_menus w (w\<lparr>menus := ms\<rparr>)"
  unfolding only_menus_def by blast

lemma only_menus_fields:
  "only_menus w w' \<Longrightarrow>
   trace w' = trace w \<and> posted_tasks w' = posted_tasks w \<and>
   open_native_menu_win w' = open_native_menu_win w \<and> next_handle w' = next_handle w \<and>
   windows w' = windows w"
  unfolding only_menus_def by auto

lemma SetMenuItemState_only_menus: "only_menus w (SetMenuItemState c w i e ch d)"
  by (simp add: SetMenuItemState_def Let_def only_menus_refl only_menus_update)

lemma SetMenuItemLabel_only_menus:
  "SetMenuItemLabel c w i j l = Inr (c', w') \<Longrightarrow> only_menus w w'"
  by (auto simp: SetMenuItemLabel_def only_menus_refl only_menus_update split: if_splits sum.splits)

lemma UpdateStates_world:
  "UpdateStates c w = Inr (c', w') \<Longrightarrow> only_menus w w'"
  "UpdateStates_from c rest i w = Inr (c', w') \<Longrightarrow> only_menus w w'"
proof (induction c w and c rest i w arbitrary: c' w' and c' w' rule: UpdateStates_UpdateStates_from.induct)
  case (1 v its w)
  then show ?case by simp
next
  case (2 c model_idx w)
  then show ?case by (simp add: only_menus_refl)
next
  case (3 c l sub nmw mi rest model_idx w)
  let ?menu_index = "model_idx + first_item_index (vars c)"
  let ?w1 = "SetMenuItemState c w ?menu_index (IsEnabledAt (model (vars c)) model_idx)
                 (IsItemCheckedAt (model (vars c)) model_idx) False"
  let ?lab = "if IsItemDynamicAt (model (vars c)) model_idx
               then SetMenuItemLabel c ?w1 ?menu_index model_idx (GetLabelAt (model (vars c)) model_idx)
               else Inr (c, ?w1)"
  from "3.prems" obtain c2 w2 where lab: "?lab = Inr (c2, w2)"
    by (auto simp: Let_def split: sum.splits)
  have w1: "only_menus w ?w1" by (rule SetMenuItemState_only_menus)
  have "only_menus ?w1 w2"
  proof (cases "IsItemDynamicAt (model (vars c)) model_idx")
    case True
    with lab show ?thesis by (simp add: SetMenuItemLabel_only_menus)
  next
    case False
    with lab have "w2 = ?w1" by auto
    then show ?thesis by (simp only: only_menus_refl)
  qed
  with w1 have w2: "only_menus w w2" by (rule only_menus_trans)
  show ?case
  proof (cases sub)
    case None
    with "3.prems" lab have "UpdateStates_from c2 rest (model_idx + 1) w2 = Inr (c', w')"
      by (simp add: Let_def)
    from "3.IH"(1)[OF refl refl lab refl None this] w2 show ?thesis
      by (rule only_menus_trans[rotated])
  next
    case (Some sm)
    with "3.prems" lab obtain sm' w3 where u: "UpdateStates sm w2 = Inr (sm', w3)"
      and r: "UpdateStates_from (set_submenu c2 model_idx sm') rest (model_idx + 1) w3 = Inr (c', w')"
      by (auto simp: Let_def split: sum.splits)
    from "3.IH"(2)[OF refl refl lab refl Some u] w2 have w3: "only_menus w w3"
      by (rule only_menus_trans[rotated])
    from "3.IH"(3)[OF refl refl lab refl Some u refl r] w3 show ?thesis
      by (rule only_menus_trans[rotated])
  qed
qed


subsection \<open>Running the menu\<close>

lemma MenuMessageHook_Inr:
  assumes "MenuMessageHook c w msg view = Inr (c', w')"
  shows "menu_action (vars c') = (case key_action msg view of None \<Rightarrow> menu_action (vars c) | Some b \<Rightarrow> b) \<and>
         open_native_menu_win w' = open_native_menu_win w \<and>
         open_native_menu_win w = Some (this (vars c)) \<and>
         this (vars c') = this (vars c) \<and> owner_draw (vars c') = owner_draw (vars c) \<and>
         host_window (vars c') = host_window (vars c) \<and> items c' = items c \<and>
         model (vars c') = model (vars c)"
proof -
  have f: "open_native_menu_win (fold (\<lambda>l. notify (OnMenuOpened l)) ls w0) = open_native_menu_win w0"
    for ls w0
    by (induction ls arbitrary: w0) (simp_all add: notify_def)
  from assms show ?thesis
    by (auto simp: MenuMessageHook_def key_action_def Let_def notify_def f
          split: option.splits if_splits prod.splits)
qed

lemma MenuHostWindowProc_Inr:
  "MenuHostWindowProc host m w = Inr w' \<Longrightarrow> open_native_menu_win w' = open_native_menu_win w"
  by (auto simp: MenuHostWindowProc_def ProcessWindowMessage_def OnMenuCommand_def OnMenuSelect_def
        PostTask_def notify_def Let_def
        split: option.splits Message.splits sum.splits if_splits)

lemma modal_loop_Inr:
  "modal_loop c w evs = Inr (c', w') \<Longrightarrow>
   menu_action (vars c') = last_navigation evs (menu_action (vars c)) \<and>
   open_native_menu_win w' = open_native_menu_win w \<and>
   this (vars c') = this (vars c) \<and> owner_draw (vars c') = owner_draw (vars c)"
proof (induction c w evs rule: modal_loop.induct)
  case (1 c w)
  then show ?case by simp
next
  case (2 c w msg view evs)
  from "2.prems" obtain c1 w1 where h: "MenuMessageHook c w msg view = Inr (c1, w1)"
    and r: "modal_loop c1 w1 evs = Inr (c', w')"
    by (auto split: sum.splits)
  from "2.IH"[OF h refl r] MenuMessageHook_Inr[OF h] show ?case by simp
next
  case (3 c w m evs)
  from "3.prems" obtain w1 where h: "MenuHostWindowProc (host_window (vars c)) m w = Inr w1"
    and r: "modal_loop c w1 evs = Inr (c', w')"
    by (auto split: sum.splits)
  from "3.IH"[OF h r] MenuHostWindowProc_Inr[OF h] show ?case by simp
qed

lemma RunMenuAt_enter_Inr:
  "\<exists>c4 w3. RunMenuAt_enter c w = Inr (c4, w3) \<and>
     menu_action (vars c4) = MENU_ACTION_NONE \<and>
     open_native_menu_win w3 = Some (this (vars c4)) \<and>
     this (vars c4) = this (vars c) \<and> owner_draw (vars c4) = owner_draw (vars c)"
proof -
  obtain c1 w1 where h: "CreateHostWindow c w = (c1, w1)" by (metis surj_pair)
  then have v1: "this (vars c1) = this (vars c)" "owner_draw (vars c1) = owner_draw (vars c)"
    by (auto simp: CreateHostWindow_def split: if_splits)
  from UpdateStates_total(1)[of c1 w1] obtain c2 w2 where u: "UpdateStates c1 w1 = Inr (c2, w2)"
    by (metis surj_pair)
  from UpdateStates_shape(1)[OF u] v1 h u show ?thesis
    by (simp add: RunMenuAt_enter_def Let_def)
qed


text \<open>
  C8. Every call of \<open>RunMenuAt\<close> reaches \<^verbatim>\<open>TrackPopupMenuEx\<close> (the modal loop) in a state
  where \<open>menu_action\<close> is \<^verbatim>\<open>MENU_ACTION_NONE\<close> and \<open>open_native_menu_win\<close> is this controller,
  and is that call followed by the rest of \<open>RunMenuAt\<close>. When \<open>RunMenuAt\<close> returns,
  \<open>open_native_menu_win\<close> is null again and \<open>GetMenuAction\<close> gives the action resolved during
  the run: the navigation of the last call of the hook that resolved one, and
  \<^verbatim>\<open>MENU_ACTION_NONE\<close> when none did.
\<close>

theorem RunMenuAt_action_and_open_instance:
  "(\<exists>c4 w3. RunMenuAt_enter c w = Inr (c4, w3) \<and>
      menu_action (vars c4) = MENU_ACTION_NONE \<and>
      open_native_menu_win w3 = Some (this (vars c)) \<and>
      RunMenuAt c w point alignment evs =
        and_then (TrackPopupMenuEx c4 w3
                    (TPM_LEFTBUTTON OR TPM_RECURSE OR GetAlignmentFlags alignment) point evs)
          (\<lambda>cw. Inr (RunMenuAt_leave (fst cw) (snd cw)))) \<and>
   (RunMenuAt c w point alignment evs = Inr (c', w') \<longrightarrow>
      open_native_menu_win w' = None \<and>
      GetMenuAction c' = last_navigation evs MENU_ACTION_NONE)"
proof (intro conjI impI)
  from RunMenuAt_enter_Inr[of c w] obtain c4 w3 where e: "RunMenuAt_enter c w = Inr (c4, w3)"
    and a: "menu_action (vars c4) = MENU_ACTION_NONE"
    and o: "open_native_menu_win w3 = Some (this (vars c))"
    by auto
  have "RunMenuAt c w point alignment evs =
        and_then (TrackPopupMenuEx c4 w3
                    (TPM_LEFTBUTTON OR TPM_RECURSE OR GetAlignmentFlags alignment) point evs)
          (\<lambda>cw. Inr (RunMenuAt_leave (fst cw) (snd cw)))"
    by (simp add: RunMenuAt_def e and_then_def Let_def split: sum.splits)
  with e a o
  show "\<exists>c4 w3. RunMenuAt_enter c w = Inr (c4, w3) \<and>
      menu_action (vars c4) = MENU_ACTION_NONE \<and>
      open_native_menu_win w3 = Some (this (vars c)) \<and>
      RunMenuAt c w point alignment evs =
        and_then (TrackPopupMenuEx c4 w3
                    (TPM_LEFTBUTTON OR TPM_RECURSE OR GetAlignmentFlags alignment) point evs)
          (\<lambda>cw. Inr (RunMenuAt_leave (fst cw) (snd cw)))"
    by blast
next
  assume r: "RunMenuAt c w point alignment evs = Inr (c', w')"
  from RunMenuAt_enter_Inr[of c w] obtain c4 w3 where e: "RunMenuAt_enter c w = Inr (c4, w3)"
    and a: "menu_action (vars c4) = MENU_ACTION_NONE" by blast
  from r e obtain c5 w5 where
    l: "modal_loop c4 (notify (TrackPopup (menu (vars c4))
           (TPM_LEFTBUTTON OR TPM_RECURSE OR GetAlignmentFlags alignment) point) w3) evs = Inr (c5, w5)"
    and f: "(c', w') = RunMenuAt_leave c5 w5"
    by (auto simp: RunMenuAt_def TrackPopupMenuEx_def Let_def split: sum.splits)
  from modal_loop_Inr[OF l] a f
  show "open_native_menu_win w' = None" "GetMenuAction c' = last_navigation evs MENU_ACTION_NONE"
    by (simp_all add: RunMenuAt_leave_def GetMenuAction_def)
qed


lemmas run_defs = RunMenuAt_def RunMenuAt_enter_def RunMenuAt_leave_def CreateHostWindow_def
  TrackPopupMenuEx_def MenuMessageHook_def MenuHostWindowProc_def ProcessWindowMessage_def
  OnMenuCommand_def OnMenuSelect_def OnMenuClosed_def PostTask_def notify_def
  GetMenuInfo_dwMenuData_def GetAlignmentFlags_def ALIGN_TOPLEFT_def ALIGN_TOPRIGHT_def
  TPM_LEFTBUTTON_def TPM_RECURSE_def TPM_TOPALIGN_def TPM_LEFTALIGN_def TPM_RIGHTALIGN_def
  WM_KEYDOWN_def VK_LEFT_def VK_RIGHT_def MF_HILITE_def MF_POPUP_def
  SetMenuItemState_def SetMenuItemLabel_def SetMenuItemInfo_def IsSeparatorItemAt_def
  GetMenuItemInfo_def item_at_def MF_SEPARATOR_def MFS_ENABLED_def MFS_DISABLED_def
  MFS_CHECKED_def MFS_DEFAULT_def set_submenu_def


lemma run_A_sep_B_eval:
  "case Rebuild menu_A_sep_B World_init of
     Inl e \<Rightarrow> False
   | Inr (c, w) \<Rightarrow>
       (case RunMenuAt c w (10, 20) ALIGN_TOPLEFT events_right_command_exit of
          Inl e \<Rightarrow> False
        | Inr (c', w') \<Rightarrow>
            trace w' = [TrackPopup (Some 1) 1 (10, 20), EndMenu, ActivatedAt 0 0] \<and>
            posted_tasks w' = [Run_OnMenuClosed host_of_A_sep_B])"
  by (simp add: menu_A_sep_B_def eval_defs run_defs events_right_command_exit_def host_of_A_sep_B_def)

lemma run_A_sep_B_facts:
  "\<exists>c' w'. RunMenuAt (fst built_A_sep_B) (snd built_A_sep_B) (10, 20) ALIGN_TOPLEFT
              events_right_command_exit = Inr (c', w') \<and>
     trace w' = [TrackPopup (Some 1) 1 (10, 20), EndMenu, ActivatedAt 0 0] \<and>
     posted_tasks w' = [Run_OnMenuClosed host_of_A_sep_B]"
proof -
  have r: "Rebuild menu_A_sep_B World_init = Inr (fst built_A_sep_B, snd built_A_sep_B)"
    using built_A_sep_B_facts(1) by simp
  have "case RunMenuAt (fst built_A_sep_B) (snd built_A_sep_B) (10, 20) ALIGN_TOPLEFT
               events_right_command_exit of
          Inl e \<Rightarrow> False
        | Inr (c', w') \<Rightarrow>
            trace w' = [TrackPopup (Some 1) 1 (10, 20), EndMenu, ActivatedAt 0 0] \<and>
            posted_tasks w' = [Run_OnMenuClosed host_of_A_sep_B]"
    using run_A_sep_B_eval unfolding r by (simp add: split_beta)
  then show ?thesis
    by (cases "RunMenuAt (fst built_A_sep_B) (snd built_A_sep_B) (10, 20) ALIGN_TOPLEFT
               events_right_command_exit") auto
qed


theorem RunMenuAt_action_and_open_instance_witness:
  "(\<exists>c4 w3. RunMenuAt_enter (fst built_A_sep_B) (snd built_A_sep_B) = Inr (c4, w3) \<and>
      menu_action (vars c4) = MENU_ACTION_NONE \<and> open_native_menu_win w3 = Some 0) \<and>
   (\<exists>c' w'. RunMenuAt (fst built_A_sep_B) (snd built_A_sep_B) (10, 20) ALIGN_TOPLEFT
              events_right_command_exit = Inr (c', w') \<and>
      open_native_menu_win w' = None \<and> GetMenuAction c' = MENU_ACTION_NEXT)"
proof -
  from run_A_sep_B_facts obtain c' w' where
    r: "RunMenuAt (fst built_A_sep_B) (snd built_A_sep_B) (10, 20) ALIGN_TOPLEFT
              events_right_command_exit = Inr (c', w')" by blast
  have n: "last_navigation events_right_command_exit MENU_ACTION_NONE = MENU_ACTION_NEXT"
    by (simp add: events_right_command_exit_def key_action_def WM_KEYDOWN_def VK_LEFT_def
          VK_RIGHT_def MF_HILITE_def MF_POPUP_def)
  note t = RunMenuAt_action_and_open_instance
             [of "fst built_A_sep_B" "snd built_A_sep_B" "(10, 20)" ALIGN_TOPLEFT
                 events_right_command_exit c' w']
  from t r n have "open_native_menu_win w' = None \<and> GetMenuAction c' = MENU_ACTION_NEXT"
    by simp
  with r have b: "\<exists>c' w'. RunMenuAt (fst built_A_sep_B) (snd built_A_sep_B) (10, 20) ALIGN_TOPLEFT
              events_right_command_exit = Inr (c', w') \<and>
      open_native_menu_win w' = None \<and> GetMenuAction c' = MENU_ACTION_NEXT"
    by blast
  from t have a: "\<exists>c4 w3. RunMenuAt_enter (fst built_A_sep_B) (snd built_A_sep_B) = Inr (c4, w3) \<and>
      menu_action (vars c4) = MENU_ACTION_NONE \<and> open_native_menu_win w3 = Some 0"
    unfolding built_A_sep_B_facts(5) by blast
  from a b show ?thesis by (rule conjI)
qed


subsection \<open>Running the menu while another is open\<close>

lemma IsSeparatorItemAt_open:
  "IsSeparatorItemAt c (w\<lparr>open_native_menu_win := x\<rparr>) i = IsSeparatorItemAt c w i"
  by (simp add: IsSeparatorItemAt_def)

lemma SetMenuItemState_open:
  "SetMenuItemState c (w\<lparr>open_native_menu_win := x\<rparr>) i e ch d
     = (SetMenuItemState c w i e ch d)\<lparr>open_native_menu_win := x\<rparr>"
  by (simp add: SetMenuItemState_def IsSeparatorItemAt_open Let_def)

lemma SetMenuItemLabel_open:
  "SetMenuItemLabel c (w\<lparr>open_native_menu_win := x\<rparr>) i j l
     = (case SetMenuItemLabel c w i j l of
          Inl e \<Rightarrow> Inl e
        | Inr (c', w') \<Rightarrow> Inr (c', w'\<lparr>open_native_menu_win := x\<rparr>))"
  by (simp add: SetMenuItemLabel_def IsSeparatorItemAt_open split: sum.splits)

lemma UpdateStates_open:
  "UpdateStates c (w\<lparr>open_native_menu_win := x\<rparr>)
     = (case UpdateStates c w of
          Inl e \<Rightarrow> Inl e
        | Inr (c', w') \<Rightarrow> Inr (c', w'\<lparr>open_native_menu_win := x\<rparr>))"
  "UpdateStates_from c rest i (w\<lparr>open_native_menu_win := x\<rparr>)
     = (case UpdateStates_from c rest i w of
          Inl e \<Rightarrow> Inl e
        | Inr (c', w') \<Rightarrow> Inr (c', w'\<lparr>open_native_menu_win := x\<rparr>))"
proof (induction c w and c rest i w rule: UpdateStates_UpdateStates_from.induct)
  case (1 v its w)
  then show ?case by simp
next
  case (2 c model_idx w)
  then show ?case by simp
next
  case (3 c l sub nmw mi rest model_idx w)
  let ?menu_index = "model_idx + first_item_index (vars c)"
  let ?w1 = "SetMenuItemState c w ?menu_index (IsEnabledAt (model (vars c)) model_idx)
                 (IsItemCheckedAt (model (vars c)) model_idx) False"
  let ?lab = "if IsItemDynamicAt (model (vars c)) model_idx
               then SetMenuItemLabel c ?w1 ?menu_index model_idx (GetLabelAt (model (vars c)) model_idx)
               else Inr (c, ?w1)"
  let ?X = "\<lambda>r. case r of Inl e \<Rightarrow> Inl e
                | Inr (c', w') \<Rightarrow> Inr (c', w'\<lparr>open_native_menu_win := x\<rparr>)"
  let ?k = "\<lambda>r. case r of
           Inl e \<Rightarrow> Inl e
         | Inr (c2, w2) \<Rightarrow>
             (case sub of
                None \<Rightarrow> UpdateStates_from c2 rest (model_idx + 1) w2
              | Some sm \<Rightarrow>
                  (case UpdateStates sm w2 of
                     Inl e \<Rightarrow> Inl e
                   | Inr (sm', w3) \<Rightarrow>
                       UpdateStates_from (set_submenu c2 model_idx sm') rest (model_idx + 1) w3))"
  have labx: "(if IsItemDynamicAt (model (vars c)) model_idx
               then SetMenuItemLabel c (?w1\<lparr>open_native_menu_win := x\<rparr>) ?menu_index model_idx
                      (GetLabelAt (model (vars c)) model_idx)
               else Inr (c, ?w1\<lparr>open_native_menu_win := x\<rparr>)) = ?X ?lab"
    by (simp add: SetMenuItemLabel_open)
  have L: "UpdateStates_from c (ItemData l sub nmw mi # rest) model_idx
             (w\<lparr>open_native_menu_win := x\<rparr>) = ?k (?X ?lab)"
    by (simp only: UpdateStates.simps UpdateStates_from.simps Let_def SetMenuItemState_open labx)
  have R: "UpdateStates_from c (ItemData l sub nmw mi # rest) model_idx w = ?k ?lab"
    by (simp only: UpdateStates.simps UpdateStates_from.simps Let_def)
  have "?k (?X ?lab) = ?X (?k ?lab)"
  proof (cases ?lab)
    case (Inl e)
    show ?thesis by (simp only: Inl) simp
  next
    case (Inr r)
    obtain c2 w2 where r: "r = (c2, w2)" by (cases r)
    with Inr have lab: "?lab = Inr (c2, w2)" by simp
    show ?thesis
    proof (cases sub)
      case None
      from "3.IH"(1)[OF refl refl lab refl None] show ?thesis
        by (simp only: lab) (simp add: None)
    next
      case (Some sm)
      show ?thesis
      proof (cases "UpdateStates sm w2")
        case (Inl e)
        with "3.IH"(2)[OF refl refl lab refl Some] show ?thesis
          by (simp only: lab) (simp add: Some)
      next
        case (Inr q)
        obtain sm' w3 where q: "q = (sm', w3)" by (cases q)
        with Inr have u: "UpdateStates sm w2 = Inr (sm', w3)" by simp
        from "3.IH"(2)[OF refl refl lab refl Some] "3.IH"(3)[OF refl refl lab refl Some u refl] u
        show ?thesis
          by (simp only: lab) (simp add: Some)
      qed
    qed
  qed
  then show ?case by (simp only: L R)
qed

lemma RunMenuAt_enter_open:
  "RunMenuAt_enter c (w\<lparr>open_native_menu_win := x\<rparr>) = RunMenuAt_enter c w"
proof -
  have "CreateHostWindow c (w\<lparr>open_native_menu_win := x\<rparr>)
        = (fst (CreateHostWindow c w), (snd (CreateHostWindow c w))\<lparr>open_native_menu_win := x\<rparr>)"
    by (simp add: CreateHostWindow_def)
  then show ?thesis
    by (simp add: RunMenuAt_enter_def Let_def UpdateStates_open split_beta split: sum.splits)
qed


lemma fold_notify_trace:
  "trace (fold (\<lambda>l. notify (OnMenuOpened l)) ls w0) = trace w0 @ map OnMenuOpened ls"
  by (induction ls arbitrary: w0) (simp_all add: notify_def)

lemma MenuMessageHook_trace:
  assumes "MenuMessageHook c w msg view = Inr (c', w')"
  shows "(\<exists>rest. trace w' = trace w @ rest) \<and> menu (vars c') = menu (vars c)"
  using assms
  by (auto simp: MenuMessageHook_def Let_def notify_def fold_notify_trace
        split: option.splits if_splits prod.splits)

lemma MenuHostWindowProc_trace:
  "MenuHostWindowProc host m w = Inr w' \<Longrightarrow> \<exists>rest. trace w' = trace w @ rest"
  by (auto simp: MenuHostWindowProc_def ProcessWindowMessage_def OnMenuCommand_def OnMenuSelect_def
        PostTask_def notify_def Let_def
        split: option.splits Message.splits sum.splits if_splits)

lemma modal_loop_trace:
  "modal_loop c w evs = Inr (c', w') \<Longrightarrow>
   (\<exists>rest. trace w' = trace w @ rest) \<and> menu (vars c') = menu (vars c)"
proof (induction c w evs rule: modal_loop.induct)
  case (1 c w)
  then show ?case by simp
next
  case (2 c w msg view evs)
  from "2.prems" obtain c1 w1 where h: "MenuMessageHook c w msg view = Inr (c1, w1)"
    and r: "modal_loop c1 w1 evs = Inr (c', w')"
    by (auto split: sum.splits)
  from "2.IH"[OF h refl r] MenuMessageHook_trace[OF h] show ?case by auto
next
  case (3 c w m evs)
  from "3.prems" obtain w1 where h: "MenuHostWindowProc (host_window (vars c)) m w = Inr w1"
    and r: "modal_loop c w1 evs = Inr (c', w')"
    by (auto split: sum.splits)
  from "3.IH"[OF h r] MenuHostWindowProc_trace[OF h] show ?case by auto
qed

lemma RunMenuAt_enter_trace:
  assumes "RunMenuAt_enter c w = Inr (c4, w3)"
  shows "trace w3 = trace w \<and> menu (vars c4) = menu (vars c)"
proof -
  obtain c1 w1 where h: "CreateHostWindow c w = (c1, w1)" by (metis surj_pair)
  then have v1: "menu (vars c1) = menu (vars c)" "trace w1 = trace w"
    by (auto simp: CreateHostWindow_def split: if_splits)
  from assms h obtain c2 w2 where u: "UpdateStates c1 w1 = Inr (c2, w2)"
    and c4: "menu (vars c4) = menu (vars c2)" and w3: "trace w3 = trace w2"
    by (auto simp: RunMenuAt_enter_def Let_def split: sum.splits)
  from UpdateStates_shape(1)[OF u] only_menus_fields[OF UpdateStates_world(1)[OF u]] v1 c4 w3
  show ?thesis by simp
qed

lemma RunMenuAt_open:
  "RunMenuAt c (w\<lparr>open_native_menu_win := x\<rparr>) point alignment evs = RunMenuAt c w point alignment evs"
  by (simp add: RunMenuAt_def RunMenuAt_enter_open)

lemma RunMenuAt_trace:
  assumes "RunMenuAt c w point alignment evs = Inr (c', w')"
  shows "\<exists>rest. trace w' = trace w @
           TrackPopup (menu (vars c)) (TPM_LEFTBUTTON OR TPM_RECURSE OR GetAlignmentFlags alignment) point # rest"
proof -
  from RunMenuAt_enter_Inr[of c w] obtain c4 w3 where e: "RunMenuAt_enter c w = Inr (c4, w3)"
    by blast
  from assms e obtain c5 w5 where
    l: "modal_loop c4 (notify (TrackPopup (menu (vars c4))
           (TPM_LEFTBUTTON OR TPM_RECURSE OR GetAlignmentFlags alignment) point) w3) evs = Inr (c5, w5)"
    and f: "(c', w') = RunMenuAt_leave c5 w5"
    by (auto simp: RunMenuAt_def TrackPopupMenuEx_def Let_def split: sum.splits)
  from modal_loop_trace[OF l] obtain rest where
    "trace w5 = trace w3 @ TrackPopup (menu (vars c4))
           (TPM_LEFTBUTTON OR TPM_RECURSE OR GetAlignmentFlags alignment) point # rest"
    by (auto simp: notify_def)
  with RunMenuAt_enter_trace[OF e] f show ?thesis
    by (auto simp: RunMenuAt_leave_def)
qed


text \<open>
  C5 (amended). \<open>RunMenuAt\<close> has no check of \<open>open_native_menu_win\<close>: called while it
  holds another controller, it does what it does when it holds none. It stores this
  controller there before the modal loop, and when it returns it has called
  \<^verbatim>\<open>TrackPopupMenuEx\<close> at the point given, with flags that include \<^verbatim>\<open>TPM_RECURSE\<close>.
\<close>

theorem RunMenuAt_ignores_open_instance:
  "RunMenuAt c (w\<lparr>open_native_menu_win := Some other\<rparr>) point alignment evs
     = RunMenuAt c w point alignment evs \<and>
   (\<exists>c4 w3. RunMenuAt_enter c (w\<lparr>open_native_menu_win := Some other\<rparr>) = Inr (c4, w3) \<and>
      open_native_menu_win w3 = Some (this (vars c))) \<and>
   (RunMenuAt c (w\<lparr>open_native_menu_win := Some other\<rparr>) point alignment evs = Inr (c', w') \<longrightarrow>
      (\<exists>flags rest. trace w' = trace w @ TrackPopup (menu (vars c)) flags point # rest \<and>
         flags AND TPM_RECURSE = TPM_RECURSE))"
proof (intro conjI impI)
  show "RunMenuAt c (w\<lparr>open_native_menu_win := Some other\<rparr>) point alignment evs
     = RunMenuAt c w point alignment evs"
    by (rule RunMenuAt_open)
  from RunMenuAt_enter_Inr[of c "w\<lparr>open_native_menu_win := Some other\<rparr>"]
  show "\<exists>c4 w3. RunMenuAt_enter c (w\<lparr>open_native_menu_win := Some other\<rparr>) = Inr (c4, w3) \<and>
      open_native_menu_win w3 = Some (this (vars c))"
    by auto
next
  assume "RunMenuAt c (w\<lparr>open_native_menu_win := Some other\<rparr>) point alignment evs = Inr (c', w')"
  from RunMenuAt_trace[OF this] obtain rest where
    t: "trace w' = trace w @ TrackPopup (menu (vars c))
           (TPM_LEFTBUTTON OR TPM_RECURSE OR GetAlignmentFlags alignment) point # rest"
    by auto
  have "(TPM_LEFTBUTTON OR TPM_RECURSE OR GetAlignmentFlags alignment) AND TPM_RECURSE = TPM_RECURSE"
    by (simp add: TPM_LEFTBUTTON_def TPM_RECURSE_def GetAlignmentFlags_def TPM_TOPALIGN_def
          TPM_LEFTALIGN_def TPM_RIGHTALIGN_def Let_def)
  with t show "\<exists>flags rest. trace w' = trace w @ TrackPopup (menu (vars c)) flags point # rest \<and>
         flags AND TPM_RECURSE = TPM_RECURSE"
    by blast
qed

theorem RunMenuAt_ignores_open_instance_witness:
  "\<exists>c' w'. RunMenuAt (fst built_A_sep_B) ((snd built_A_sep_B)\<lparr>open_native_menu_win := Some 99\<rparr>)
              (10, 20) ALIGN_TOPLEFT events_right_command_exit = Inr (c', w') \<and>
     (\<exists>flags rest. trace w' = trace (snd built_A_sep_B) @
                      TrackPopup (menu (vars (fst built_A_sep_B))) flags (10, 20) # rest \<and>
        flags AND TPM_RECURSE = TPM_RECURSE)"
proof -
  from run_A_sep_B_facts obtain c' w' where
    r: "RunMenuAt (fst built_A_sep_B) (snd built_A_sep_B) (10, 20) ALIGN_TOPLEFT
              events_right_command_exit = Inr (c', w')" by blast
  note t = RunMenuAt_ignores_open_instance
             [where c = "fst built_A_sep_B" and w = "snd built_A_sep_B" and other = 99
                and point = "(10, 20)" and alignment = ALIGN_TOPLEFT
                and evs = events_right_command_exit and c' = c' and w' = w']
  from t r have r': "RunMenuAt (fst built_A_sep_B) ((snd built_A_sep_B)\<lparr>open_native_menu_win := Some 99\<rparr>)
              (10, 20) ALIGN_TOPLEFT events_right_command_exit = Inr (c', w')"
    by simp
  with t have "\<exists>flags rest. trace w' = trace (snd built_A_sep_B) @
                      TrackPopup (menu (vars (fst built_A_sep_B))) flags (10, 20) # rest \<and>
        flags AND TPM_RECURSE = TPM_RECURSE"
    by blast
  with r' show ?thesis by blast
qed


text \<open>
  C5 as stated fails: in a world where the controller at the address 99 has its menu
  open, \<open>RunMenuAt\<close> of the built fixture is not rejected. It returns, and the trace
  shows that it has shown its menu with \<^verbatim>\<open>TrackPopupMenuEx\<close> and run the modal loop.
\<close>

theorem RunMenuAt_while_open_counterexample:
  "open_native_menu_win (other_menu_open (snd built_A_sep_B)) = Some 99 \<and>
   result_trace (RunMenuAt (fst built_A_sep_B) (other_menu_open (snd built_A_sep_B)) (10, 20)
                   ALIGN_TOPLEFT events_right_command_exit)
     = Some [TrackPopup (Some 1) 1 (10, 20), EndMenu, ActivatedAt 0 0]"
  using run_A_sep_B_facts
  by (auto simp: other_menu_open_def RunMenuAt_open result_trace_def)


subsection \<open>The owner-draw flag\<close>

lemma Rebuild_owner_draw:
  "Rebuild c w = Inr (c', w') \<Longrightarrow>
   owner_draw (vars c') = (HasIcons (model (vars c)) \<or> owner_draw (vars c))"
proof -
  assume "Rebuild c w = Inr (c', w')"
  then have "Rebuild_with (\<lambda>i. map_option new_Menu2 (GetSubmenuModelAt (model (vars c)) i)) c w
      = Inr (c', w')"
    by (simp add: Rebuild_def)
  from Rebuild_with_items[OF this] obtain h f where
    "vars c' = (vars c)\<lparr>menu := h, owner_draw := HasIcons (model (vars c)) \<or> owner_draw (vars c),
                     first_item_index := f\<rparr>"
    by blast
  then show ?thesis by simp
qed

lemma RunMenuAt_owner_draw:
  assumes "RunMenuAt c w point alignment evs = Inr (c', w')"
  shows "owner_draw (vars c') = owner_draw (vars c)"
proof -
  from RunMenuAt_enter_Inr[of c w] obtain c4 w3 where e: "RunMenuAt_enter c w = Inr (c4, w3)"
    and o: "owner_draw (vars c4) = owner_draw (vars c)" by blast
  from assms e obtain c5 w5 where
    l: "modal_loop c4 (notify (TrackPopup (menu (vars c4))
           (TPM_LEFTBUTTON OR TPM_RECURSE OR GetAlignmentFlags alignment) point) w3) evs = Inr (c5, w5)"
    and f: "(c', w') = RunMenuAt_leave c5 w5"
    by (auto simp: RunMenuAt_def TrackPopupMenuEx_def Let_def split: sum.splits)
  from modal_loop_Inr[OF l] o f show ?thesis by (simp add: RunMenuAt_leave_def)
qed

lemma do_call_owner_draw:
  "do_call x c w = Inr (c', w') \<Longrightarrow> owner_draw (vars c) \<Longrightarrow> owner_draw (vars c')"
  by (cases x)
     (auto dest: Rebuild_owner_draw UpdateStates_shape(1) RunMenuAt_owner_draw)

lemma do_calls_owner_draw:
  "do_calls xs c w = Inr (c', w') \<Longrightarrow> owner_draw (vars c) \<Longrightarrow> owner_draw (vars c')"
proof (induction xs arbitrary: c w)
  case Nil
  then show ?case by simp
next
  case (Cons x xs)
  from Cons.prems(1) obtain c1 w1 where d: "do_call x c w = Inr (c1, w1)"
    and r: "do_calls xs c1 w1 = Inr (c', w')"
    by (auto split: sum.splits)
  from do_call_owner_draw[OF d Cons.prems(2)] Cons.IH[OF r] show ?case by simp
qed


text \<open>
  C6. The constructor sets \<open>owner_draw\<close> from the font override (for a menu that is not
  a system menu); \<open>Rebuild\<close>, when it returns, has raised it if the model reports icons
  and has kept it otherwise; and when it is true, it is true after every sequence of
  calls of \<open>Rebuild\<close>, \<open>UpdateStates\<close> and \<open>RunMenuAt\<close> that returns, whatever the model
  has become between the calls.
\<close>

theorem owner_draw_is_sticky:
  "owner_draw (vars (NativeMenuWin_ctor w a m system_menu_for_arg))
     = (NeedOverrideDefaultUIFont w \<and> system_menu_for_arg = None) \<and>
   (Rebuild c w = Inr (c', w')
      \<longrightarrow> owner_draw (vars c') = (HasIcons (model (vars c)) \<or> owner_draw (vars c))) \<and>
   (do_calls xs c w = Inr (c'', w'') \<and> owner_draw (vars c) \<longrightarrow> owner_draw (vars c''))"
  using Rebuild_owner_draw[of c w c' w'] do_calls_owner_draw[of xs c w c'' w'']
  by (simp add: NativeMenuWin_ctor_def)


lemma icons_gone_eval:
  "case Rebuild menu_icon_item World_init of
     Inl e \<Rightarrow> False
   | Inr (c, w) \<Rightarrow>
       (case do_calls calls_after_icons_gone c w of
          Inl e \<Rightarrow> False
        | Inr (c', w') \<Rightarrow> \<not> HasIcons (model (vars c')))"
  by (simp add: menu_icon_item_def model_icon_item_def model_plain_item_def calls_after_icons_gone_def
        eval_defs run_defs)


theorem owner_draw_is_sticky_witness:
  "\<not> owner_draw (vars menu_icon_item) \<and>
   (\<exists>c w. Rebuild menu_icon_item World_init = Inr (c, w) \<and> owner_draw (vars c) \<and>
      (\<exists>c' w'. do_calls calls_after_icons_gone c w = Inr (c', w') \<and>
         \<not> HasIcons (model (vars c')) \<and> owner_draw (vars c')))"
proof -
  from icons_gone_eval obtain c w where
    r: "Rebuild menu_icon_item World_init = Inr (c, w)"
    and x: "case do_calls calls_after_icons_gone c w of
          Inl e \<Rightarrow> False
        | Inr (c', w') \<Rightarrow> \<not> HasIcons (model (vars c'))"
    by (cases "Rebuild menu_icon_item World_init") auto
  from x obtain c' w' where
    d: "do_calls calls_after_icons_gone c w = Inr (c', w')"
    and i: "\<not> HasIcons (model (vars c'))"
    by (cases "do_calls calls_after_icons_gone c w") auto
  note t0 = owner_draw_is_sticky[of World_init 0 model_icon_item None menu_icon_item c w]
  have o0: "\<not> owner_draw (vars menu_icon_item)"
    using t0 by (simp add: menu_icon_item_def World_init_def)
  have o1: "owner_draw (vars c)"
    using t0 r by (simp add: menu_icon_item_def NativeMenuWin_ctor_def model_icon_item_def)
  note t1 = owner_draw_is_sticky[of w 0 model_icon_item None c _ _ calls_after_icons_gone c' w']
  from t1 d o1 have o2: "owner_draw (vars c')" by blast
  from d i o2 have "\<exists>c' w'. do_calls calls_after_icons_gone c w = Inr (c', w') \<and>
         \<not> HasIcons (model (vars c')) \<and> owner_draw (vars c')" by blast
  with r o1 have "\<exists>c w. Rebuild menu_icon_item World_init = Inr (c, w) \<and> owner_draw (vars c) \<and>
      (\<exists>c' w'. do_calls calls_after_icons_gone c w = Inr (c', w') \<and>
         \<not> HasIcons (model (vars c')) \<and> owner_draw (vars c'))" by blast
  with o0 show ?thesis by (rule conjI)
qed


subsection \<open>The order of the notifications\<close>

lemma run_tasks_append:
  "run_tasks (ts @ [t]) w = (case run_tasks ts w of Inl e \<Rightarrow> Inl e | Inr w' \<Rightarrow> run_task t w')"
  by (induction ts arbitrary: w) (auto split: sum.splits)

lemma run_tasks_trace:
  "run_tasks ts w = Inr w' \<Longrightarrow> \<exists>mid. trace w' = trace w @ mid"
proof (induction ts arbitrary: w)
  case Nil
  then show ?case by simp
next
  case (Cons t ts)
  from Cons.prems obtain w1 where t: "run_task t w = Inr w1" and r: "run_tasks ts w1 = Inr w'"
    by (auto split: sum.splits)
  from t have "\<exists>e. trace w1 = trace w @ [e]"
    by (auto simp: run_task_def OnMenuClosed_def notify_def split: Task.splits option.splits)
  with Cons.IH[OF r] show ?case by auto
qed


text \<open>
  C2. For a host window whose controller is \<open>p\<close>, and a menu whose \<open>dwMenuData\<close> is the
  controller \<open>a\<close>: the handler of \<^verbatim>\<open>WM_EXITMENULOOP\<close> notifies nothing, it posts
  \<^verbatim>\<open>OnMenuClosed\<close>. When \<^verbatim>\<open>WM_EXITMENULOOP\<close> and \<^verbatim>\<open>WM_MENUCOMMAND\<close> are delivered one after
  the other in the same call stack, \<open>ActivatedAt\<close> has been notified when they return and
  \<open>MenuClosed\<close> has not; the posted tasks run after that, and then \<open>MenuClosed\<close> is
  notified, after \<open>ActivatedAt\<close>. (When no task was posted before, nothing comes between
  them, and the tasks do run.)
\<close>

theorem MenuClosed_after_ActivatedAt:
  assumes "parent host = Some p" and "GetMenuInfo_dwMenuData w hmenu = Some a"
  shows "(\<exists>w0. MenuHostWindowProc (Some host) WM_EXITMENULOOP w = Inr w0 \<and>
            trace w0 = trace w \<and> posted_tasks w0 = posted_tasks w @ [Run_OnMenuClosed host]) \<and>
         (\<exists>w1. deliver (Some host) [WM_EXITMENULOOP, WM_MENUCOMMAND w_param hmenu] w = Inr w1 \<and>
            trace w1 = trace w @ [ActivatedAt a (sint w_param)] \<and>
            posted_tasks w1 = posted_tasks w @ [Run_OnMenuClosed host] \<and>
            (\<forall>w2. RunPendingTasks w1 = Inr w2 \<longrightarrow>
               (\<exists>mid. trace w2 = trace w @ [ActivatedAt a (sint w_param)] @ mid @ [MenuClosed p])) \<and>
            (posted_tasks w = [] \<longrightarrow>
               (\<exists>w2. RunPendingTasks w1 = Inr w2 \<and>
                  trace w2 = trace w @ [ActivatedAt a (sint w_param), MenuClosed p])))"
proof (intro conjI)
  show "\<exists>w0. MenuHostWindowProc (Some host) WM_EXITMENULOOP w = Inr w0 \<and>
            trace w0 = trace w \<and> posted_tasks w0 = posted_tasks w @ [Run_OnMenuClosed host]"
    by (simp add: MenuHostWindowProc_def ProcessWindowMessage_def PostTask_def)
next
  let ?w1 = "notify (ActivatedAt a (sint w_param)) (PostTask (Run_OnMenuClosed host) w)"
  have dd: "GetMenuInfo_dwMenuData (PostTask (Run_OnMenuClosed host) w) hmenu
              = GetMenuInfo_dwMenuData w hmenu"
    by (cases hmenu) (simp_all add: GetMenuInfo_dwMenuData_def PostTask_def)
  have d: "deliver (Some host) [WM_EXITMENULOOP, WM_MENUCOMMAND w_param hmenu] w = Inr ?w1"
    using assms(2) dd
    by (simp add: MenuHostWindowProc_def ProcessWindowMessage_def OnMenuCommand_def)
  have t1: "trace ?w1 = trace w @ [ActivatedAt a (sint w_param)]"
    and p1: "posted_tasks ?w1 = posted_tasks w @ [Run_OnMenuClosed host]"
    by (simp_all add: notify_def PostTask_def)
  have g: "\<exists>mid. trace w2 = trace w @ [ActivatedAt a (sint w_param)] @ mid @ [MenuClosed p]"
    if r: "RunPendingTasks ?w1 = Inr w2" for w2
  proof -
    let ?w1' = "?w1\<lparr>posted_tasks := []\<rparr>"
    from r obtain wm where m: "run_tasks (posted_tasks w) ?w1' = Inr wm"
      and l: "run_task (Run_OnMenuClosed host) wm = Inr w2"
      unfolding RunPendingTasks_def p1 run_tasks_append by (auto split: sum.splits)
    from run_tasks_trace[OF m] obtain mid where "trace wm = trace ?w1' @ mid" by blast
    moreover have "trace ?w1' = trace w @ [ActivatedAt a (sint w_param)]" using t1 by simp
    moreover from l assms(1) have "trace w2 = trace wm @ [MenuClosed p]"
      by (auto simp: run_task_def OnMenuClosed_def notify_def)
    ultimately show ?thesis by simp
  qed
  have e: "\<exists>w2. RunPendingTasks ?w1 = Inr w2 \<and>
                  trace w2 = trace w @ [ActivatedAt a (sint w_param), MenuClosed p]"
    if "posted_tasks w = []"
    using that assms(1)
    by (simp add: RunPendingTasks_def notify_def PostTask_def run_task_def OnMenuClosed_def)
  show "\<exists>w1. deliver (Some host) [WM_EXITMENULOOP, WM_MENUCOMMAND w_param hmenu] w = Inr w1 \<and>
            trace w1 = trace w @ [ActivatedAt a (sint w_param)] \<and>
            posted_tasks w1 = posted_tasks w @ [Run_OnMenuClosed host] \<and>
            (\<forall>w2. RunPendingTasks w1 = Inr w2 \<longrightarrow>
               (\<exists>mid. trace w2 = trace w @ [ActivatedAt a (sint w_param)] @ mid @ [MenuClosed p])) \<and>
            (posted_tasks w = [] \<longrightarrow>
               (\<exists>w2. RunPendingTasks w1 = Inr w2 \<and>
                  trace w2 = trace w @ [ActivatedAt a (sint w_param), MenuClosed p]))"
    using d t1 p1 g e by (intro exI[of _ ?w1]) blast
qed

theorem MenuClosed_after_ActivatedAt_witness:
  "parent host_of_A_sep_B = Some 0 \<and>
   GetMenuInfo_dwMenuData (snd built_A_sep_B) (Some 1) = Some 0 \<and>
   (\<exists>w1. deliver (Some host_of_A_sep_B) [WM_EXITMENULOOP, WM_MENUCOMMAND 2 (Some 1)]
            (snd built_A_sep_B) = Inr w1 \<and>
      trace w1 = [ActivatedAt 0 2] \<and>
      (\<exists>w2. RunPendingTasks w1 = Inr w2 \<and> trace w2 = [ActivatedAt 0 2, MenuClosed 0]))"
proof -
  have h1: "parent host_of_A_sep_B = Some 0" by (simp add: host_of_A_sep_B_def)
  have h2: "GetMenuInfo_dwMenuData (snd built_A_sep_B) (Some 1) = Some 0"
    using built_A_sep_B_facts(16) by (auto simp: GetMenuInfo_dwMenuData_def split: option.splits)
  from MenuClosed_after_ActivatedAt[OF h1 h2, of 2] obtain w1 where
    d: "deliver (Some host_of_A_sep_B) [WM_EXITMENULOOP, WM_MENUCOMMAND 2 (Some 1)]
            (snd built_A_sep_B) = Inr w1"
    and t: "trace w1 = trace (snd built_A_sep_B) @ [ActivatedAt 0 (sint (2::WPARAM))]"
    and e: "posted_tasks (snd built_A_sep_B) = [] \<longrightarrow>
               (\<exists>w2. RunPendingTasks w1 = Inr w2 \<and>
                  trace w2 = trace (snd built_A_sep_B) @ [ActivatedAt 0 (sint (2::WPARAM)), MenuClosed 0])"
    by blast
  from e obtain w2 where "RunPendingTasks w1 = Inr w2" "trace w2 = [ActivatedAt 0 2, MenuClosed 0]"
    by (auto simp: built_A_sep_B_facts(18,19))
  then have "\<exists>w2. RunPendingTasks w1 = Inr w2 \<and> trace w2 = [ActivatedAt 0 2, MenuClosed 0]" by blast
  moreover from t have "trace w1 = [ActivatedAt 0 2]" by (simp add: built_A_sep_B_facts(18))
  ultimately have "\<exists>w1. deliver (Some host_of_A_sep_B) [WM_EXITMENULOOP, WM_MENUCOMMAND 2 (Some 1)]
            (snd built_A_sep_B) = Inr w1 \<and>
      trace w1 = [ActivatedAt 0 2] \<and>
      (\<exists>w2. RunPendingTasks w1 = Inr w2 \<and> trace w2 = [ActivatedAt 0 2, MenuClosed 0])"
    using d by blast
  with h1 h2 show ?thesis by (intro conjI)
qed


end
